(* ===== verification/Prelude.thy ===== *)
theory Prelude
  imports Complex_Main "HOL-Library.Multiset" "HOL-Library.Char_ord" "HOL-Library.List_Lexorder"
begin

text \<open>
  Shared vocabulary of the development: results of fallible code (an error or a value),
  guards evaluated in order, tables of a relational database as lists of rows with a key,
  decimal text of integers, and the generic lemmas the component theories use.
\<close>

named_theorems result_simps \<open>inversion of results\<close>
named_theorems table_simps \<open>lookup and update of keyed tables\<close>

section \<open>Results: an exception or a value\<close>

text \<open>
  \<open>Inl e\<close> is the exception (or the SQL error) \<open>e\<close>, \<open>Inr x\<close> a normal return. \<open>andThen\<close>
  runs the second computation only after a normal return, as a sequence of statements does.
\<close>

definition andThen :: "'e + 'a \<Rightarrow> ('a \<Rightarrow> 'e + 'b) \<Rightarrow> 'e + 'b" where
  "andThen m f = (case m of Inl e \<Rightarrow> Inl e | Inr x \<Rightarrow> f x)"

lemma andThen_simps [simp]:
  "andThen (Inl e) f = Inl e"
  "andThen (Inr x) f = f x"
  by (simp_all add: andThen_def)

lemma andThen_eq_Inr [result_simps]:
  "andThen m f = Inr y \<longleftrightarrow> (\<exists>x. m = Inr x \<and> f x = Inr y)"
  by (cases m) auto

lemma andThen_eq_Inl:
  "andThen m f = Inl e \<longleftrightarrow> m = Inl e \<or> (\<exists>x. m = Inr x \<and> f x = Inl e)"
  by (cases m) auto

definition require :: "bool \<Rightarrow> 'e \<Rightarrow> 'e + unit" where
  "require b e = (if b then Inr () else Inl e)"

lemma require_eq_Inr [result_simps]: "require b e = Inr u \<longleftrightarrow> b"
  by (simp add: require_def)

lemma require_True [simp]: "require True e = Inr ()"
  by (simp add: require_def)

lemma require_False [simp]: "require False e = Inl e"
  by (simp add: require_def)

text \<open>A list of conditions checked in order; the first that fails is the error.\<close>

fun check_all :: "('e \<times> bool) list \<Rightarrow> 'e + unit" where
  "check_all [] = Inr ()"
| "check_all ((e, b) # cs) = (if b then check_all cs else Inl e)"

lemma check_all_eq_Inr [result_simps]: "check_all cs = Inr u \<longleftrightarrow> (\<forall>c \<in> set cs. snd c)"
  by (induction cs) (auto split: if_splits)

declare check_all.simps [simp del]

lemma check_all_first_error: "check_all ((e, b) # cs) = Inl e" if "\<not> b"
  using that by (simp add: check_all.simps)

lemma check_all_holds: "check_all ((e, b) # cs) = check_all cs" if b
  using that by (simp add: check_all.simps)

text \<open>Run a fallible step on every element, threading a state.\<close>

fun fold_result :: "('a \<Rightarrow> 's \<Rightarrow> 'e + 's) \<Rightarrow> 'a list \<Rightarrow> 's \<Rightarrow> 'e + 's" where
  "fold_result f [] s = Inr s"
| "fold_result f (x # xs) s = andThen (f x s) (fold_result f xs)"

lemma fold_result_append:
  "fold_result f (xs @ ys) s = andThen (fold_result f xs s) (fold_result f ys)"
proof (induction xs arbitrary: s)
  case Nil
  then show ?case by simp
next
  case (Cons x xs)
  then show ?case by (cases "f x s") simp_all
qed

lemma fold_result_invariant:
  assumes step: "\<And>x s s'. x \<in> set xs \<Longrightarrow> P s \<Longrightarrow> f x s = Inr s' \<Longrightarrow> P s'"
    and "P s" "fold_result f xs s = Inr s'"
  shows "P s'"
  using assms(2,3) step
proof (induction xs arbitrary: s)
  case Nil
  then show ?case by simp
next
  case (Cons x xs)
  from Cons.prems(2) obtain s1 where s1: "f x s = Inr s1" "fold_result f xs s1 = Inr s'"
    by (auto simp: result_simps)
  have "P s1" using Cons.prems(3) [of x s s1] Cons.prems(1) s1(1) by simp
  then show ?case using s1(2) Cons.prems(3) by (auto intro: Cons.IH)
qed

definition result_of_option :: "'e \<Rightarrow> 'a option \<Rightarrow> 'e + 'a" where
  "result_of_option e m = (case m of None \<Rightarrow> Inl e | Some x \<Rightarrow> Inr x)"

lemma result_of_option_eq_Inr [result_simps]: "result_of_option e m = Inr x \<longleftrightarrow> m = Some x"
  by (simp add: result_of_option_def split: option.splits)

lemma result_of_option_simps [simp]:
  "result_of_option e None = Inl e"
  "result_of_option e (Some x) = Inr x"
  by (simp_all add: result_of_option_def)

section \<open>Tables\<close>

text \<open>
  A table is the list of its rows in insertion order. \<open>lookup_by\<close> is a query on a unique
  column, \<open>replace_by\<close> an UPDATE of the rows whose column has the given value.
\<close>

definition lookup_by :: "('r \<Rightarrow> 'k) \<Rightarrow> 'k \<Rightarrow> 'r list \<Rightarrow> 'r option" where
  "lookup_by key k rows = find (\<lambda>r. key r = k) rows"

definition replace_by :: "('r \<Rightarrow> 'k) \<Rightarrow> 'k \<Rightarrow> 'r \<Rightarrow> 'r list \<Rightarrow> 'r list" where
  "replace_by key k new rows = map (\<lambda>r. if key r = k then new else r) rows"

lemma lookup_by_SomeD:
  assumes "lookup_by key k rows = Some r"
  shows lookup_by_in: "r \<in> set rows" and lookup_by_key: "key r = k"
  using assms by (auto simp: lookup_by_def find_Some_iff in_set_conv_nth)

lemma lookup_by_Nil [simp, table_simps]: "lookup_by key k [] = None"
  by (simp add: lookup_by_def)

lemma lookup_by_Cons [table_simps]:
  "lookup_by key k (r # rows) = (if key r = k then Some r else lookup_by key k rows)"
  by (simp add: lookup_by_def)

lemma lookup_by_append [table_simps]:
  "lookup_by key k (xs @ ys) = (case lookup_by key k xs of Some r \<Rightarrow> Some r | None \<Rightarrow> lookup_by key k ys)"
  by (induction xs) (simp_all add: lookup_by_Cons)

lemma lookup_by_eq_None: "lookup_by key k rows = None \<longleftrightarrow> k \<notin> key ` set rows"
  by (auto simp: lookup_by_def find_None_iff)

lemma lookup_by_distinct:
  "distinct (map key rows) \<Longrightarrow> r \<in> set rows \<Longrightarrow> lookup_by key (key r) rows = Some r"
  by (induction rows) (auto simp: lookup_by_Cons image_iff)

lemma lookup_by_distinct_iff:
  "distinct (map key rows) \<Longrightarrow> lookup_by key k rows = Some r \<longleftrightarrow> r \<in> set rows \<and> key r = k"
  using lookup_by_distinct lookup_by_SomeD by metis

lemma replace_by_Nil [simp]: "replace_by key k new [] = []"
  by (simp add: replace_by_def)

lemma replace_by_Cons [table_simps]:
  "replace_by key k new (r # rows) = (if key r = k then new else r) # replace_by key k new rows"
  by (simp add: replace_by_def)

lemma length_replace_by [simp]: "length (replace_by key k new rows) = length rows"
  by (simp add: replace_by_def)

lemma map_replace_by_same [simp]:
  assumes "\<And>r. r \<in> set rows \<Longrightarrow> key r = k \<Longrightarrow> f new = f r"
  shows "map f (replace_by key k new rows) = map f rows"
  using assms by (auto simp: replace_by_def)

lemma replace_by_no_match: "k \<notin> key ` set rows \<Longrightarrow> replace_by key k new rows = rows"
  by (induction rows) (auto simp: replace_by_def)

lemma replace_by_twice:
  "key u = k \<Longrightarrow> replace_by key k r (replace_by key k u rows) = replace_by key k r rows"
  by (simp add: replace_by_def)

lemma in_set_replace_by:
  assumes "x \<in> set (replace_by key k new rows)"
  shows "x = new \<or> x \<in> set rows \<and> key x \<noteq> k"
  using assms by (auto simp: replace_by_def split: if_splits)

lemma set_replace_by_distinct:
  assumes "distinct (map key rows)" "lookup_by key k rows = Some old" "key new = k"
  shows "set (replace_by key k new rows) = insert new (set rows - {old})"
proof -
  have old: "old \<in> set rows" "key old = k"
    using lookup_by_in [OF assms(2)] lookup_by_key [OF assms(2)] .
  have uniq: "key r = k \<longleftrightarrow> r = old" if r: "r \<in> set rows" for r
  proof
    assume "key r = k"
    then show "r = old" using lookup_by_distinct [OF assms(1) r] assms(2) by simp
  next
    assume "r = old"
    then show "key r = k" using old(2) by simp
  qed
  have "set (replace_by key k new rows) = (\<lambda>r. if r = old then new else r) ` set rows"
    unfolding replace_by_def set_map by (rule image_cong) (simp_all add: uniq)
  also have "\<dots> = insert new (set rows - {old})" using old(1) by auto
  finally show ?thesis .
qed

text \<open>
  The one fact the accounting invariants rest on: updating one row of a table with a unique key
  changes a sum over the table by the difference of the two rows.
\<close>

lemma sum_list_replace_by:
  fixes g :: "'r \<Rightarrow> int"
  assumes "distinct (map key rows)" "lookup_by key k rows = Some old" "key new = k"
  shows "sum_list (map g (replace_by key k new rows)) = sum_list (map g rows) + g new - g old"
  using assms(1,2)
proof (induction rows)
  case Nil
  then show ?case by simp
next
  case (Cons r rows)
  show ?case
  proof (cases "key r = k")
    case True
    then have "k \<notin> key ` set rows" using Cons.prems(1) by auto
    then show ?thesis
      using True Cons.prems(2) by (simp add: replace_by_Cons lookup_by_Cons replace_by_no_match)
  next
    case False
    then show ?thesis using Cons by (simp add: replace_by_Cons lookup_by_Cons)
  qed
qed

text \<open>
  The contract of a keyed table inside a larger state, for the clients that read it after an
  insert or an update: what they may assume of lookups.
\<close>

locale keyed_table =
  fixes key :: "'r \<Rightarrow> 'k"
    and rows :: "'s \<Rightarrow> 'r list"
    and set_rows :: "('r list \<Rightarrow> 'r list) \<Rightarrow> 's \<Rightarrow> 's"
  assumes rows_set: "rows (set_rows f s) = f (rows s)"
begin

lemma lookup_inserted:
  "lookup_by key (key r) (rows s) = None \<Longrightarrow>
    lookup_by key k (rows (set_rows (\<lambda>rs. rs @ [r]) s)) =
      (if k = key r then Some r else lookup_by key k (rows s))"
  by (auto simp: rows_set table_simps split: option.splits)

lemma lookup_updated:
  assumes "key new = k" "lookup_by key k (rows s) = Some old"
  shows "lookup_by key k' (rows (set_rows (replace_by key k new) s)) =
    (if k' = k then Some new else lookup_by key k' (rows s))"
proof -
  have other: "lookup_by key k' (replace_by key k new rs) = lookup_by key k' rs" if "k' \<noteq> k" for rs
    using that assms(1) by (induction rs) (auto simp: table_simps)
  have same: "lookup_by key k (replace_by key k new rs) = Some new" if "lookup_by key k rs = Some old" for rs
    using that assms(1) by (induction rs) (auto simp: table_simps split: if_splits)
  show ?thesis using assms(2) by (simp add: rows_set other same)
qed

lemma distinct_inserted:
  "distinct (map key (rows s)) \<Longrightarrow> lookup_by key (key r) (rows s) = None \<Longrightarrow>
    distinct (map key (rows (set_rows (\<lambda>rs. rs @ [r]) s)))"
  by (auto simp: rows_set lookup_by_eq_None)

lemma keys_updated:
  "key new = k \<Longrightarrow> map key (rows (set_rows (replace_by key k new) s)) = map key (rows s)"
  by (simp add: rows_set)

lemma length_updated [simp]: "length (rows (set_rows (replace_by key k new) s)) = length (rows s)"
  by (simp add: rows_set)

end

section \<open>Decimal text\<close>

definition digit_char :: "nat \<Rightarrow> char" where
  "digit_char n = char_of (48 + n)"

definition char_code :: "char \<Rightarrow> nat" where
  "char_code c = of_char c"

definition is_digit :: "char \<Rightarrow> bool" where
  "is_digit c \<longleftrightarrow> 48 \<le> char_code c \<and> char_code c \<le> 57"

definition is_upper :: "char \<Rightarrow> bool" where
  "is_upper c \<longleftrightarrow> 65 \<le> char_code c \<and> char_code c \<le> 90"

definition is_lower :: "char \<Rightarrow> bool" where
  "is_lower c \<longleftrightarrow> 97 \<le> char_code c \<and> char_code c \<le> 122"

text \<open>\<open>toString()\<close> of a bigint: decimal digits, no leading zero, a minus sign when negative.\<close>

fun dec_of_nat :: "nat \<Rightarrow> string" where
  "dec_of_nat n = (if n < 10 then [digit_char n] else dec_of_nat (n div 10) @ [digit_char (n mod 10)])"

declare dec_of_nat.simps [simp del]

definition dec_of_int :: "int \<Rightarrow> string" where
  "dec_of_int i = (if i < 0 then CHR ''-'' # dec_of_nat (nat (- i)) else dec_of_nat (nat i))"

definition nat_of_digits :: "string \<Rightarrow> nat" where
  "nat_of_digits s = foldl (\<lambda>n c. 10 * n + (char_code c - 48)) 0 s"

lemma char_code_digit_char [simp]: "d < 10 \<Longrightarrow> char_code (digit_char d) = 48 + d"
  by (simp add: char_code_def digit_char_def)

lemma is_digit_digit_char [simp]: "d < 10 \<Longrightarrow> is_digit (digit_char d)"
  by (simp add: is_digit_def)

lemma nat_of_digits_append:
  "nat_of_digits (s @ [c]) = 10 * nat_of_digits s + (char_code c - 48)"
  by (simp add: nat_of_digits_def)

lemma nat_of_digits_dec_of_nat: "nat_of_digits (dec_of_nat n) = n"
proof (induction n rule: dec_of_nat.induct)
  case (1 n)
  show ?case
  proof (cases "n < 10")
    case True
    then show ?thesis by (subst dec_of_nat.simps) (simp add: nat_of_digits_def)
  next
    case False
    then show ?thesis using "1.IH" by (subst dec_of_nat.simps) (simp add: nat_of_digits_append)
  qed
qed

lemma dec_of_nat_digits: "list_all is_digit (dec_of_nat n)"
proof (induction n rule: dec_of_nat.induct)
  case (1 n)
  then show ?case by (subst dec_of_nat.simps) simp
qed

lemma dec_of_nat_nonempty [simp]: "dec_of_nat n \<noteq> []"
  by (subst dec_of_nat.simps) simp

text \<open>Division of bigints truncates towards zero.\<close>

definition bigint_div :: "int \<Rightarrow> int \<Rightarrow> int" where
  "bigint_div a b = sgn a * sgn b * (\<bar>a\<bar> div \<bar>b\<bar>)"

lemma bigint_div_nonneg: "0 \<le> a \<Longrightarrow> 0 < b \<Longrightarrow> bigint_div a b = a div b"
  by (cases "a = 0") (simp_all add: bigint_div_def)

text \<open>\<open>toLowerCase()\<close> on the letters A to Z (the source applies it to enum names).\<close>

definition to_lower :: "string \<Rightarrow> string" where
  "to_lower s = map (\<lambda>c. if is_upper c then char_of (char_code c + 32) else c) s"

text \<open>
  JavaScript's conversion of text to a bigint: surrounding white space is dropped, the empty text
  is 0, then an optionally signed decimal or an unsigned hexadecimal, octal or binary literal.
\<close>

definition is_js_space :: "char \<Rightarrow> bool" where
  "is_js_space c \<longleftrightarrow> char_code c \<in> {9, 10, 11, 12, 13, 32, 160}"

definition js_trim :: "string \<Rightarrow> string" where
  "js_trim s = rev (dropWhile is_js_space (rev (dropWhile is_js_space s)))"

definition radix_value :: "char \<Rightarrow> nat" where
  "radix_value c =
    (if is_digit c then char_code c - 48
     else if is_lower c then char_code c - 87
     else if is_upper c then char_code c - 55
     else 255)"

definition radix_number :: "nat \<Rightarrow> string \<Rightarrow> int option" where
  "radix_number radix ds =
    (if ds \<noteq> [] \<and> list_all (\<lambda>c. radix_value c < radix) ds
     then Some (int (foldl (\<lambda>n c. radix * n + radix_value c) 0 ds)) else None)"

definition string_to_bigint :: "string \<Rightarrow> int option" where
  "string_to_bigint s =
    (case js_trim s of
       [] \<Rightarrow> Some 0
     | c # cs \<Rightarrow>
        if c = CHR ''+'' then radix_number 10 cs
        else if c = CHR ''-'' then map_option uminus (radix_number 10 cs)
        else if c = CHR ''0'' \<and> cs \<noteq> [] \<and> hd cs \<in> {CHR ''x'', CHR ''X''} then radix_number 16 (tl cs)
        else if c = CHR ''0'' \<and> cs \<noteq> [] \<and> hd cs \<in> {CHR ''o'', CHR ''O''} then radix_number 8 (tl cs)
        else if c = CHR ''0'' \<and> cs \<noteq> [] \<and> hd cs \<in> {CHR ''b'', CHR ''B''} then radix_number 2 (tl cs)
        else radix_number 10 (c # cs))"

section \<open>Sums over tables\<close>

lemma sum_list_filter_if:
  fixes g :: "'r \<Rightarrow> int"
  shows "sum_list (map g (filter P xs)) = sum_list (map (\<lambda>x. if P x then g x else 0) xs)"
  by (induction xs) auto

lemma sum_list_zero:
  fixes g :: "'r \<Rightarrow> int"
  shows "(\<And>x. x \<in> set xs \<Longrightarrow> g x = 0) \<Longrightarrow> sum_list (map g xs) = 0"
  by (induction xs) auto

lemma sum_list_cong:
  fixes g :: "'r \<Rightarrow> int"
  shows "(\<And>x. x \<in> set xs \<Longrightarrow> g x = h x) \<Longrightarrow> sum_list (map g xs) = sum_list (map h xs)"
  by (induction xs) auto

end
