(* ===== verification/Schema.thy ===== *)
theory Schema
  imports Prelude
begin

text \<open>
  The data model: the enums and tables of prisma/migrations (the DDL that prisma/schema.prisma
  mirrors), one record per table and one record for the database. A row's columns keep the SQL
  names behind a one-letter prefix for the table. Uuids are strings; timestamps are milliseconds
  since the epoch (TIMESTAMPTZ(3)); BIGINT and INTEGER columns are unbounded integers here, and
  the statements of theory Database refuse values outside the column's range. Strings are lists of
  code units below 256. The surrogate ids of postings, history rows and dataset loads, which no
  code reads, are left out: those tables are lists in insertion order.
\<close>

section \<open>Enums\<close>

datatype account_type = ASSET | LIABILITY | EQUITY | REVENUE | EXPENSE

datatype entry_direction = DEBIT | CREDIT

datatype provider = ORANGE_MONEY | MTN_MOMO | WAVE | MOOV_MONEY

datatype transaction_type = PAYMENT | REFUND

datatype transaction_status =
    INITIATED | PENDING | SUCCEEDED | FAILED | EXPIRED
  | PARTIALLY_REFUNDED | REFUNDED | DISPUTED | REVERSED

datatype actor_type = USER | SYSTEM | PROVIDER

datatype api_role = MERCHANT | OPERATOR | ANALYST | ADMIN

datatype reconciliation_kind =
    LATE_ACKNOWLEDGMENT | MISSING_IN_STATEMENT | MISSING_LOCALLY | AMOUNT_MISMATCH

text \<open>The text of an enum value, as TypeScript and PostgreSQL spell it.\<close>

fun status_text :: "transaction_status \<Rightarrow> string" where
  "status_text INITIATED = ''INITIATED''"
| "status_text PENDING = ''PENDING''"
| "status_text SUCCEEDED = ''SUCCEEDED''"
| "status_text FAILED = ''FAILED''"
| "status_text EXPIRED = ''EXPIRED''"
| "status_text PARTIALLY_REFUNDED = ''PARTIALLY_REFUNDED''"
| "status_text REFUNDED = ''REFUNDED''"
| "status_text DISPUTED = ''DISPUTED''"
| "status_text REVERSED = ''REVERSED''"

fun provider_text :: "provider \<Rightarrow> string" where
  "provider_text ORANGE_MONEY = ''ORANGE_MONEY''"
| "provider_text MTN_MOMO = ''MTN_MOMO''"
| "provider_text WAVE = ''WAVE''"
| "provider_text MOOV_MONEY = ''MOOV_MONEY''"

fun role_text :: "api_role \<Rightarrow> string" where
  "role_text MERCHANT = ''MERCHANT''"
| "role_text OPERATOR = ''OPERATOR''"
| "role_text ANALYST = ''ANALYST''"
| "role_text ADMIN = ''ADMIN''"

fun kind_text :: "reconciliation_kind \<Rightarrow> string" where
  "kind_text LATE_ACKNOWLEDGMENT = ''LATE_ACKNOWLEDGMENT''"
| "kind_text MISSING_IN_STATEMENT = ''MISSING_IN_STATEMENT''"
| "kind_text MISSING_LOCALLY = ''MISSING_LOCALLY''"
| "kind_text AMOUNT_MISMATCH = ''AMOUNT_MISMATCH''"

lemma provider_text_inject [simp]: "provider_text p = provider_text q \<longleftrightarrow> p = q"
  by (cases p; cases q) simp_all

lemma status_text_inject [simp]: "status_text p = status_text q \<longleftrightarrow> p = q"
  by (cases p; cases q) simp_all

section \<open>Rows\<close>

type_synonym uuid = string
type_synonym timestamp = int

record ledger_account =
  a_id :: uuid
  a_code :: string
  a_name :: string
  a_type :: account_type
  a_currency :: string
  a_is_active :: bool
  a_created_at :: timestamp

record journal_entry =
  e_id :: uuid
  e_description :: string
  e_transaction_id :: "uuid option"
  e_reverses_entry_id :: "uuid option"
  e_created_tx_id :: nat
  e_created_at :: timestamp

record ledger_posting =
  p_entry_id :: uuid
  p_account_id :: uuid
  p_direction :: entry_direction
  p_amount :: int
  p_currency :: string

record transaction =
  t_id :: uuid
  t_reference :: string
  t_type :: transaction_type
  t_status :: transaction_status
  t_provider :: provider
  t_provider_reference :: "string option"
  t_amount :: int
  t_currency :: string
  t_refunded_amount :: int
  t_customer_msisdn :: string
  t_parent_transaction_id :: "uuid option"
  t_merchant_id :: uuid
  t_idempotency_key :: string
  t_request_fingerprint :: string
  t_version :: int
  t_expires_at :: "timestamp option"
  t_created_at :: timestamp
  t_updated_at :: timestamp

record status_history =
  h_transaction_id :: uuid
  h_from_status :: "transaction_status option"
  h_to_status :: transaction_status
  h_actor_type :: actor_type
  h_actor_id :: "string option"
  h_reason :: "string option"
  h_created_at :: timestamp

record merchant =
  m_id :: uuid
  m_code :: string
  m_name :: string
  m_is_active :: bool
  m_created_at :: timestamp

record api_key =
  k_id :: uuid
  k_label :: string
  k_role :: api_role
  k_hashed_key :: string
  k_merchant_id :: "uuid option"
  k_is_active :: bool
  k_revoked_at :: "timestamp option"
  k_created_at :: timestamp

record reconciliation_exception =
  x_id :: uuid
  x_kind :: reconciliation_kind
  x_transaction_id :: "uuid option"
  x_reported_status :: "transaction_status option"
  x_provider_reference :: "string option"
  x_detail :: "string option"
  x_detected_at :: timestamp
  x_resolved_at :: "timestamp option"
  x_resolved_by :: "string option"
  x_resolution :: "string option"

record dataset_load =
  l_loaded_at :: timestamp
  l_started_at :: "timestamp option"

text \<open>
  The database. \<open>next_tx_id\<close> is what \<open>txid_current()\<close> returns in the next SQL transaction,
  \<open>deferred\<close> the entries whose balance the current SQL transaction still has to check at COMMIT
  (empty between transactions).
\<close>

record db =
  transactions :: "transaction list"
  history :: "status_history list"
  accounts :: "ledger_account list"
  entries :: "journal_entry list"
  postings :: "ledger_posting list"
  merchants :: "merchant list"
  api_keys :: "api_key list"
  exceptions :: "reconciliation_exception list"
  loads :: "dataset_load list"
  next_tx_id :: nat
  deferred :: "uuid list"

text \<open>Every table with a primary key honours the contract of a keyed table.\<close>

interpretation tx_table: keyed_table t_id transactions transactions_update
  by unfold_locales simp

interpretation account_table: keyed_table a_id accounts accounts_update
  by unfold_locales simp

interpretation entry_table: keyed_table e_id entries entries_update
  by unfold_locales simp

interpretation merchant_table: keyed_table m_id merchants merchants_update
  by unfold_locales simp

interpretation key_table: keyed_table k_id api_keys api_keys_update
  by unfold_locales simp

interpretation exception_table: keyed_table x_id exceptions exceptions_update
  by unfold_locales simp

section \<open>Errors\<close>

text \<open>
  The codes of src/database/ledger-errors.ts, which the SQL rules raise, and the exceptions a
  service can end with: an error of the database (by its kind), an HTTP exception of NestJS (its
  status and message), or a plain JavaScript error.
\<close>

datatype ledger_error_code =
    APPEND_ONLY | UNBALANCED_ENTRY | CURRENCY_MISMATCH | SEALED_ENTRY | INVALID_TRANSITION
  | FROZEN_FIELD | MISSING_ACTOR | INVALID_REVERSAL | INACTIVE_ACCOUNT | BUSINESS_RULE

fun ledger_code_text :: "ledger_error_code \<Rightarrow> string" where
  "ledger_code_text APPEND_ONLY = ''LX001''"
| "ledger_code_text UNBALANCED_ENTRY = ''LX002''"
| "ledger_code_text CURRENCY_MISMATCH = ''LX003''"
| "ledger_code_text SEALED_ENTRY = ''LX004''"
| "ledger_code_text INVALID_TRANSITION = ''LX005''"
| "ledger_code_text FROZEN_FIELD = ''LX006''"
| "ledger_code_text MISSING_ACTOR = ''LX007''"
| "ledger_code_text INVALID_REVERSAL = ''LX008''"
| "ledger_code_text INACTIVE_ACCOUNT = ''LX009''"
| "ledger_code_text BUSINESS_RULE = ''LX010''"

datatype app_error =
    Ledger_Error ledger_error_code string \<comment> \<open>RAISE EXCEPTION '[LX...] text'\<close>
  | Unique_Violation string \<comment> \<open>P2002 / 23505, the index\<close>
  | Foreign_Key_Violation string \<comment> \<open>P2003 / 23503, the constraint\<close>
  | Check_Violation string \<comment> \<open>23514, the constraint\<close>
  | Out_Of_Range string \<comment> \<open>22003 / 22001, the column\<close>
  | Insufficient_Privilege string \<comment> \<open>42501, the table\<close>
  | Record_Not_Found string \<comment> \<open>P2025 of a findUniqueOrThrow\<close>
  | Http_Exception nat string \<comment> \<open>a NestJS HttpException\<close>
  | Reconciliation_Required string uuid \<comment> \<open>reconciliation-required.exception.ts\<close>
  | Js_Error string \<comment> \<open>throw new Error(...)\<close>

end
