(* ===== verification/Database.thy ===== *)
theory Database
  imports Schema
begin

text \<open>
  The integrity rules of prisma/migrations: what an INSERT, an UPDATE and a COMMIT do, with the
  triggers and constraints of the migrations in the order PostgreSQL runs them for a row: column
  ranges, the BEFORE trigger, the CHECK constraints (by name), the unique indexes, then the foreign
  keys and the AFTER trigger. A statement takes the SQL transaction it runs in (\<open>session\<close>) and
  returns an error or the new state. \<open>sql_transaction\<close> is BEGIN ... COMMIT: the deferred
  constraint triggers run at its end and any error restores the state it started from.
\<close>

section \<open>Formats of the CHECK constraints\<close>

text \<open>\<open>'^[A-Z]{3}$'\<close>, \<open>'^\+[1-9][0-9]{7,14}$'\<close>, \<open>'^[0-9a-f]{64}$'\<close> and
  \<open>'^[a-z0-9_]+(:[a-z0-9_]+)*$'\<close>.\<close>

definition is_currency :: "string \<Rightarrow> bool" where
  "is_currency s \<longleftrightarrow> length s = 3 \<and> list_all is_upper s"

fun is_msisdn :: "string \<Rightarrow> bool" where
  "is_msisdn (p # d # ds) \<longleftrightarrow>
     p = CHR ''+'' \<and> is_digit d \<and> d \<noteq> CHR ''0'' \<and> 7 \<le> length ds \<and> length ds \<le> 14 \<and> list_all is_digit ds"
| "is_msisdn _ \<longleftrightarrow> False"

definition is_hex64 :: "string \<Rightarrow> bool" where
  "is_hex64 s \<longleftrightarrow> length s = 64 \<and> list_all (\<lambda>c. is_digit c \<or> (97 \<le> char_code c \<and> char_code c \<le> 102)) s"

definition is_code_char :: "char \<Rightarrow> bool" where
  "is_code_char c \<longleftrightarrow> is_lower c \<or> is_digit c \<or> c = CHR ''_''"

fun is_account_code :: "string \<Rightarrow> bool" where
  "is_account_code [] \<longleftrightarrow> False"
| "is_account_code [c] \<longleftrightarrow> is_code_char c"
| "is_account_code (c # d # cs) \<longleftrightarrow>
     is_code_char c \<and> (if d = CHR '':'' then is_account_code cs else is_account_code (d # cs))"

definition in_int8 :: "int \<Rightarrow> bool" where
  "in_int8 i \<longleftrightarrow> - (2 ^ 63) \<le> i \<and> i < 2 ^ 63"

definition in_int4 :: "int \<Rightarrow> bool" where
  "in_int4 i \<longleftrightarrow> - (2 ^ 31) \<le> i \<and> i < 2 ^ 31"

section \<open>The SQL transaction a statement runs in\<close>

text \<open>
  The actor is what \<open>withActor\<close> stores with \<open>set_config('app.actor_...', ..., true)\<close>: visible to
  the triggers of this SQL transaction only. Without \<open>withActor\<close> there is none.
\<close>

record actor =
  ac_type :: actor_type
  ac_id :: string
  ac_reason :: "string option"

record session =
  s_tx_id :: nat
  s_now :: timestamp
  s_actor :: "actor option"

definition nullif_empty :: "string \<Rightarrow> string option" where
  "nullif_empty s = (if s = [] then None else Some s)"

definition setting_reason :: "actor \<Rightarrow> string option" where
  "setting_reason a = (case ac_reason a of None \<Rightarrow> None | Some r \<Rightarrow> nullif_empty r)"

section \<open>transactions: INSERT\<close>

definition transaction_ranges :: "transaction \<Rightarrow> (app_error \<times> bool) list" where
  "transaction_ranges t =
    [(Out_Of_Range ''reference'', length (t_reference t) \<le> 40),
     (Out_Of_Range ''provider_reference'', (case t_provider_reference t of None \<Rightarrow> True | Some r \<Rightarrow> length r \<le> 100)),
     (Out_Of_Range ''amount'', in_int8 (t_amount t)),
     (Out_Of_Range ''currency'', length (t_currency t) \<le> 3),
     (Out_Of_Range ''refunded_amount'', in_int8 (t_refunded_amount t)),
     (Out_Of_Range ''customer_msisdn'', length (t_customer_msisdn t) \<le> 16),
     (Out_Of_Range ''idempotency_key'', length (t_idempotency_key t) \<le> 100),
     (Out_Of_Range ''request_fingerprint'', length (t_request_fingerprint t) \<le> 64),
     (Out_Of_Range ''version'', in_int4 (t_version t))]"

definition settled_statuses :: "transaction_status list" where
  "settled_statuses = [INITIATED, PENDING, SUCCEEDED, FAILED, EXPIRED]"

definition transaction_checks :: "transaction \<Rightarrow> (app_error \<times> bool) list" where
  "transaction_checks t =
    [(Check_Violation ''transactions_amount_positive_chk'', 0 < t_amount t),
     (Check_Violation ''transactions_currency_iso_chk'', is_currency (t_currency t)),
     (Check_Violation ''transactions_expires_at_after_created_chk'',
        (case t_expires_at t of None \<Rightarrow> True | Some x \<Rightarrow> t_created_at t < x)),
     (Check_Violation ''transactions_fingerprint_hex_chk'', is_hex64 (t_request_fingerprint t)),
     (Check_Violation ''transactions_msisdn_e164_chk'', is_msisdn (t_customer_msisdn t)),
     (Check_Violation ''transactions_parent_by_type_chk'',
        (t_type t = REFUND) = (t_parent_transaction_id t \<noteq> None)),
     (Check_Violation ''transactions_refund_statuses_chk'',
        t_type t = PAYMENT \<or> t_refunded_amount t = 0 \<and> t_status t \<in> set settled_statuses),
     (Check_Violation ''transactions_refunded_range_chk'',
        0 \<le> t_refunded_amount t \<and> t_refunded_amount t \<le> t_amount t),
     (Check_Violation ''transactions_status_refund_consistency_chk'',
        (t_status t \<in> set settled_statuses \<longrightarrow> t_refunded_amount t = 0)
        \<and> (t_status t = PARTIALLY_REFUNDED \<longrightarrow> 0 < t_refunded_amount t \<and> t_refunded_amount t < t_amount t)
        \<and> (t_status t = REFUNDED \<longrightarrow> t_refunded_amount t = t_amount t))]"

text \<open>
  \<open>fn_transactions_before_insert\<close>. When the parent does not exist the comparisons are NULL, the
  IF is not taken, and the foreign key refuses the row later.
\<close>

definition transactions_before_insert :: "session \<Rightarrow> db \<Rightarrow> transaction \<Rightarrow> app_error + transaction" where
  "transactions_before_insert s d new =
    andThen (require (t_status new = INITIATED)
      (Ledger_Error INVALID_TRANSITION
        (''Une transaction na'' @ [CHR 0xEE] @ ''t au statut INITIATED (re'' @ [CHR 0xE7] @ ''u : ''
          @ status_text (t_status new) @ '')'')))
    (\<lambda>_. let new' = new\<lparr>t_version := 1, t_refunded_amount := 0,
                        t_created_at := s_now s, t_updated_at := s_now s\<rparr> in
      if t_type new' \<noteq> REFUND then Inr new'
      else (case t_parent_transaction_id new' of
          None \<Rightarrow> Inr new'
        | Some pid \<Rightarrow> (case lookup_by t_id pid (transactions d) of
              None \<Rightarrow> Inr new'
            | Some parent \<Rightarrow>
                if t_type parent \<noteq> PAYMENT
                   \<or> t_status parent \<notin> {SUCCEEDED, PARTIALLY_REFUNDED}
                   \<or> t_currency parent \<noteq> t_currency new'
                   \<or> t_provider parent \<noteq> t_provider new'
                   \<or> t_amount parent - t_refunded_amount parent < t_amount new'
                then Inl (Ledger_Error BUSINESS_RULE
                       (''Remboursement invalide pour la transaction '' @ pid))
                else Inr new')))"

definition transaction_unique_checks :: "transaction list \<Rightarrow> transaction \<Rightarrow> (app_error \<times> bool) list" where
  "transaction_unique_checks ts t =
    [(Unique_Violation ''transactions_pkey'', t_id t \<notin> t_id ` set ts),
     (Unique_Violation ''transactions_reference_key'', t_reference t \<notin> t_reference ` set ts),
     (Unique_Violation ''transactions_idempotency_key_key'', t_idempotency_key t \<notin> t_idempotency_key ` set ts),
     (Unique_Violation ''transactions_provider_provider_reference_key'',
        t_provider_reference t = None
        \<or> (t_provider t, t_provider_reference t) \<notin> (\<lambda>r. (t_provider r, t_provider_reference r)) ` set ts)]"

text \<open>\<open>fn_transactions_record_status\<close>: the history row, with the declared actor.\<close>

definition record_status ::
    "session \<Rightarrow> transaction_status option \<Rightarrow> transaction \<Rightarrow> db \<Rightarrow> app_error + db" where
  "record_status s old new d =
    (case s_actor s of
       None \<Rightarrow> Inl (Ledger_Error MISSING_ACTOR
                (''Changement de statut sans acteur d'' @ [CHR 0xE9] @ ''clar'' @ [CHR 0xE9] @ '' (app.actor_type)''))
     | Some a \<Rightarrow>
        andThen (check_all
            [(Out_Of_Range ''actor_id'', length (ac_id a) \<le> 100),
             (Out_Of_Range ''reason'', (case setting_reason a of None \<Rightarrow> True | Some r \<Rightarrow> length r \<le> 500))])
          (\<lambda>_. Inr (d\<lparr>history := history d @
              [\<lparr>h_transaction_id = t_id new, h_from_status = old, h_to_status = t_status new,
                h_actor_type = ac_type a, h_actor_id = nullif_empty (ac_id a),
                h_reason = setting_reason a, h_created_at = s_now s\<rparr>]\<rparr>)))"

definition insert_transaction :: "session \<Rightarrow> transaction \<Rightarrow> db \<Rightarrow> app_error + (transaction \<times> db)" where
  "insert_transaction s new d =
    andThen (check_all (transaction_ranges new)) (\<lambda>_.
    andThen (transactions_before_insert s d new) (\<lambda>row.
    andThen (check_all (transaction_checks row)) (\<lambda>_.
    andThen (check_all (transaction_unique_checks (transactions d) row)) (\<lambda>_.
    let d' = d\<lparr>transactions := transactions d @ [row]\<rparr> in
    andThen (check_all
        [(Foreign_Key_Violation ''transactions_parent_transaction_id_fkey'',
            (case t_parent_transaction_id row of None \<Rightarrow> True | Some pid \<Rightarrow> pid \<in> t_id ` set (transactions d'))),
         (Foreign_Key_Violation ''transactions_merchant_id_fkey'', t_merchant_id row \<in> m_id ` set (merchants d'))])
      (\<lambda>_. andThen (record_status s None row d') (\<lambda>d''. Inr (row, d'')))))))"

section \<open>transactions: UPDATE\<close>

text \<open>The rows of \<open>transaction_status_transitions\<close>: the state machine as data.\<close>

definition status_transitions :: "(transaction_status \<times> transaction_status) list" where
  "status_transitions =
    [(INITIATED, PENDING), (INITIATED, FAILED),
     (PENDING, SUCCEEDED), (PENDING, FAILED), (PENDING, EXPIRED),
     (SUCCEEDED, PARTIALLY_REFUNDED), (SUCCEEDED, REFUNDED), (SUCCEEDED, DISPUTED),
     (PARTIALLY_REFUNDED, REFUNDED), (PARTIALLY_REFUNDED, DISPUTED),
     (DISPUTED, SUCCEEDED), (DISPUTED, PARTIALLY_REFUNDED), (DISPUTED, REVERSED)]"

definition allowed :: "transaction_status \<Rightarrow> transaction_status \<Rightarrow> bool" where
  "allowed a b \<longleftrightarrow> (a, b) \<in> set status_transitions"

definition frozen_columns_kept :: "transaction \<Rightarrow> transaction \<Rightarrow> bool" where
  "frozen_columns_kept old new \<longleftrightarrow>
     t_id new = t_id old \<and> t_reference new = t_reference old \<and> t_type new = t_type old
   \<and> t_provider new = t_provider old \<and> t_amount new = t_amount old \<and> t_currency new = t_currency old
   \<and> t_customer_msisdn new = t_customer_msisdn old
   \<and> t_parent_transaction_id new = t_parent_transaction_id old
   \<and> t_merchant_id new = t_merchant_id old \<and> t_idempotency_key new = t_idempotency_key old
   \<and> t_request_fingerprint new = t_request_fingerprint old
   \<and> t_expires_at new = t_expires_at old \<and> t_created_at new = t_created_at old"

text \<open>\<open>fn_transactions_before_update\<close>, as the migration transaction_merchant_id leaves it.\<close>

definition transactions_before_update ::
    "session \<Rightarrow> transaction \<Rightarrow> transaction \<Rightarrow> app_error + transaction" where
  "transactions_before_update s old new =
    andThen (check_all
      [(Ledger_Error FROZEN_FIELD
          (''Transaction '' @ t_reference old @ '' : champ fig'' @ [CHR 0xE9] @ '' modifi'' @ [CHR 0xE9]),
        frozen_columns_kept old new),
       (Ledger_Error FROZEN_FIELD
          (''Transaction '' @ t_reference old @ '' : r'' @ [CHR 0xE9] @ ''f'' @ [CHR 0xE9] @ ''rence op''
            @ [CHR 0xE9] @ ''rateur d'' @ [CHR 0xE9] @ ''j'' @ [CHR 0xE0] @ '' pos'' @ [CHR 0xE9] @ ''e''),
        \<not> (t_provider_reference old \<noteq> None \<and> t_provider_reference new \<noteq> t_provider_reference old)),
       (Ledger_Error BUSINESS_RULE
          (''Transaction '' @ t_reference old @ '' : le montant rembours'' @ [CHR 0xE9] @ '' ne peut pas diminuer''),
        \<not> t_refunded_amount new < t_refunded_amount old),
       (Ledger_Error INVALID_TRANSITION
          (''Transition interdite pour '' @ t_reference old @ '': '' @ status_text (t_status old)
            @ '' -> '' @ status_text (t_status new)),
        \<not> (t_status new \<noteq> t_status old \<and> \<not> allowed (t_status old) (t_status new)))])
    (\<lambda>_. andThen (require (in_int4 (t_version old + 1)) (Out_Of_Range ''version''))
      (\<lambda>_. Inr (new\<lparr>t_version := t_version old + 1, t_updated_at := s_now s\<rparr>)))"

text \<open>
  One row of an UPDATE: \<open>set\<close> is the SET clause. The row is found by its primary key; an UPDATE of
  no row is Prisma's P2025.
\<close>

definition update_transaction ::
    "session \<Rightarrow> uuid \<Rightarrow> (transaction \<Rightarrow> transaction) \<Rightarrow> db \<Rightarrow> app_error + (transaction \<times> db)" where
  "update_transaction s tid set_clause d =
    (case lookup_by t_id tid (transactions d) of
       None \<Rightarrow> Inl (Record_Not_Found ''transactions'')
     | Some old \<Rightarrow>
        andThen (check_all (transaction_ranges (set_clause old))) (\<lambda>_.
        andThen (transactions_before_update s old (set_clause old)) (\<lambda>row.
        andThen (check_all (transaction_checks row)) (\<lambda>_.
        let d' = d\<lparr>transactions := replace_by t_id tid row (transactions d)\<rparr> in
        if t_status row \<noteq> t_status old
        then andThen (record_status s (Some (t_status old)) row d') (\<lambda>d''. Inr (row, d''))
        else Inr (row, d')))))"

section \<open>The ledger: INSERT of entries and postings\<close>

definition insert_account :: "ledger_account \<Rightarrow> db \<Rightarrow> app_error + (ledger_account \<times> db)" where
  "insert_account a d =
    andThen (check_all
      [(Out_Of_Range ''code'', length (a_code a) \<le> 100),
       (Out_Of_Range ''name'', length (a_name a) \<le> 200),
       (Out_Of_Range ''currency'', length (a_currency a) \<le> 3),
       (Check_Violation ''ledger_accounts_code_format_chk'', is_account_code (a_code a)),
       (Check_Violation ''ledger_accounts_currency_iso_chk'', is_currency (a_currency a)),
       (Unique_Violation ''ledger_accounts_pkey'', a_id a \<notin> a_id ` set (accounts d)),
       (Unique_Violation ''ledger_accounts_code_key'', a_code a \<notin> a_code ` set (accounts d))])
    (\<lambda>_. Inr (a, d\<lparr>accounts := accounts d @ [a]\<rparr>))"

text \<open>
  \<open>fn_journal_entries_before_insert\<close> stamps the SQL transaction; the constraint trigger
  \<open>trg_journal_entries_balanced\<close> queues the check of the entry for COMMIT.
\<close>

definition insert_entry ::
    "session \<Rightarrow> uuid \<Rightarrow> string \<Rightarrow> uuid option \<Rightarrow> uuid option \<Rightarrow> db \<Rightarrow> app_error + (journal_entry \<times> db)" where
  "insert_entry s eid descr tid reverses d =
    (let row = \<lparr>e_id = eid, e_description = descr, e_transaction_id = tid, e_reverses_entry_id = reverses,
                e_created_tx_id = s_tx_id s, e_created_at = s_now s\<rparr>;
         d' = d\<lparr>entries := entries d @ [row], deferred := deferred d @ [eid]\<rparr>
     in andThen (check_all
      [(Out_Of_Range ''description'', length descr \<le> 500),
       (Check_Violation ''journal_entries_not_self_reversal_chk'', reverses \<noteq> Some eid),
       (Unique_Violation ''journal_entries_pkey'', eid \<notin> e_id ` set (entries d)),
       (Unique_Violation ''journal_entries_reverses_entry_id_key'',
          reverses = None \<or> reverses \<notin> e_reverses_entry_id ` set (entries d)),
       (Foreign_Key_Violation ''journal_entries_transaction_id_fkey'',
          (case tid of None \<Rightarrow> True | Some x \<Rightarrow> x \<in> t_id ` set (transactions d'))),
       (Foreign_Key_Violation ''journal_entries_reverses_entry_id_fkey'',
          (case reverses of None \<Rightarrow> True | Some x \<Rightarrow> x \<in> e_id ` set (entries d')))])
     (\<lambda>_. Inr (row, d')))"

text \<open>
  \<open>fn_ledger_postings_before_insert\<close>: LX009 for an inactive account, LX003 for a currency that is
  not the account's (no row found gives NULL, which skips both), LX004 for an entry that this SQL
  transaction did not create.
\<close>

definition postings_before_insert :: "session \<Rightarrow> db \<Rightarrow> ledger_posting \<Rightarrow> app_error + unit" where
  "postings_before_insert s d new =
    (let account = lookup_by a_id (p_account_id new) (accounts d);
         entry_tx = map_option e_created_tx_id (lookup_by e_id (p_entry_id new) (entries d))
     in check_all
      [(Ledger_Error INACTIVE_ACCOUNT (''Compte '' @ p_account_id new @ '' inactif''),
          (case account of None \<Rightarrow> True | Some a \<Rightarrow> a_is_active a)),
       (Ledger_Error CURRENCY_MISMATCH
          (''Devise de la ligne ('' @ p_currency new @ '') diff'' @ [CHR 0xE9] @ ''rente de celle du compte (''
            @ (case account of None \<Rightarrow> [] | Some a \<Rightarrow> a_currency a) @ '')''),
          (case account of None \<Rightarrow> True | Some a \<Rightarrow> a_currency a = p_currency new)),
       (Ledger_Error SEALED_ENTRY
          ([CHR 0xC9] @ ''criture '' @ p_entry_id new @ '' scell'' @ [CHR 0xE9] @ ''e : ajout de ligne refus'' @ [CHR 0xE9]),
          entry_tx = Some (s_tx_id s))])"

definition insert_posting :: "session \<Rightarrow> ledger_posting \<Rightarrow> db \<Rightarrow> app_error + db" where
  "insert_posting s new d =
    andThen (check_all
      [(Out_Of_Range ''amount'', in_int8 (p_amount new)),
       (Out_Of_Range ''currency'', length (p_currency new) \<le> 3)]) (\<lambda>_.
    andThen (postings_before_insert s d new) (\<lambda>_.
    andThen (check_all
      [(Check_Violation ''ledger_postings_amount_positive_chk'', 0 < p_amount new),
       (Check_Violation ''ledger_postings_currency_iso_chk'', is_currency (p_currency new)),
       (Foreign_Key_Violation ''ledger_postings_account_id_fkey'', p_account_id new \<in> a_id ` set (accounts d)),
       (Foreign_Key_Violation ''ledger_postings_entry_id_fkey'', p_entry_id new \<in> e_id ` set (entries d))])
    (\<lambda>_. Inr (d\<lparr>postings := postings d @ [new], deferred := deferred d @ [p_entry_id new]\<rparr>))))"

text \<open>\<open>createMany\<close>: the rows of one INSERT in order; the first refused row refuses the statement.\<close>

definition insert_postings :: "session \<Rightarrow> ledger_posting list \<Rightarrow> db \<Rightarrow> app_error + db" where
  "insert_postings s = fold_result (insert_posting s)"

section \<open>merchants and reconciliation_exceptions\<close>

definition insert_merchant :: "merchant \<Rightarrow> db \<Rightarrow> app_error + (merchant \<times> db)" where
  "insert_merchant m d =
    andThen (check_all
      [(Out_Of_Range ''code'', length (m_code m) \<le> 50),
       (Out_Of_Range ''name'', length (m_name m) \<le> 200),
       (Unique_Violation ''merchants_pkey'', m_id m \<notin> m_id ` set (merchants d)),
       (Unique_Violation ''merchants_code_key'', m_code m \<notin> m_code ` set (merchants d))])
    (\<lambda>_. Inr (m, d\<lparr>merchants := merchants d @ [m]\<rparr>))"

definition exception_ranges :: "reconciliation_exception \<Rightarrow> (app_error \<times> bool) list" where
  "exception_ranges x =
    [(Out_Of_Range ''provider_reference'', (case x_provider_reference x of None \<Rightarrow> True | Some v \<Rightarrow> length v \<le> 100)),
     (Out_Of_Range ''detail'', (case x_detail x of None \<Rightarrow> True | Some v \<Rightarrow> length v \<le> 500)),
     (Out_Of_Range ''resolved_by'', (case x_resolved_by x of None \<Rightarrow> True | Some v \<Rightarrow> length v \<le> 100)),
     (Out_Of_Range ''resolution'', (case x_resolution x of None \<Rightarrow> True | Some v \<Rightarrow> length v \<le> 2000))]"

text \<open>\<open>btrim(resolution) <> ''\<close> strips spaces only.\<close>

definition exception_checks :: "reconciliation_exception \<Rightarrow> (app_error \<times> bool) list" where
  "exception_checks x =
    [(Check_Violation ''reconciliation_exceptions_reported_status_kind_chk'',
        (x_kind x = LATE_ACKNOWLEDGMENT) = (x_reported_status x \<noteq> None)),
     (Check_Violation ''reconciliation_exceptions_resolution_not_blank_chk'',
        (case x_resolution x of None \<Rightarrow> True | Some v \<Rightarrow> list_ex (\<lambda>c. c \<noteq> CHR '' '') v)),
     (Check_Violation ''reconciliation_exceptions_resolution_together_chk'',
        (x_resolved_at x = None \<and> x_resolved_by x = None \<and> x_resolution x = None)
        \<or> (x_resolved_at x \<noteq> None \<and> x_resolved_by x \<noteq> None \<and> x_resolution x \<noteq> None)),
     (Check_Violation ''reconciliation_exceptions_transaction_id_kind_chk'',
        (x_kind x = MISSING_LOCALLY) = (x_transaction_id x = None))]"

definition insert_exception ::
    "reconciliation_exception \<Rightarrow> db \<Rightarrow> app_error + (reconciliation_exception \<times> db)" where
  "insert_exception x d =
    andThen (check_all (exception_ranges x)) (\<lambda>_.
    andThen (check_all (exception_checks x)) (\<lambda>_.
    andThen (check_all
      [(Unique_Violation ''reconciliation_exceptions_pkey'', x_id x \<notin> x_id ` set (exceptions d)),
       (Foreign_Key_Violation ''reconciliation_exceptions_transaction_id_fkey'',
          (case x_transaction_id x of None \<Rightarrow> True | Some tid \<Rightarrow> tid \<in> t_id ` set (transactions d)))])
    (\<lambda>_. Inr (x, d\<lparr>exceptions := exceptions d @ [x]\<rparr>))))"

text \<open>\<open>fn_reconciliation_exceptions_before_update\<close>, as reconciliation_exception_kinds leaves it.\<close>

definition exceptions_before_update ::
    "reconciliation_exception \<Rightarrow> reconciliation_exception \<Rightarrow> app_error + unit" where
  "exceptions_before_update old new =
    check_all
      [(Ledger_Error FROZEN_FIELD
          (''Exception de rapprochement '' @ x_id old @ '' : champ fig'' @ [CHR 0xE9] @ '' modifi'' @ [CHR 0xE9]),
        x_id new = x_id old \<and> x_transaction_id new = x_transaction_id old \<and> x_kind new = x_kind old
        \<and> x_reported_status new = x_reported_status old
        \<and> x_provider_reference new = x_provider_reference old
        \<and> x_detail new = x_detail old \<and> x_detected_at new = x_detected_at old),
       (Ledger_Error FROZEN_FIELD
          (''Exception de rapprochement '' @ x_id old @ '' : d'' @ [CHR 0xE9] @ ''j'' @ [CHR 0xE0] @ '' r''
            @ [CHR 0xE9] @ ''solue''),
        \<not> (x_resolved_at old \<noteq> None \<and>
           (x_resolved_at new \<noteq> x_resolved_at old \<or> x_resolved_by new \<noteq> x_resolved_by old
            \<or> x_resolution new \<noteq> x_resolution old)))]"

definition update_exception ::
    "uuid \<Rightarrow> (reconciliation_exception \<Rightarrow> reconciliation_exception) \<Rightarrow> db
      \<Rightarrow> app_error + (reconciliation_exception \<times> db)" where
  "update_exception xid set_clause d =
    (case lookup_by x_id xid (exceptions d) of
       None \<Rightarrow> Inl (Record_Not_Found ''reconciliation_exceptions'')
     | Some old \<Rightarrow>
        andThen (check_all (exception_ranges (set_clause old))) (\<lambda>_.
        andThen (exceptions_before_update old (set_clause old)) (\<lambda>_.
        andThen (check_all (exception_checks (set_clause old))) (\<lambda>_.
        Inr (set_clause old, d\<lparr>exceptions := replace_by x_id xid (set_clause old) (exceptions d)\<rparr>)))))"

section \<open>api_keys and demo_dataset_loads\<close>

definition api_key_checks :: "api_key \<Rightarrow> (app_error \<times> bool) list" where
  "api_key_checks k =
    [(Out_Of_Range ''label'', length (k_label k) \<le> 200),
     (Out_Of_Range ''hashed_key'', length (k_hashed_key k) \<le> 64),
     (Check_Violation ''api_keys_active_revoked_consistency_chk'',
        (k_is_active k \<and> k_revoked_at k = None) \<or> (\<not> k_is_active k \<and> k_revoked_at k \<noteq> None)),
     (Check_Violation ''api_keys_merchant_role_chk'', (k_role k = MERCHANT) = (k_merchant_id k \<noteq> None))]"

definition insert_api_key :: "api_key \<Rightarrow> db \<Rightarrow> app_error + (api_key \<times> db)" where
  "insert_api_key k d =
    andThen (check_all (api_key_checks k)) (\<lambda>_.
    andThen (check_all
      [(Unique_Violation ''api_keys_pkey'', k_id k \<notin> k_id ` set (api_keys d)),
       (Unique_Violation ''api_keys_hashed_key_key'', k_hashed_key k \<notin> k_hashed_key ` set (api_keys d)),
       (Foreign_Key_Violation ''api_keys_merchant_id_fkey'',
          (case k_merchant_id k of None \<Rightarrow> True | Some mid \<Rightarrow> mid \<in> m_id ` set (merchants d)))])
    (\<lambda>_. Inr (k, d\<lparr>api_keys := api_keys d @ [k]\<rparr>)))"

text \<open>\<open>fn_api_keys_before_update\<close>: frozen columns, and revocation is one way.\<close>

definition api_keys_before_update :: "api_key \<Rightarrow> api_key \<Rightarrow> app_error + unit" where
  "api_keys_before_update old new =
    check_all
      [(Ledger_Error FROZEN_FIELD
          (''Cl'' @ [CHR 0xE9] @ '' API '' @ k_id old @ '' : champ fig'' @ [CHR 0xE9] @ '' modifi'' @ [CHR 0xE9]),
        k_id new = k_id old \<and> k_role new = k_role old \<and> k_hashed_key new = k_hashed_key old
        \<and> k_merchant_id new = k_merchant_id old \<and> k_created_at new = k_created_at old),
       (Ledger_Error FROZEN_FIELD
          (''Cl'' @ [CHR 0xE9] @ '' API '' @ k_id old @ '' : d'' @ [CHR 0xE9] @ ''j'' @ [CHR 0xE0] @ '' r''
            @ [CHR 0xE9] @ ''voqu'' @ [CHR 0xE9] @ ''e''),
        \<not> (k_revoked_at old \<noteq> None \<and>
           (k_revoked_at new \<noteq> k_revoked_at old \<or> k_is_active new \<noteq> k_is_active old)))]"

definition update_api_key ::
    "uuid \<Rightarrow> (api_key \<Rightarrow> api_key) \<Rightarrow> db \<Rightarrow> app_error + (api_key \<times> db)" where
  "update_api_key kid set_clause d =
    (case lookup_by k_id kid (api_keys d) of
       None \<Rightarrow> Inl (Record_Not_Found ''api_keys'')
     | Some old \<Rightarrow>
        andThen (api_keys_before_update old (set_clause old)) (\<lambda>_.
        andThen (check_all (api_key_checks (set_clause old))) (\<lambda>_.
        Inr (set_clause old, d\<lparr>api_keys := replace_by k_id kid (set_clause old) (api_keys d)\<rparr>))))"

definition insert_load :: "session \<Rightarrow> timestamp option \<Rightarrow> db \<Rightarrow> app_error + (dataset_load \<times> db)" where
  "insert_load s started d =
    (let l = \<lparr>l_loaded_at = s_now s, l_started_at = started\<rparr> in Inr (l, d\<lparr>loads := loads d @ [l]\<rparr>))"

section \<open>COMMIT: every entry is balanced\<close>

definition is_debit :: "ledger_posting \<Rightarrow> bool" where
  "is_debit p \<longleftrightarrow> p_direction p = DEBIT"

definition total_debit :: "ledger_posting list \<Rightarrow> int" where
  "total_debit ps = sum_list (map p_amount (filter is_debit ps))"

definition total_credit :: "ledger_posting list \<Rightarrow> int" where
  "total_credit ps = sum_list (map p_amount (filter (\<lambda>p. \<not> is_debit p) ps))"

definition lines_of :: "uuid \<Rightarrow> db \<Rightarrow> ledger_posting list" where
  "lines_of eid d = filter (\<lambda>p. p_entry_id p = eid) (postings d)"

fun opposite :: "entry_direction \<Rightarrow> entry_direction" where
  "opposite DEBIT = CREDIT"
| "opposite CREDIT = DEBIT"

text \<open>The two EXCEPT ALL differences are empty exactly when the multisets of lines are mirrors.\<close>

definition is_mirror :: "ledger_posting list \<Rightarrow> ledger_posting list \<Rightarrow> bool" where
  "is_mirror original counter \<longleftrightarrow>
     mset (map (\<lambda>p. (p_account_id p, opposite (p_direction p), p_amount p)) original)
   = mset (map (\<lambda>p. (p_account_id p, p_direction p, p_amount p)) counter)"

text \<open>\<open>fn_assert_entry_valid\<close>.\<close>

definition assert_entry_valid :: "db \<Rightarrow> uuid \<Rightarrow> app_error + unit" where
  "assert_entry_valid d eid =
    (let ls = lines_of eid d;
         reverses = (case lookup_by e_id eid (entries d) of None \<Rightarrow> None | Some e \<Rightarrow> e_reverses_entry_id e);
         ecriture = [CHR 0xC9] @ ''criture '' @ eid
     in check_all
      [(Ledger_Error UNBALANCED_ENTRY
          (ecriture @ '' : au moins 2 lignes requises ('' @ dec_of_nat (length ls) @ '' trouv'' @ [CHR 0xE9] @ ''e(s))''),
        2 \<le> length ls),
       (Ledger_Error CURRENCY_MISMATCH
          (ecriture @ '' : plusieurs devises dans une m'' @ [CHR 0xEA] @ ''me '' @ [CHR 0xE9] @ ''criture''),
        length (remdups (map p_currency ls)) = 1),
       (Ledger_Error UNBALANCED_ENTRY
          (ecriture @ '' d'' @ [CHR 0xE9] @ ''s'' @ [CHR 0xE9] @ ''quilibr'' @ [CHR 0xE9] @ ''e : d'' @ [CHR 0xE9]
            @ ''bit '' @ dec_of_int (total_debit ls) @ '' <> cr'' @ [CHR 0xE9] @ ''dit '' @ dec_of_int (total_credit ls)),
        total_debit ls = total_credit ls),
       (Ledger_Error INVALID_REVERSAL
          (''Contre-'' @ [CHR 0xE9] @ ''criture '' @ eid @ '' non conforme '' @ [CHR 0xE0] @ '' l'' @ [CHR 0x27, CHR 0xE9] @ ''criture ''
            @ (case reverses of None \<Rightarrow> [] | Some r \<Rightarrow> r)),
        (case reverses of None \<Rightarrow> True | Some r \<Rightarrow> is_mirror (lines_of r d) ls))])"

definition deferred_checks :: "db \<Rightarrow> app_error + unit" where
  "deferred_checks d = fold_result (\<lambda>eid _. assert_entry_valid d eid) (deferred d) ()"

section \<open>BEGIN ... COMMIT\<close>

definition sql_transaction ::
    "actor option \<Rightarrow> timestamp \<Rightarrow> (session \<Rightarrow> db \<Rightarrow> app_error + ('a \<times> db)) \<Rightarrow> db \<Rightarrow> (app_error + 'a) \<times> db" where
  "sql_transaction who now body d =
    (let s = \<lparr>s_tx_id = next_tx_id d, s_now = now, s_actor = who\<rparr> in
     case andThen (body s d) (\<lambda>(x, d'). andThen (deferred_checks d') (\<lambda>_. Inr (x, d'))) of
       Inl e \<Rightarrow> (Inl e, d)
     | Inr (x, d') \<Rightarrow> (Inr x, d'\<lparr>next_tx_id := Suc (next_tx_id d), deferred := []\<rparr>))"

text \<open>\<open>prisma.client.demoDatasetLoad.create\<close>, on its own (scripts/seed-demo.ts).\<close>

definition create_dataset_load :: "timestamp option \<Rightarrow> timestamp \<Rightarrow> db \<Rightarrow> (app_error + dataset_load) \<times> db" where
  "create_dataset_load started now d = sql_transaction None now (\<lambda>s. insert_load s started) d"

text \<open>\<open>withActor\<close> of src/database/prisma.ts: the actor is declared first, in the same transaction.\<close>

definition withActor ::
    "actor \<Rightarrow> timestamp \<Rightarrow> (session \<Rightarrow> db \<Rightarrow> app_error + ('a \<times> db)) \<Rightarrow> db \<Rightarrow> (app_error + 'a) \<times> db" where
  "withActor who now fn d = sql_transaction (Some who) now fn d"

end
