(* ===== verification/Integrity.thy ===== *)
theory Integrity
  imports Database
begin

text \<open>
  What the rules of the migrations guarantee whatever the application does (ADR 0003). The body of
  a SQL transaction is any sequence of the statements of theory Database (\<open>stmt\<close>, \<open>stmts\<close>);
  invariants are proved statement by statement, the balance of the ledger at COMMIT. The locale
  \<open>sql_body\<close> is the interface to the services: a body that is such a sequence inherits all of it.
\<close>

section \<open>Sequences of statements\<close>

inductive stmt :: "session \<Rightarrow> db \<Rightarrow> db \<Rightarrow> bool" for s where
  ins_transaction: "insert_transaction s t d = Inr (r, d') \<Longrightarrow> stmt s d d'"
| upd_transaction: "update_transaction s i f d = Inr (r, d') \<Longrightarrow> stmt s d d'"
| ins_account: "insert_account a d = Inr (ra, d') \<Longrightarrow> stmt s d d'"
| ins_entry: "insert_entry s eid descr tid rv d = Inr (re, d') \<Longrightarrow> stmt s d d'"
| ins_posting: "insert_posting s p d = Inr d' \<Longrightarrow> stmt s d d'"
| ins_merchant: "insert_merchant m d = Inr (rm, d') \<Longrightarrow> stmt s d d'"
| ins_exception: "insert_exception x d = Inr (rx, d') \<Longrightarrow> stmt s d d'"
| upd_exception: "update_exception i fx d = Inr (rx, d') \<Longrightarrow> stmt s d d'"
| ins_key: "insert_api_key k d = Inr (rk, d') \<Longrightarrow> stmt s d d'"
| upd_key: "update_api_key i fk d = Inr (rk, d') \<Longrightarrow> stmt s d d'"
| ins_load: "insert_load s st d = Inr (rl, d') \<Longrightarrow> stmt s d d'"

inductive stmts :: "session \<Rightarrow> db \<Rightarrow> db \<Rightarrow> bool" for s where
  stmts_refl: "stmts s d d"
| stmts_step: "stmts s d d1 \<Longrightarrow> stmt s d1 d2 \<Longrightarrow> stmts s d d2"

lemma stmts_single: "stmt s d d' \<Longrightarrow> stmts s d d'"
  by (blast intro: stmts.intros)

lemma stmts_trans: "stmts s d d1 \<Longrightarrow> stmts s d1 d2 \<Longrightarrow> stmts s d d2"
  by (rotate_tac, induction rule: stmts.induct) (blast intro: stmts.intros)+

lemma stmts_Cons: "stmt s d d1 \<Longrightarrow> stmts s d1 d2 \<Longrightarrow> stmts s d d2"
  by (rule stmts_trans [OF stmts_single])

text \<open>Inversions of the statements: what a successful one has checked and done.\<close>

lemma record_status_InrD:
  assumes "record_status s old new d = Inr d'"
  obtains h where "d' = d\<lparr>history := history d @ [h]\<rparr>" "h_transaction_id h = t_id new"
    "h_from_status h = old" "h_to_status h = t_status new" "s_actor s \<noteq> None"
  using assms by (auto simp: record_status_def result_simps split: option.splits)

lemma insert_transaction_InrD:
  assumes "insert_transaction s t d = Inr (r, d')"
  obtains h where
    "d' = d\<lparr>transactions := transactions d @ [r], history := history d @ [h]\<rparr>"
    "t_id r = t_id t" "t_status r = INITIATED" "t_refunded_amount r = 0" "t_version r = 1"
    "t_type r = t_type t" "t_amount r = t_amount t" "t_currency r = t_currency t" "t_provider r = t_provider t"
    "t_parent_transaction_id r = t_parent_transaction_id t" "t_merchant_id r = t_merchant_id t"
    "t_idempotency_key r = t_idempotency_key t" "t_request_fingerprint r = t_request_fingerprint t"
    "t_reference r = t_reference t" "t_expires_at r = t_expires_at t"
    "t_provider_reference r = t_provider_reference t" "t_customer_msisdn r = t_customer_msisdn t"
    "\<forall>c \<in> set (transaction_checks r). snd c"
    "\<forall>c \<in> set (transaction_unique_checks (transactions d) r). snd c"
    "t_merchant_id r \<in> m_id ` set (merchants d)"
    "t_parent_transaction_id r = None \<or> the (t_parent_transaction_id r) \<in> insert (t_id r) (t_id ` set (transactions d))"
    "h_transaction_id h = t_id r" "h_from_status h = None" "h_to_status h = INITIATED"
    "s_actor s \<noteq> None"
    "\<And>pid parent. t_type t = REFUND \<Longrightarrow> t_parent_transaction_id t = Some pid
      \<Longrightarrow> lookup_by t_id pid (transactions d) = Some parent
      \<Longrightarrow> t_type parent = PAYMENT \<and> t_status parent \<in> {SUCCEEDED, PARTIALLY_REFUNDED}
          \<and> t_currency parent = t_currency r \<and> t_provider parent = t_provider r
          \<and> t_amount r \<le> t_amount parent - t_refunded_amount parent"
proof -
  obtain r0 d0 where before: "transactions_before_insert s d t = Inr r0"
    and checks: "\<forall>c \<in> set (transaction_checks r0). snd c"
    and uniq: "\<forall>c \<in> set (transaction_unique_checks (transactions d) r0). snd c"
    and fk: "(case t_parent_transaction_id r0 of None \<Rightarrow> True
        | Some pid \<Rightarrow> pid \<in> t_id ` set (transactions (d\<lparr>transactions := transactions d @ [r0]\<rparr>)))"
      "t_merchant_id r0 \<in> m_id ` set (merchants d)"
    and rec: "record_status s None r0 (d\<lparr>transactions := transactions d @ [r0]\<rparr>) = Inr d0"
    and res: "r = r0" "d' = d0"
    using assms unfolding insert_transaction_def Let_def by (auto simp: result_simps simp del: image_iff)
  have r0: "r0 = t\<lparr>t_version := 1, t_refunded_amount := 0, t_created_at := s_now s, t_updated_at := s_now s\<rparr>"
    and init: "t_status t = INITIATED"
    using before by (auto simp: transactions_before_insert_def result_simps Let_def split: if_splits option.splits)
  obtain h where h: "d0 = d\<lparr>transactions := transactions d @ [r0], history := history d @ [h]\<rparr>"
    "h_transaction_id h = t_id r0" "h_from_status h = None" "h_to_status h = t_status r0" "s_actor s \<noteq> None"
    using rec by (rule record_status_InrD) (auto simp: r0)
  have parent: "t_type parent = PAYMENT \<and> t_status parent \<in> {SUCCEEDED, PARTIALLY_REFUNDED}
          \<and> t_currency parent = t_currency r \<and> t_provider parent = t_provider r
          \<and> t_amount r \<le> t_amount parent - t_refunded_amount parent"
    if "t_type t = REFUND" "t_parent_transaction_id t = Some pid"
      "lookup_by t_id pid (transactions d) = Some parent" for pid parent
    using before that res(1) r0
    by (auto simp: transactions_before_insert_def result_simps Let_def init split: if_splits)
  show thesis
    by (rule that [of h]) (use checks uniq fk res r0 init h parent in \<open>auto split: option.splits\<close>)
qed

lemma update_transaction_InrD:
  assumes "update_transaction s i f d = Inr (r, d')"
  obtains old hs where
    "lookup_by t_id i (transactions d) = Some old"
    "r = (f old)\<lparr>t_version := t_version old + 1, t_updated_at := s_now s\<rparr>"
    "frozen_columns_kept old r"
    "t_provider_reference old \<noteq> None \<Longrightarrow> t_provider_reference r = t_provider_reference old"
    "t_refunded_amount old \<le> t_refunded_amount r"
    "t_status r = t_status old \<or> allowed (t_status old) (t_status r)"
    "\<forall>c \<in> set (transaction_checks r). snd c"
    "d' = d\<lparr>transactions := replace_by t_id i r (transactions d), history := history d @ hs\<rparr>"
    "t_status r = t_status old \<Longrightarrow> hs = []"
    "t_status r \<noteq> t_status old \<Longrightarrow> s_actor s \<noteq> None \<and> (\<exists>h. hs = [h] \<and> h_transaction_id h = t_id r
        \<and> h_from_status h = Some (t_status old) \<and> h_to_status h = t_status r)"
proof -
  obtain old where old: "lookup_by t_id i (transactions d) = Some old"
    using assms by (auto simp: update_transaction_def split: option.splits)
  have before: "transactions_before_update s old (f old) = Inr r"
    and checks: "\<forall>c \<in> set (transaction_checks r). snd c"
    and rest: "(let d1 = d\<lparr>transactions := replace_by t_id i r (transactions d)\<rparr> in
      if t_status r \<noteq> t_status old
      then andThen (record_status s (Some (t_status old)) r d1) (\<lambda>d2. Inr (r, d2))
      else Inr (r, d1)) = Inr (r, d')"
    using assms old by (auto simp: update_transaction_def result_simps Let_def split: if_splits)
  have r: "r = (f old)\<lparr>t_version := t_version old + 1, t_updated_at := s_now s\<rparr>"
    and frozen: "frozen_columns_kept old (f old)"
    and pref: "t_provider_reference old \<noteq> None \<Longrightarrow> t_provider_reference (f old) = t_provider_reference old"
    and refunded: "t_refunded_amount old \<le> t_refunded_amount (f old)"
    and status: "t_status (f old) = t_status old \<or> allowed (t_status old) (t_status (f old))"
    using before by (auto simp: transactions_before_update_def result_simps)
  show thesis
  proof (cases "t_status r = t_status old")
    case True
    show thesis
      by (rule that [of old "[]"])
        (use old r frozen pref refunded status checks rest True in \<open>auto simp: frozen_columns_kept_def\<close>)
  next
    case False
    then obtain h where h: "d' = d\<lparr>transactions := replace_by t_id i r (transactions d), history := history d @ [h]\<rparr>"
      "h_transaction_id h = t_id r" "h_from_status h = Some (t_status old)" "h_to_status h = t_status r"
      "s_actor s \<noteq> None"
      using rest by (auto simp: Let_def result_simps elim: record_status_InrD)
    show thesis
      by (rule that [of old "[h]"])
        (use old r frozen pref refunded status checks h False in \<open>auto simp: frozen_columns_kept_def\<close>)
  qed
qed

lemma insert_account_InrD:
  assumes "insert_account a d = Inr (r, d')"
  shows "r = a \<and> d' = d\<lparr>accounts := accounts d @ [a]\<rparr> \<and> a_id a \<notin> a_id ` set (accounts d)
    \<and> a_code a \<notin> a_code ` set (accounts d) \<and> is_account_code (a_code a) \<and> is_currency (a_currency a)"
  using assms by (auto simp: insert_account_def result_simps)

lemma insert_entry_InrD:
  assumes "insert_entry s eid descr tid rv d = Inr (r, d')"
  shows "r = \<lparr>e_id = eid, e_description = descr, e_transaction_id = tid, e_reverses_entry_id = rv,
              e_created_tx_id = s_tx_id s, e_created_at = s_now s\<rparr>
    \<and> d' = d\<lparr>entries := entries d @ [r], deferred := deferred d @ [eid]\<rparr>
    \<and> eid \<notin> e_id ` set (entries d) \<and> rv \<noteq> Some eid
    \<and> (\<forall>x. tid = Some x \<longrightarrow> x \<in> t_id ` set (transactions d))
    \<and> (\<forall>x. rv = Some x \<longrightarrow> x \<in> e_id ` set (entries d))"
  using assms by (auto simp: insert_entry_def result_simps Let_def)

lemma insert_posting_InrD:
  assumes "insert_posting s p d = Inr d'"
  shows "d' = d\<lparr>postings := postings d @ [p], deferred := deferred d @ [p_entry_id p]\<rparr>
    \<and> 0 < p_amount p \<and> is_currency (p_currency p) \<and> p_account_id p \<in> a_id ` set (accounts d)
    \<and> (\<exists>e. lookup_by e_id (p_entry_id p) (entries d) = Some e \<and> e_created_tx_id e = s_tx_id s)
    \<and> (\<exists>a. lookup_by a_id (p_account_id p) (accounts d) = Some a \<and> a_is_active a \<and> a_currency a = p_currency p)"
proof -
  have "p_account_id p \<in> a_id ` set (accounts d)"
    using assms by (auto simp: insert_posting_def result_simps)
  then obtain a where "lookup_by a_id (p_account_id p) (accounts d) = Some a"
    using lookup_by_eq_None [of a_id "p_account_id p" "accounts d"] by auto
  then show ?thesis
    using assms by (auto simp: insert_posting_def postings_before_insert_def result_simps Let_def)
qed

lemma insert_merchant_InrD:
  assumes "insert_merchant m d = Inr (r, d')"
  shows "r = m \<and> d' = d\<lparr>merchants := merchants d @ [m]\<rparr> \<and> m_id m \<notin> m_id ` set (merchants d)
    \<and> m_code m \<notin> m_code ` set (merchants d)"
  using assms by (auto simp: insert_merchant_def result_simps)

lemma insert_exception_InrD:
  assumes "insert_exception x d = Inr (r, d')"
  shows "r = x \<and> d' = d\<lparr>exceptions := exceptions d @ [x]\<rparr> \<and> x_id x \<notin> x_id ` set (exceptions d)
    \<and> (\<forall>c \<in> set (exception_checks x). snd c)
    \<and> (\<forall>t. x_transaction_id x = Some t \<longrightarrow> t \<in> t_id ` set (transactions d))"
  using assms unfolding insert_exception_def by (auto simp: result_simps)

lemma update_exception_InrD:
  assumes "update_exception i f d = Inr (r, d')"
  shows "\<exists>old. lookup_by x_id i (exceptions d) = Some old \<and> r = f old
    \<and> d' = d\<lparr>exceptions := replace_by x_id i r (exceptions d)\<rparr>
    \<and> exceptions_before_update old r = Inr () \<and> (\<forall>c \<in> set (exception_checks r). snd c)"
  using assms by (auto simp: update_exception_def result_simps split: option.splits)

lemma insert_api_key_InrD:
  assumes "insert_api_key k d = Inr (r, d')"
  shows "r = k \<and> d' = d\<lparr>api_keys := api_keys d @ [k]\<rparr> \<and> k_id k \<notin> k_id ` set (api_keys d)
    \<and> k_hashed_key k \<notin> k_hashed_key ` set (api_keys d) \<and> (\<forall>c \<in> set (api_key_checks k). snd c)
    \<and> (\<forall>m. k_merchant_id k = Some m \<longrightarrow> m \<in> m_id ` set (merchants d))"
  using assms unfolding insert_api_key_def by (auto simp: result_simps)

lemma update_api_key_InrD:
  assumes "update_api_key i f d = Inr (r, d')"
  shows "\<exists>old. lookup_by k_id i (api_keys d) = Some old \<and> r = f old
    \<and> d' = d\<lparr>api_keys := replace_by k_id i r (api_keys d)\<rparr>
    \<and> api_keys_before_update old r = Inr () \<and> (\<forall>c \<in> set (api_key_checks r). snd c)"
  using assms by (auto simp: update_api_key_def result_simps split: option.splits)

lemma insert_load_InrD:
  "insert_load s st d = Inr (r, d') \<Longrightarrow> d' = d\<lparr>loads := loads d @ [r]\<rparr>"
  by (auto simp: insert_load_def Let_def)


text \<open>The eleven statements by their effect: the case split of every proof below.\<close>

lemma stmt_effect:
  assumes "stmt s d d'"
  obtains
    (new_transaction) r h where
      "d' = d\<lparr>transactions := transactions d @ [r], history := history d @ [h]\<rparr>"
      "t_status r = INITIATED" "t_refunded_amount r = 0" "t_version r = 1"
      "\<forall>c \<in> set (transaction_checks r). snd c"
      "\<forall>c \<in> set (transaction_unique_checks (transactions d) r). snd c"
      "t_merchant_id r \<in> m_id ` set (merchants d)"
      "t_parent_transaction_id r = None
        \<or> the (t_parent_transaction_id r) \<in> insert (t_id r) (t_id ` set (transactions d))"
      "h_transaction_id h = t_id r" "h_from_status h = None" "h_to_status h = INITIATED"
  | (changed_transaction) old r hs where
      "lookup_by t_id (t_id old) (transactions d) = Some old"
      "frozen_columns_kept old r" "t_version r = t_version old + 1"
      "t_provider_reference old \<noteq> None \<Longrightarrow> t_provider_reference r = t_provider_reference old"
      "t_refunded_amount old \<le> t_refunded_amount r"
      "t_status r = t_status old \<or> allowed (t_status old) (t_status r)"
      "\<forall>c \<in> set (transaction_checks r). snd c"
      "d' = d\<lparr>transactions := replace_by t_id (t_id old) r (transactions d), history := history d @ hs\<rparr>"
      "t_status r = t_status old \<and> hs = []
        \<or> allowed (t_status old) (t_status r) \<and> (\<exists>h. hs = [h] \<and> h_transaction_id h = t_id old
          \<and> h_from_status h = Some (t_status old) \<and> h_to_status h = t_status r)"
  | (new_account) a where
      "d' = d\<lparr>accounts := accounts d @ [a]\<rparr>" "a_id a \<notin> a_id ` set (accounts d)"
      "a_code a \<notin> a_code ` set (accounts d)" "is_account_code (a_code a)" "is_currency (a_currency a)"
  | (new_entry) e where
      "d' = d\<lparr>entries := entries d @ [e], deferred := deferred d @ [e_id e]\<rparr>"
      "e_created_tx_id e = s_tx_id s" "e_id e \<notin> e_id ` set (entries d)"
      "e_reverses_entry_id e \<noteq> Some (e_id e)"
      "\<forall>x. e_transaction_id e = Some x \<longrightarrow> x \<in> t_id ` set (transactions d)"
      "\<forall>x. e_reverses_entry_id e = Some x \<longrightarrow> x \<in> e_id ` set (entries d)"
  | (new_posting) p e where
      "d' = d\<lparr>postings := postings d @ [p], deferred := deferred d @ [p_entry_id p]\<rparr>"
      "0 < p_amount p" "is_currency (p_currency p)" "p_account_id p \<in> a_id ` set (accounts d)"
      "lookup_by e_id (p_entry_id p) (entries d) = Some e" "e_created_tx_id e = s_tx_id s"
      "\<exists>a. lookup_by a_id (p_account_id p) (accounts d) = Some a \<and> a_currency a = p_currency p"
  | (new_merchant) m where
      "d' = d\<lparr>merchants := merchants d @ [m]\<rparr>" "m_id m \<notin> m_id ` set (merchants d)"
      "m_code m \<notin> m_code ` set (merchants d)"
  | (new_exception) x where
      "d' = d\<lparr>exceptions := exceptions d @ [x]\<rparr>" "x_id x \<notin> x_id ` set (exceptions d)"
      "\<forall>c \<in> set (exception_checks x). snd c"
      "\<forall>t. x_transaction_id x = Some t \<longrightarrow> t \<in> t_id ` set (transactions d)"
  | (changed_exception) old x where
      "lookup_by x_id (x_id old) (exceptions d) = Some old"
      "d' = d\<lparr>exceptions := replace_by x_id (x_id old) x (exceptions d)\<rparr>"
      "exceptions_before_update old x = Inr ()" "\<forall>c \<in> set (exception_checks x). snd c"
  | (new_key) k where
      "d' = d\<lparr>api_keys := api_keys d @ [k]\<rparr>" "k_id k \<notin> k_id ` set (api_keys d)"
      "k_hashed_key k \<notin> k_hashed_key ` set (api_keys d)" "\<forall>c \<in> set (api_key_checks k). snd c"
      "\<forall>m. k_merchant_id k = Some m \<longrightarrow> m \<in> m_id ` set (merchants d)"
  | (changed_key) old k where
      "lookup_by k_id (k_id old) (api_keys d) = Some old"
      "d' = d\<lparr>api_keys := replace_by k_id (k_id old) k (api_keys d)\<rparr>"
      "api_keys_before_update old k = Inr ()" "\<forall>c \<in> set (api_key_checks k). snd c"
  | (new_load) l where "d' = d\<lparr>loads := loads d @ [l]\<rparr>"
  using assms
proof cases
  case (ins_transaction t r)
  then show thesis by (elim insert_transaction_InrD) (rule new_transaction)
next
  case (upd_transaction i f r)
  then show thesis
  proof (elim update_transaction_InrD, goal_cases)
    case (1 old hs)
    have "t_id old = i" "t_id r = t_id old" using 1(1,3) lookup_by_key by (auto simp: frozen_columns_kept_def)
    then show thesis using 1 by (intro changed_transaction [of old r hs]) auto
  qed
next
  case (ins_account a ra)
  then show thesis using insert_account_InrD new_account by blast
next
  case (ins_entry eid descr tid rv re)
  then show thesis by (intro new_entry [of re]) (auto dest!: insert_entry_InrD)
next
  case (ins_posting p)
  then show thesis using insert_posting_InrD [OF ins_posting] new_posting by blast
next
  case (ins_merchant m rm)
  then show thesis using insert_merchant_InrD new_merchant by blast
next
  case (ins_exception x rx)
  then show thesis using insert_exception_InrD new_exception by blast
next
  case (upd_exception i fx rx)
  from update_exception_InrD [OF upd_exception] obtain old where
    old: "lookup_by x_id i (exceptions d) = Some old"
      "d' = d\<lparr>exceptions := replace_by x_id i rx (exceptions d)\<rparr>"
      "exceptions_before_update old rx = Inr ()" "\<forall>c \<in> set (exception_checks rx). snd c" by blast
  then show thesis using lookup_by_key [OF old(1)] changed_exception by blast
next
  case (ins_key k rk)
  then show thesis using insert_api_key_InrD new_key by blast
next
  case (upd_key i fk rk)
  from update_api_key_InrD [OF upd_key] obtain old where
    old: "lookup_by k_id i (api_keys d) = Some old"
      "d' = d\<lparr>api_keys := replace_by k_id i rk (api_keys d)\<rparr>"
      "api_keys_before_update old rk = Inr ()" "\<forall>c \<in> set (api_key_checks rk). snd c" by blast
  then show thesis using lookup_by_key [OF old(1)] changed_key by blast
next
  case (ins_load st rl)
  then show thesis using insert_load_InrD new_load by blast
qed

section \<open>Interfaces: what a SQL transaction keeps\<close>

text \<open>
  A relation between the states before and after that every statement respects is respected by
  every SQL transaction, whatever its body; an invariant is the case of a predicate.
\<close>

locale sql_evolution =
  fixes R :: "db \<Rightarrow> db \<Rightarrow> bool"
  assumes evolution_refl: "R d d"
    and evolution_trans: "R d d1 \<Longrightarrow> R d1 d2 \<Longrightarrow> R d d2"
    and evolution_stmt: "stmt s d d' \<Longrightarrow> R d d'"
    and evolution_commit: "R d (d\<lparr>next_tx_id := n, deferred := q\<rparr>)"
begin

lemma stmts_evolve: "stmts s d d' \<Longrightarrow> R d d'"
  by (induction rule: stmts.induct) (blast intro: evolution_refl evolution_trans evolution_stmt)+

lemma transaction_evolves:
  assumes "\<And>s d x d'. body s d = Inr (x, d') \<Longrightarrow> stmts s d d'"
  shows "R d (snd (sql_transaction who now body d))"
proof (cases "sql_transaction who now body d")
  case (Pair r d2)
  show ?thesis
    using Pair assms stmts_evolve evolution_commit evolution_trans evolution_refl
    unfolding sql_transaction_def Let_def
    by (auto simp: result_simps split: sum.splits prod.splits) (metis)+
qed

end

locale sql_invariant =
  fixes P :: "db \<Rightarrow> bool"
  assumes invariant_stmt: "stmt s d d' \<Longrightarrow> P d \<Longrightarrow> P d'"
    and invariant_commit: "P d \<Longrightarrow> P (d\<lparr>next_tx_id := n, deferred := q\<rparr>)"

sublocale sql_invariant \<subseteq> evolution: sql_evolution "\<lambda>d d'. P d \<longrightarrow> P d'"
  by unfold_locales (blast intro: invariant_stmt invariant_commit)+

end
