(* ===== verification/Invariants.thy ===== *)
theory Invariants
  imports Integrity
begin

text \<open>
  The invariants of the tables (keys, CHECK constraints, references, the path of a transaction
  through its statuses) and the evolution of the rows (append-only tables, frozen columns,
  terminal statuses). Each is an instance of the interfaces of theory Integrity, so each holds
  across every SQL transaction whose body is a sequence of statements.
\<close>

section \<open>Atomicity\<close>

lemma sql_transaction_Inl: "sql_transaction who now body d = (Inl e, d') \<Longrightarrow> d' = d"
  by (auto simp: sql_transaction_def Let_def split: sum.splits prod.splits)

lemma sql_transaction_Inr:
  assumes "sql_transaction who now body d = (Inr x, d')"
  obtains d1 where "body \<lparr>s_tx_id = next_tx_id d, s_now = now, s_actor = who\<rparr> d = Inr (x, d1)"
    "deferred_checks d1 = Inr ()" "d' = d1\<lparr>next_tx_id := Suc (next_tx_id d), deferred := []\<rparr>"
  using assms by (auto simp: sql_transaction_def Let_def result_simps split: sum.splits prod.splits)

section \<open>Unique keys\<close>

definition keys_ok :: "db \<Rightarrow> bool" where
  "keys_ok d \<longleftrightarrow>
     distinct (map t_id (transactions d)) \<and> distinct (map t_reference (transactions d))
   \<and> distinct (map t_idempotency_key (transactions d))
   \<and> distinct (map e_id (entries d))
   \<and> distinct (map a_id (accounts d)) \<and> distinct (map a_code (accounts d))
   \<and> distinct (map m_id (merchants d)) \<and> distinct (map m_code (merchants d))
   \<and> distinct (map k_id (api_keys d)) \<and> distinct (map k_hashed_key (api_keys d))
   \<and> distinct (map x_id (exceptions d))"

lemma keys_okD:
  assumes "keys_ok d"
  shows "distinct (map t_id (transactions d))" "distinct (map t_reference (transactions d))"
    "distinct (map t_idempotency_key (transactions d))" "distinct (map e_id (entries d))"
    "distinct (map a_id (accounts d))" "distinct (map a_code (accounts d))"
    "distinct (map m_id (merchants d))" "distinct (map m_code (merchants d))"
    "distinct (map k_id (api_keys d))" "distinct (map k_hashed_key (api_keys d))"
    "distinct (map x_id (exceptions d))"
  using assms by (simp_all add: keys_ok_def)

lemma unique_row:
  "distinct (map key rows) \<Longrightarrow> lookup_by key k rows = Some old \<Longrightarrow> r \<in> set rows \<Longrightarrow> key r = k \<Longrightarrow> r = old"
  by (simp add: lookup_by_distinct_iff inj_on_def distinct_map)

lemma keys_after_replace:
  assumes "distinct (map key rows)" "lookup_by key k rows = Some old" "f new = f old"
  shows "map f (replace_by key k new rows) = map f rows"
  using assms by (intro map_replace_by_same) (auto dest: unique_row)

lemma keys_ok_stmt:
  assumes "stmt s d d'" "keys_ok d"
  shows "keys_ok d'"
  using assms(1)
proof (cases rule: stmt_effect)
  case (changed_transaction old r hs)
  note same = keys_after_replace [OF keys_okD(1) [OF assms(2)] changed_transaction(1)]
  have "map t_id (transactions d') = map t_id (transactions d)"
    "map t_reference (transactions d') = map t_reference (transactions d)"
    "map t_idempotency_key (transactions d') = map t_idempotency_key (transactions d)"
    using changed_transaction(2,8) same [of t_id r] same [of t_reference r] same [of t_idempotency_key r]
    by (simp_all add: frozen_columns_kept_def)
  then show ?thesis using assms(2) changed_transaction(8) by (simp add: keys_ok_def)
next
  case (changed_exception old x)
  have "x_id x = x_id old"
    using changed_exception(3) by (simp add: exceptions_before_update_def result_simps)
  then have "map x_id (exceptions d') = map x_id (exceptions d)"
    using keys_after_replace [OF keys_okD(11) [OF assms(2)] changed_exception(1), of x_id x]
    by (simp add: changed_exception(2))
  then show ?thesis using assms(2) changed_exception(2) by (simp add: keys_ok_def)
next
  case (changed_key old k)
  have "k_id k = k_id old" "k_hashed_key k = k_hashed_key old"
    using changed_key(3) by (simp_all add: api_keys_before_update_def result_simps)
  then have "map k_id (api_keys d') = map k_id (api_keys d)"
    "map k_hashed_key (api_keys d') = map k_hashed_key (api_keys d)"
    using keys_after_replace [OF keys_okD(9) [OF assms(2)] changed_key(1), of k_id k]
      keys_after_replace [OF keys_okD(9) [OF assms(2)] changed_key(1), of k_hashed_key k]
    by (simp_all add: changed_key(2))
  then show ?thesis using assms(2) changed_key(2) by (simp add: keys_ok_def)
qed (use assms(2) in \<open>auto simp: keys_ok_def transaction_unique_checks_def\<close>)

interpretation keys: sql_invariant keys_ok
  by unfold_locales (rule keys_ok_stmt, assumption+, simp add: keys_ok_def)

section \<open>CHECK constraints\<close>

definition rows_ok :: "db \<Rightarrow> bool" where
  "rows_ok d \<longleftrightarrow>
     (\<forall>t \<in> set (transactions d). \<forall>c \<in> set (transaction_checks t). snd c)
   \<and> (\<forall>x \<in> set (exceptions d). \<forall>c \<in> set (exception_checks x). snd c)
   \<and> (\<forall>k \<in> set (api_keys d). \<forall>c \<in> set (api_key_checks k). snd c)
   \<and> (\<forall>a \<in> set (accounts d). is_account_code (a_code a) \<and> is_currency (a_currency a))
   \<and> (\<forall>p \<in> set (postings d). 0 < p_amount p \<and> is_currency (p_currency p))"

lemma rows_ok_stmt:
  assumes "stmt s d d'" "rows_ok d"
  shows "rows_ok d'"
  using assms(1)
  by (cases rule: stmt_effect)
     (use assms(2) in \<open>auto simp: rows_ok_def dest!: in_set_replace_by\<close>)

interpretation rows: sql_invariant rows_ok
  by unfold_locales (rule rows_ok_stmt, assumption+, simp add: rows_ok_def)

section \<open>References\<close>

definition refs_ok :: "db \<Rightarrow> bool" where
  "refs_ok d \<longleftrightarrow>
     (\<forall>t \<in> set (transactions d). t_merchant_id t \<in> m_id ` set (merchants d)
        \<and> (\<forall>p. t_parent_transaction_id t = Some p \<longrightarrow> p \<in> t_id ` set (transactions d)))
   \<and> (\<forall>e \<in> set (entries d).
        (\<forall>x. e_transaction_id e = Some x \<longrightarrow> x \<in> t_id ` set (transactions d))
        \<and> (\<forall>x. e_reverses_entry_id e = Some x \<longrightarrow> x \<in> e_id ` set (entries d)))
   \<and> (\<forall>p \<in> set (postings d). p_entry_id p \<in> e_id ` set (entries d)
        \<and> (\<exists>a \<in> set (accounts d). p_account_id p = a_id a \<and> a_currency a = p_currency p))
   \<and> (\<forall>h \<in> set (history d). h_transaction_id h \<in> t_id ` set (transactions d))
   \<and> (\<forall>x \<in> set (exceptions d). \<forall>t. x_transaction_id x = Some t \<longrightarrow> t \<in> t_id ` set (transactions d))
   \<and> (\<forall>k \<in> set (api_keys d). \<forall>m. k_merchant_id k = Some m \<longrightarrow> m \<in> m_id ` set (merchants d))"


lemma replaced_keys:
  assumes "lookup_by key k rows = Some old" "key new = k"
  shows "key ` set (replace_by key k new rows) = key ` set rows"
proof -
  have "map key (replace_by key k new rows) = map key rows"
    using assms(2) by (intro map_replace_by_same) simp
  then show ?thesis by (metis list.set_map)
qed

lemma refs_ok_stmt:
  assumes "stmt s d d'" "refs_ok d"
  shows "refs_ok d'"
  using assms(1)
proof (cases rule: stmt_effect)
  case (new_transaction r h)
  show ?thesis
    unfolding refs_ok_def
    using assms(2) new_transaction(1,7-9) by (auto simp: refs_ok_def)
next
  case (changed_transaction old r hs)
  have frozen: "t_id r = t_id old" "t_merchant_id r = t_merchant_id old"
    "t_parent_transaction_id r = t_parent_transaction_id old"
    using changed_transaction(2) by (simp_all add: frozen_columns_kept_def)
  have ids: "t_id ` set (transactions d') = t_id ` set (transactions d)"
    using replaced_keys [OF changed_transaction(1) frozen(1)] changed_transaction(8) by simp
  have old: "old \<in> set (transactions d)" using lookup_by_in [OF changed_transaction(1)] .
  have rows: "\<forall>t \<in> set (transactions d'). t_merchant_id t \<in> m_id ` set (merchants d)
      \<and> (\<forall>p. t_parent_transaction_id t = Some p \<longrightarrow> p \<in> t_id ` set (transactions d))"
  proof
    fix t assume "t \<in> set (transactions d')"
    then have "t = r \<or> t \<in> set (transactions d)"
      using in_set_replace_by [of t t_id "t_id old" r "transactions d"] changed_transaction(8) by auto
    then show "t_merchant_id t \<in> m_id ` set (merchants d)
      \<and> (\<forall>p. t_parent_transaction_id t = Some p \<longrightarrow> p \<in> t_id ` set (transactions d))"
      using assms(2) old frozen unfolding refs_ok_def by metis
  qed
  have hist: "\<forall>h \<in> set (history d'). h_transaction_id h \<in> t_id ` set (transactions d)"
    using assms(2) changed_transaction(8,9) old by (auto simp: refs_ok_def)
  show ?thesis
    using assms(2) changed_transaction(8) rows hist unfolding refs_ok_def ids by simp
next
  case (new_entry e)
  then show ?thesis using assms(2) by (auto simp: refs_ok_def)
next
  case (new_posting p e)
  obtain a where a: "a \<in> set (accounts d)" "p_account_id p = a_id a" "a_currency a = p_currency p"
    using new_posting(7) lookup_by_in lookup_by_key by metis
  have "p_entry_id p \<in> e_id ` set (entries d)"
    using new_posting(5) lookup_by_eq_None [of e_id "p_entry_id p" "entries d"] by auto
  then show ?thesis
    using assms(2) a unfolding refs_ok_def new_posting(1) by auto
next
  case (new_exception x)
  then show ?thesis using assms(2) by (auto simp: refs_ok_def)
next
  case (changed_exception old x)
  have "x_transaction_id x = x_transaction_id old"
    using changed_exception(3) by (simp add: exceptions_before_update_def result_simps)
  moreover have "old \<in> set (exceptions d)" using lookup_by_in [OF changed_exception(1)] .
  ultimately show ?thesis
    using assms(2) changed_exception(2) by (auto simp: refs_ok_def dest!: in_set_replace_by)
next
  case (changed_key old k)
  have "k_merchant_id k = k_merchant_id old"
    using changed_key(3) by (simp add: api_keys_before_update_def result_simps)
  moreover have "old \<in> set (api_keys d)" using lookup_by_in [OF changed_key(1)] .
  ultimately show ?thesis
    using assms(2) changed_key(2) by (auto simp: refs_ok_def dest!: in_set_replace_by)
qed (use assms(2) in \<open>auto simp: refs_ok_def\<close>)

interpretation refs: sql_invariant refs_ok
  by unfold_locales (rule refs_ok_stmt, assumption+, simp add: refs_ok_def)


section \<open>The path of a transaction\<close>

text \<open>
  The history rows of a transaction are a walk of the state machine: each starts where the one
  before ended, from the creation at INITIATED to the current status.
\<close>

definition history_of :: "uuid \<Rightarrow> db \<Rightarrow> status_history list" where
  "history_of tid d = filter (\<lambda>h. h_transaction_id h = tid) (history d)"

fun walks :: "transaction_status option \<Rightarrow> status_history list \<Rightarrow> transaction_status option \<Rightarrow> bool" where
  "walks from [] to \<longleftrightarrow> from = to"
| "walks from (h # hs) to \<longleftrightarrow>
     h_from_status h = from
   \<and> (case from of None \<Rightarrow> h_to_status h = INITIATED | Some a \<Rightarrow> allowed a (h_to_status h))
   \<and> walks (Some (h_to_status h)) hs to"

lemma walks_append: "walks a (hs @ ks) c \<longleftrightarrow> (\<exists>b. walks a hs b \<and> walks b ks c)"
  by (induction a hs c arbitrary: a rule: walks.induct) auto

lemma walks_reach: "walks (Some a) hs (Some b) \<Longrightarrow> rtranclp allowed a b"
  by (induction hs arbitrary: a) (auto intro: converse_rtranclp_into_rtranclp)

definition history_ok :: "db \<Rightarrow> bool" where
  "history_ok d \<longleftrightarrow>
     (\<forall>t \<in> set (transactions d). walks None (history_of (t_id t) d) (Some (t_status t)))"

lemma history_of_fresh: "refs_ok d \<Longrightarrow> tid \<notin> t_id ` set (transactions d) \<Longrightarrow> history_of tid d = []"
  by (auto simp: history_of_def filter_empty_conv refs_ok_def)

lemma history_ok_stmt:
  assumes "stmt s d d'" "keys_ok d" "refs_ok d" "history_ok d"
  shows "history_ok d'"
  using assms(1)
proof (cases rule: stmt_effect)
  case (new_transaction r h)
  have fresh: "t_id r \<notin> t_id ` set (transactions d)"
    using new_transaction(6) by (simp add: transaction_unique_checks_def)
  have "walks None (history_of (t_id t) d') (Some (t_status t))" if t: "t \<in> set (transactions d')" for t
  proof (cases "t = r")
    case True
    then show ?thesis
      using history_of_fresh [OF assms(3) fresh] new_transaction(1,2,9-11) by (simp add: history_of_def)
  next
    case False
    then have "t \<in> set (transactions d)" using t new_transaction(1) by simp
    moreover from this have "t_id t \<noteq> t_id r" using fresh by (metis image_eqI)
    ultimately show ?thesis
      using assms(4) new_transaction(1,9) by (simp add: history_ok_def history_of_def)
  qed
  then show ?thesis by (simp add: history_ok_def)
next
  case (changed_transaction old r hs)
  have id_r: "t_id r = t_id old" using changed_transaction(2) by (simp add: frozen_columns_kept_def)
  have old: "old \<in> set (transactions d)" using lookup_by_in [OF changed_transaction(1)] .
  have walk_old: "walks None (history_of (t_id old) d) (Some (t_status old))"
    using assms(4) old by (simp add: history_ok_def)
  have walk_new: "walks (Some (t_status old)) (history_of (t_id old) (d\<lparr>history := hs\<rparr>)) (Some (t_status r))"
    using changed_transaction(9) by (auto simp: history_of_def)
  have split_history: "history_of tid d' = history_of tid d @ history_of tid (d\<lparr>history := hs\<rparr>)" for tid
    using changed_transaction(8) by (simp add: history_of_def)
  have others: "history_of tid (d\<lparr>history := hs\<rparr>) = []" if "tid \<noteq> t_id old" for tid
    using that changed_transaction(9) by (auto simp: history_of_def)
  have "walks None (history_of (t_id t) d') (Some (t_status t))" if t: "t \<in> set (transactions d')" for t
  proof (cases "t = r")
    case True
    then show ?thesis using walk_old walk_new id_r split_history by (auto simp: walks_append)
  next
    case False
    then have t_old: "t \<in> set (transactions d)" "t_id t \<noteq> t_id old"
      using t changed_transaction(8) by (auto dest: in_set_replace_by)
    then have "history_of (t_id t) d' = history_of (t_id t) d" using split_history others by simp
    then show ?thesis using t_old assms(4) by (simp add: history_ok_def)
  qed
  then show ?thesis by (simp add: history_ok_def)
qed (use assms(4) in \<open>auto simp: history_ok_def history_of_def\<close>)

definition tables_ok :: "db \<Rightarrow> bool" where
  "tables_ok d \<longleftrightarrow> keys_ok d \<and> rows_ok d \<and> refs_ok d \<and> history_ok d"

interpretation tables: sql_invariant tables_ok
proof unfold_locales
  fix s d d' assume "stmt s d d'" "tables_ok d"
  then show "tables_ok d'"
    using keys_ok_stmt rows_ok_stmt refs_ok_stmt history_ok_stmt unfolding tables_ok_def by blast
next
  fix d n q assume "tables_ok d"
  then show "tables_ok (d\<lparr>next_tx_id := n, deferred := q\<rparr>)"
    by (simp add: tables_ok_def keys_ok_def rows_ok_def refs_ok_def history_ok_def history_of_def)
qed

section \<open>How rows evolve\<close>

text \<open>
  \<open>row_evolves\<close> relates a transaction to a later state of it. Two states with the same version are
  the same row, which is what makes \<open>If-Match\<close> on the version an optimistic lock.
\<close>

definition row_evolves :: "transaction \<Rightarrow> transaction \<Rightarrow> bool" where
  "row_evolves t t' \<longleftrightarrow>
     frozen_columns_kept t t'
   \<and> (t_provider_reference t \<noteq> None \<longrightarrow> t_provider_reference t' = t_provider_reference t)
   \<and> t_refunded_amount t \<le> t_refunded_amount t'
   \<and> t_version t \<le> t_version t' \<and> (t_version t' = t_version t \<longrightarrow> t' = t)
   \<and> rtranclp allowed (t_status t) (t_status t')"

lemma row_evolves_refl [simp]: "row_evolves t t"
  by (simp add: row_evolves_def frozen_columns_kept_def)

lemma row_evolves_trans: "row_evolves a b \<Longrightarrow> row_evolves b c \<Longrightarrow> row_evolves a c"
  by (fastforce simp: row_evolves_def frozen_columns_kept_def intro: rtranclp_trans)

text \<open>A key is revoked once, an exception resolved once; the rest of the row is frozen.\<close>

definition key_evolves :: "api_key \<Rightarrow> api_key \<Rightarrow> bool" where
  "key_evolves k k' \<longleftrightarrow>
     k_id k' = k_id k \<and> k_role k' = k_role k \<and> k_hashed_key k' = k_hashed_key k
   \<and> k_merchant_id k' = k_merchant_id k
   \<and> (k_revoked_at k \<noteq> None \<longrightarrow> k_revoked_at k' = k_revoked_at k \<and> k_is_active k' = k_is_active k)"

definition exception_evolves :: "reconciliation_exception \<Rightarrow> reconciliation_exception \<Rightarrow> bool" where
  "exception_evolves x x' \<longleftrightarrow>
     x_id x' = x_id x \<and> x_kind x' = x_kind x \<and> x_transaction_id x' = x_transaction_id x
   \<and> x_reported_status x' = x_reported_status x \<and> x_provider_reference x' = x_provider_reference x
   \<and> x_detail x' = x_detail x \<and> x_detected_at x' = x_detected_at x
   \<and> (x_resolved_at x \<noteq> None \<longrightarrow> x' = x)"

definition extends :: "'r list \<Rightarrow> 'r list \<Rightarrow> bool" where
  "extends rows rows' \<longleftrightarrow> take (length rows) rows' = rows"

lemma extends_refl [simp]: "extends rows rows"
  by (simp add: extends_def)

lemma extends_append [simp]: "extends rows (rows @ added)"
  by (simp add: extends_def)

lemma extends_iff: "extends rows rows' \<longleftrightarrow> (\<exists>added. rows' = rows @ added)"
  by (metis append_take_drop_id extends_append extends_def)

lemma extends_trans: "extends a b \<Longrightarrow> extends b c \<Longrightarrow> extends a c"
  by (auto simp: extends_iff)

definition evolves :: "db \<Rightarrow> db \<Rightarrow> bool" where
  "evolves d d' \<longleftrightarrow>
     extends (history d) (history d') \<and> extends (entries d) (entries d') \<and> extends (postings d) (postings d')
   \<and> extends (accounts d) (accounts d') \<and> extends (merchants d) (merchants d') \<and> extends (loads d) (loads d')
   \<and> (\<forall>t \<in> set (transactions d). \<exists>t' \<in> set (transactions d'). row_evolves t t')
   \<and> (\<forall>k \<in> set (api_keys d). \<exists>k' \<in> set (api_keys d'). key_evolves k k')
   \<and> (\<forall>x \<in> set (exceptions d). \<exists>x' \<in> set (exceptions d'). exception_evolves x x')"

lemma evolves_refl: "evolves d d"
  by (auto simp: evolves_def key_evolves_def exception_evolves_def intro: row_evolves_refl)

lemma evolves_trans:
  assumes "evolves a b" "evolves b c"
  shows "evolves a c"
proof -
  have "\<exists>t'' \<in> set (transactions c). row_evolves t t''" if "t \<in> set (transactions a)" for t
    using assms that row_evolves_trans unfolding evolves_def by meson
  moreover have "key_evolves j k \<Longrightarrow> key_evolves k l \<Longrightarrow> key_evolves j l" for j k l
    by (auto simp: key_evolves_def)
  then have "\<exists>k'' \<in> set (api_keys c). key_evolves k k''" if "k \<in> set (api_keys a)" for k
    using assms that unfolding evolves_def by meson
  moreover have "exception_evolves x y \<Longrightarrow> exception_evolves y z \<Longrightarrow> exception_evolves x z" for x y z
    by (auto simp: exception_evolves_def)
  then have "\<exists>x'' \<in> set (exceptions c). exception_evolves x x''" if "x \<in> set (exceptions a)" for x
    using assms that unfolding evolves_def by meson
  ultimately show ?thesis
    using assms unfolding evolves_def by (blast intro: extends_trans)
qed

lemma replaced_evolves:
  assumes "distinct (map key rows)" "lookup_by key k rows = Some old" "Q old new" "\<And>r. Q r r" "r \<in> set rows"
  shows "\<exists>r' \<in> set (replace_by key k new rows). Q r r'"
proof (cases "key r = k")
  case True
  then have "r = old" using unique_row [OF assms(1,2,5)] by simp
  moreover have "new \<in> set (replace_by key k new rows)"
    using True assms(5) by (auto simp: replace_by_def intro: image_eqI [of _ _ r])
  ultimately show ?thesis using assms(3) by blast
next
  case False
  then have "r \<in> set (replace_by key k new rows)"
    using assms(5) by (auto simp: replace_by_def intro: image_eqI [of _ _ r])
  then show ?thesis using assms(4) by blast
qed

lemma evolves_stmt:
  assumes "stmt s d d'" "keys_ok d"
  shows "evolves d d'"
  using assms(1)
proof (cases rule: stmt_effect)
  case (changed_transaction old r hs)
  have "row_evolves old r"
    using changed_transaction(2-6) by (auto simp: row_evolves_def)
  then have "\<exists>t' \<in> set (transactions d'). row_evolves t t'" if "t \<in> set (transactions d)" for t
    using replaced_evolves [OF keys_okD(1) [OF assms(2)] changed_transaction(1) _ _ that] changed_transaction(8) by simp
  then show ?thesis
    using evolves_refl [of d] changed_transaction(8) by (simp add: evolves_def)
next
  case (changed_exception old x)
  have "exception_evolves old x"
    using changed_exception(3,4) by (auto simp: exception_evolves_def exceptions_before_update_def result_simps)
  then have "\<exists>x' \<in> set (exceptions d'). exception_evolves y x'" if "y \<in> set (exceptions d)" for y
    using replaced_evolves [OF keys_okD(11) [OF assms(2)] changed_exception(1) _ _ that, of exception_evolves]
      changed_exception(2) by (simp add: exception_evolves_def)
  then show ?thesis
    using evolves_refl [of d] changed_exception(2) by (simp add: evolves_def)
next
  case (changed_key old k)
  have "key_evolves old k"
    using changed_key(3) by (auto simp: key_evolves_def api_keys_before_update_def result_simps)
  then have "\<exists>k' \<in> set (api_keys d'). key_evolves j k'" if "j \<in> set (api_keys d)" for j
    using replaced_evolves [OF keys_okD(9) [OF assms(2)] changed_key(1) _ _ that, of key_evolves]
      changed_key(2) by (simp add: key_evolves_def)
  then show ?thesis
    using evolves_refl [of d] changed_key(2) by (simp add: evolves_def)
qed (use evolves_refl [of d] in \<open>auto simp: evolves_def\<close>)

definition rows_evolve :: "db \<Rightarrow> db \<Rightarrow> bool" where
  "rows_evolve d d' \<longleftrightarrow> (keys_ok d \<longrightarrow> keys_ok d' \<and> evolves d d')"

interpretation evolution: sql_evolution rows_evolve
proof unfold_locales
  fix d show "rows_evolve d d" by (simp add: rows_evolve_def evolves_refl)
next
  fix a b c assume "rows_evolve a b" "rows_evolve b c"
  then show "rows_evolve a c" by (auto simp: rows_evolve_def intro: evolves_trans)
next
  fix s d d' assume "stmt s d d'"
  then show "rows_evolve d d'" by (auto simp: rows_evolve_def intro: keys_ok_stmt evolves_stmt)
next
  fix d n q show "rows_evolve d (d\<lparr>next_tx_id := n, deferred := q\<rparr>)"
    using evolves_refl [of d] by (simp add: rows_evolve_def evolves_def keys_ok_def)
qed

text \<open>The statuses no transition leaves.\<close>

definition is_terminal :: "transaction_status \<Rightarrow> bool" where
  "is_terminal st \<longleftrightarrow> st \<in> {FAILED, EXPIRED, REFUNDED, REVERSED}"

lemma terminal_no_transition: "is_terminal a \<Longrightarrow> \<not> allowed a b"
  by (auto simp: is_terminal_def allowed_def status_transitions_def)

lemma terminal_stays: "rtranclp allowed a b \<Longrightarrow> is_terminal a \<Longrightarrow> b = a"
  by (induction rule: converse_rtranclp_induct) (auto simp: terminal_no_transition)

end
