(* ===== verification/Merchants.thy ===== *)
theory Merchants
  imports Database
begin

text \<open>
  src/merchants: the naming convention of a merchant's payable account
  (merchant-account.util.ts) and MerchantsService (merchants.service.ts), which creates the
  merchant and that account in one SQL transaction.
\<close>

section \<open>merchant-account.util.ts\<close>

definition merchantPayableAccountCode :: "string \<Rightarrow> string" where
  "merchantPayableAccountCode merchantCode = ''merchant:'' @ merchantCode @ '':payable''"

lemma merchantPayableAccountCode_inject [simp]:
  "merchantPayableAccountCode a = merchantPayableAccountCode b \<longleftrightarrow> a = b"
  by (simp add: merchantPayableAccountCode_def)

section \<open>merchants.service.ts\<close>

text \<open>The DTO and the checks of its decorators (\<open>/^[a-z0-9_]+$/\<close>, the maximal lengths).\<close>

record create_merchant_dto =
  cm_code :: string
  cm_name :: string

definition valid_create_merchant :: "create_merchant_dto \<Rightarrow> bool" where
  "valid_create_merchant dto \<longleftrightarrow>
     cm_code dto \<noteq> [] \<and> list_all is_code_char (cm_code dto) \<and> length (cm_code dto) \<le> 50
   \<and> length (cm_name dto) \<le> 200"

definition DEFAULT_CURRENCY :: string where
  "DEFAULT_CURRENCY = ''XOF''"

text \<open>\<open>mid\<close> and \<open>aid\<close> are the generated ids of the two rows.\<close>

definition create_merchant_body ::
    "uuid \<Rightarrow> uuid \<Rightarrow> create_merchant_dto \<Rightarrow> session \<Rightarrow> db \<Rightarrow> app_error + (merchant \<times> db)" where
  "create_merchant_body mid aid dto s d =
    andThen (insert_merchant
      \<lparr>m_id = mid, m_code = cm_code dto, m_name = cm_name dto, m_is_active = True, m_created_at = s_now s\<rparr> d)
    (\<lambda>(merchant, d1).
    andThen (insert_account
      \<lparr>a_id = aid, a_code = merchantPayableAccountCode (cm_code dto),
       a_name = ''D'' @ [CHR 0xFB] @ '' au marchand '' @ cm_name dto,
       a_type = LIABILITY, a_currency = DEFAULT_CURRENCY, a_is_active = True, a_created_at = s_now s\<rparr> d1)
    (\<lambda>(_, d2). Inr (merchant, d2)))"

definition create_merchant ::
    "uuid \<Rightarrow> uuid \<Rightarrow> timestamp \<Rightarrow> create_merchant_dto \<Rightarrow> db \<Rightarrow> (app_error + merchant) \<times> db" where
  "create_merchant mid aid now dto d = sql_transaction None now (create_merchant_body mid aid dto) d"

definition findByCodeOrThrow :: "string \<Rightarrow> db \<Rightarrow> app_error + merchant" where
  "findByCodeOrThrow code d =
    (case lookup_by m_code code (merchants d) of
       None \<Rightarrow> Inl (Http_Exception 404 (''Marchand '' @ code @ '' introuvable''))
     | Some m \<Rightarrow> Inr m)"

end
