(* ===== verification/Booking.thy ===== *)
theory Booking
  imports Merchants
begin

text \<open>
  The three bookings of src/transactions: payment-success-booking.ts, refund-success-booking.ts
  and dispute-reversal-booking.ts. Each runs inside the SQL transaction of the status change and
  writes one journal entry with its postings. Theory Ledger proves what they share.
\<close>

section \<open>Shared by the three files: account codes and idOf\<close>

definition FEES_CODE :: string where
  "FEES_CODE = ''revenue:fees''"

definition clearingCode :: "provider \<Rightarrow> string" where
  "clearingCode p = ''provider:'' @ to_lower (provider_text p) @ '':clearing''"

definition findAccounts :: "string list \<Rightarrow> db \<Rightarrow> ledger_account list" where
  "findAccounts codes d = filter (\<lambda>a. a_code a \<in> set codes) (accounts d)"

definition idOf :: "ledger_account list \<Rightarrow> string \<Rightarrow> app_error + uuid" where
  "idOf found code =
    (case lookup_by a_code code found of
       None \<Rightarrow> Inl (Js_Error (''Compte comptable '' @ [CHR 0x22] @ code @ [CHR 0x22] @ '' introuvable''))
     | Some account \<Rightarrow> Inr (a_id account))"

definition findMerchantOrThrow :: "uuid \<Rightarrow> db \<Rightarrow> app_error + merchant" where
  "findMerchantOrThrow mid d =
    result_of_option (Record_Not_Found ''merchants'') (lookup_by m_id mid (merchants d))"

definition posting :: "uuid \<Rightarrow> uuid \<Rightarrow> entry_direction \<Rightarrow> int \<Rightarrow> string \<Rightarrow> ledger_posting" where
  "posting eid aid dir amount currency =
    \<lparr>p_entry_id = eid, p_account_id = aid, p_direction = dir, p_amount = amount, p_currency = currency\<rparr>"

section \<open>payment-success-booking.ts\<close>

definition computeCommission :: "int \<Rightarrow> int" where
  "computeCommission amount = bigint_div (amount * 15) 1000"

definition bookPaymentSuccess :: "session \<Rightarrow> uuid \<Rightarrow> transaction \<Rightarrow> db \<Rightarrow> app_error + db" where
  "bookPaymentSuccess s eid t d =
    andThen (findMerchantOrThrow (t_merchant_id t) d) (\<lambda>merchant.
    let clearing = clearingCode (t_provider t);
        payable = merchantPayableAccountCode (m_code merchant);
        found = findAccounts [clearing, payable, FEES_CODE] d;
        commission = computeCommission (t_amount t);
        merchantAmount = t_amount t - commission
    in
    andThen (insert_entry s eid (''Paiement '' @ t_reference t) (Some (t_id t)) None d) (\<lambda>(entry, d1).
    andThen (idOf found clearing) (\<lambda>clearing_id.
    andThen (idOf found payable) (\<lambda>payable_id.
    andThen
      (if 0 < commission
       then andThen (idOf found FEES_CODE) (\<lambda>fees_id.
              Inr [posting (e_id entry) fees_id CREDIT commission (t_currency t)])
       else Inr [])
      (\<lambda>fee_lines.
    insert_postings s
      ([posting (e_id entry) clearing_id DEBIT (t_amount t) (t_currency t),
        posting (e_id entry) payable_id CREDIT merchantAmount (t_currency t)] @ fee_lines) d1)))))"

section \<open>refund-success-booking.ts\<close>

text \<open>The parent is read under FOR UPDATE, then updated in the same SQL transaction.\<close>

definition bookRefundSuccess :: "session \<Rightarrow> uuid \<Rightarrow> transaction \<Rightarrow> db \<Rightarrow> app_error + db" where
  "bookRefundSuccess s eid refund d =
    andThen (result_of_option
        (Js_Error (''Remboursement '' @ t_reference refund @ '' sans parentTransactionId''))
        (t_parent_transaction_id refund)) (\<lambda>parent_id.
    andThen (result_of_option
        (Js_Error (''Paiement parent de '' @ t_reference refund @ '' introuvable''))
        (lookup_by t_id parent_id (transactions d))) (\<lambda>parent.
    let newRefundedAmount = t_refunded_amount parent + t_amount refund in
    if t_amount parent < newRefundedAmount
    then Inl (Http_Exception 422
           (''Remboursement '' @ t_reference refund @ '' : d'' @ [CHR 0xE9]
             @ ''passe le reste remboursable du paiement (reste ''
             @ dec_of_int (t_amount parent - t_refunded_amount parent) @ '', demand'' @ [CHR 0xE9, CHR 0x20]
             @ dec_of_int (t_amount refund) @ '')''))
    else
      let newParentStatus = (if newRefundedAmount = t_amount parent then REFUNDED else PARTIALLY_REFUNDED) in
      andThen (update_transaction s (t_id parent)
          (\<lambda>t. t\<lparr>t_refunded_amount := newRefundedAmount, t_status := newParentStatus\<rparr>) d) (\<lambda>(_, d1).
      andThen (findMerchantOrThrow (t_merchant_id refund) d1) (\<lambda>merchant.
      let clearing = clearingCode (t_provider refund);
          payable = merchantPayableAccountCode (m_code merchant);
          found = findAccounts [clearing, payable] d1
      in
      andThen (insert_entry s eid (''Remboursement '' @ t_reference refund) (Some (t_id refund)) None d1)
        (\<lambda>(entry, d2).
      andThen (idOf found payable) (\<lambda>payable_id.
      andThen (idOf found clearing) (\<lambda>clearing_id.
      insert_postings s
        [posting (e_id entry) payable_id DEBIT (t_amount refund) (t_currency refund),
         posting (e_id entry) clearing_id CREDIT (t_amount refund) (t_currency refund)] d2)))))))"

section \<open>dispute-reversal-booking.ts\<close>

definition bookDisputeReversal ::
    "session \<Rightarrow> uuid \<Rightarrow> transaction \<Rightarrow> db \<Rightarrow> app_error + (transaction \<times> db)" where
  "bookDisputeReversal s eid t d =
    (let remaining = t_amount t - t_refunded_amount t in
     if remaining \<le> 0
     then Inl (Js_Error (''Litige '' @ t_reference t @ '' : rien '' @ [CHR 0xE0] @ '' reprendre''))
     else
      andThen (update_transaction s (t_id t) (\<lambda>x. x\<lparr>t_refunded_amount := t_amount t\<rparr>) d) (\<lambda>(updated, d1).
      andThen (findMerchantOrThrow (t_merchant_id t) d1) (\<lambda>merchant.
      let clearing = clearingCode (t_provider t);
          payable = merchantPayableAccountCode (m_code merchant);
          found = findAccounts [clearing, payable] d1
      in
      andThen (insert_entry s eid (''Litige perdu '' @ t_reference t) (Some (t_id t)) None d1) (\<lambda>(entry, d2).
      andThen (idOf found payable) (\<lambda>payable_id.
      andThen (idOf found clearing) (\<lambda>clearing_id.
      andThen (insert_postings s
        [posting (e_id entry) payable_id DEBIT remaining (t_currency t),
         posting (e_id entry) clearing_id CREDIT remaining (t_currency t)] d2) (\<lambda>d3.
      Inr (updated, d3))))))))"

end
