(* ===== verification/Ledger.thy ===== *)
theory Ledger
  imports Invariants Booking
begin

text \<open>
  Double entry. \<open>ledger_ok\<close> says that every committed journal entry is valid (at least two lines,
  one currency, debit equal to credit, a reversal mirrors the entry it reverses); it is checked at
  COMMIT for the entries a SQL transaction touched, and the seal of \<open>created_tx_id\<close> makes the
  others untouchable. \<open>pending_ledger\<close> is what holds between BEGIN and COMMIT.
\<close>

section \<open>Sums of lines\<close>

definition signed_amount :: "ledger_posting \<Rightarrow> int" where
  "signed_amount p = (if is_debit p then p_amount p else - p_amount p)"

definition net_debit :: "ledger_posting list \<Rightarrow> int" where
  "net_debit ps = sum_list (map signed_amount ps)"

lemma net_debit_simps [simp]:
  "net_debit [] = 0"
  "net_debit (p # ps) = signed_amount p + net_debit ps"
  "net_debit (ps @ qs) = net_debit ps + net_debit qs"
  by (simp_all add: net_debit_def)

lemma net_debit_totals: "net_debit ps = total_debit ps - total_credit ps"
  by (induction ps) (auto simp: total_debit_def total_credit_def signed_amount_def)

lemma signed_amount_posting [simp]:
  "signed_amount (posting eid aid DEBIT a c) = a"
  "signed_amount (posting eid aid CREDIT a c) = - a"
  by (simp_all add: signed_amount_def is_debit_def posting_def)

text \<open>Grouping the lines of a journal by their entry does not change the total.\<close>

lemma net_debit_by_entry:
  assumes "distinct ids" "\<forall>p \<in> set ps. p_entry_id p \<in> set ids"
  shows "net_debit ps = sum_list (map (\<lambda>i. net_debit (filter (\<lambda>p. p_entry_id p = i) ps)) ids)"
  using assms(2)
proof (induction ps)
  case Nil
  then show ?case by (simp add: sum_list_zero)
next
  case (Cons p ps)
  let ?group = "\<lambda>qs i. net_debit (filter (\<lambda>q. p_entry_id q = i) qs)"
  have "sum_list (map (?group (p # ps)) ids)
      = sum_list (map (\<lambda>i. (if i = p_entry_id p then signed_amount p else 0) + ?group ps i) ids)"
    by (rule sum_list_cong) simp
  also have "\<dots> = sum_list (map (\<lambda>i. if i = p_entry_id p then signed_amount p else 0) ids)
      + sum_list (map (?group ps) ids)"
    by (simp add: sum_list_addf)
  also have "sum_list (map (\<lambda>i. if i = p_entry_id p then signed_amount p else 0) ids) = signed_amount p"
    using assms(1) Cons.prems by (simp add: sum_list_distinct_conv_sum_set)
  finally show ?case using Cons by simp
qed

section \<open>Committed entries\<close>

definition ledger_ok :: "db \<Rightarrow> bool" where
  "ledger_ok d \<longleftrightarrow>
     distinct (map e_id (entries d)) \<and> deferred d = []
   \<and> (\<forall>e \<in> set (entries d). assert_entry_valid d (e_id e) = Inr ()
        \<and> e_created_tx_id e < next_tx_id d
        \<and> (\<forall>r. e_reverses_entry_id e = Some r \<longrightarrow> r \<in> e_id ` set (entries d)))
   \<and> (\<forall>p \<in> set (postings d). p_entry_id p \<in> e_id ` set (entries d))"

lemma entry_balanced: "assert_entry_valid d eid = Inr () \<Longrightarrow> net_debit (lines_of eid d) = 0"
  by (simp add: assert_entry_valid_def result_simps Let_def net_debit_totals)

lemma ledger_ok_balanced:
  assumes "ledger_ok d"
  shows "total_debit (postings d) = total_credit (postings d)"
proof -
  have "net_debit (postings d) = sum_list (map (\<lambda>i. net_debit (lines_of i d)) (map e_id (entries d)))"
    unfolding lines_of_def using assms by (intro net_debit_by_entry) (auto simp: ledger_ok_def)
  also have "\<dots> = 0"
    using assms by (intro sum_list_zero) (auto simp: ledger_ok_def entry_balanced)
  finally show ?thesis by (simp add: net_debit_totals)
qed

text \<open>\<open>fn_assert_entry_valid\<close> reads the entry's row, its lines and the lines it reverses.\<close>

lemma assert_entry_valid_cong:
  assumes "lookup_by e_id i (entries d') = lookup_by e_id i (entries d)"
    "lines_of i d' = lines_of i d"
    "\<And>e r. lookup_by e_id i (entries d) = Some e \<Longrightarrow> e_reverses_entry_id e = Some r
      \<Longrightarrow> lines_of r d' = lines_of r d"
  shows "assert_entry_valid d' i = assert_entry_valid d i"
proof (cases "lookup_by e_id i (entries d)")
  case None
  then show ?thesis using assms by (simp add: assert_entry_valid_def)
next
  case (Some e)
  then show ?thesis using assms by (cases "e_reverses_entry_id e") (simp_all add: assert_entry_valid_def)
qed

section \<open>Between BEGIN and COMMIT\<close>

definition pending_ledger :: "session \<Rightarrow> db \<Rightarrow> db \<Rightarrow> bool" where
  "pending_ledger s d0 d \<longleftrightarrow>
     (\<exists>es ps. entries d = entries d0 @ es \<and> postings d = postings d0 @ ps
        \<and> (\<forall>e \<in> set es. e_created_tx_id e = s_tx_id s \<and> e_id e \<in> set (deferred d))
        \<and> (\<forall>p \<in> set ps. p_entry_id p \<in> e_id ` set es))
   \<and> distinct (map e_id (entries d)) \<and> next_tx_id d = next_tx_id d0
   \<and> (\<forall>e \<in> set (entries d). \<forall>r. e_reverses_entry_id e = Some r \<longrightarrow> r \<in> e_id ` set (entries d))"

lemma pending_ledger_start: "ledger_ok d \<Longrightarrow> pending_ledger s d d"
  by (simp add: pending_ledger_def ledger_ok_def)

lemma pending_ledger_stmt:
  assumes "stmt s d d'" "pending_ledger s d0 d" "ledger_ok d0" "s_tx_id s = next_tx_id d0"
  shows "pending_ledger s d0 d'"
  using assms(1)
proof (cases rule: stmt_effect)
  case (new_entry e)
  from assms(2) obtain es ps where es: "entries d = entries d0 @ es" "postings d = postings d0 @ ps"
    "\<forall>e \<in> set es. e_created_tx_id e = s_tx_id s \<and> e_id e \<in> set (deferred d)"
    "\<forall>p \<in> set ps. p_entry_id p \<in> e_id ` set es" by (auto simp: pending_ledger_def)
  have "\<exists>es' ps'. entries d' = entries d0 @ es' \<and> postings d' = postings d0 @ ps'
        \<and> (\<forall>e \<in> set es'. e_created_tx_id e = s_tx_id s \<and> e_id e \<in> set (deferred d'))
        \<and> (\<forall>p \<in> set ps'. p_entry_id p \<in> e_id ` set es')"
    by (rule exI [of _ "es @ [e]"], rule exI [of _ ps]) (use es new_entry(1,2) in auto)
  then show ?thesis
    using assms(2) new_entry(1,3,6) unfolding pending_ledger_def by auto
next
  case (new_posting p e)
  from assms(2) obtain es ps where es: "entries d = entries d0 @ es" "postings d = postings d0 @ ps"
    "\<forall>e \<in> set es. e_created_tx_id e = s_tx_id s \<and> e_id e \<in> set (deferred d)"
    "\<forall>p \<in> set ps. p_entry_id p \<in> e_id ` set es" by (auto simp: pending_ledger_def)
  have e: "e \<in> set (entries d)" "e_id e = p_entry_id p"
    using lookup_by_in [OF new_posting(5)] lookup_by_key [OF new_posting(5)] .
  then have "e \<in> set es"
    using es(1) new_posting(6) assms(3,4) by (fastforce simp: ledger_ok_def)
  then have p: "p_entry_id p \<in> e_id ` set es" using e(2) by (metis image_eqI)
  have "\<exists>es' ps'. entries d' = entries d0 @ es' \<and> postings d' = postings d0 @ ps'
        \<and> (\<forall>e \<in> set es'. e_created_tx_id e = s_tx_id s \<and> e_id e \<in> set (deferred d'))
        \<and> (\<forall>p \<in> set ps'. p_entry_id p \<in> e_id ` set es')"
    by (rule exI [of _ es], rule exI [of _ "ps @ [p]"]) (use es p new_posting(1) in auto)
  then show ?thesis
    using assms(2) new_posting(1) unfolding pending_ledger_def by simp
qed (use assms(2) in \<open>simp_all add: pending_ledger_def\<close>)

lemma pending_ledger_stmts:
  assumes "stmts s d0 d" "ledger_ok d0" "s_tx_id s = next_tx_id d0"
  shows "pending_ledger s d0 d"
  using assms by (induction rule: stmts.induct) (auto intro: pending_ledger_start pending_ledger_stmt)

text \<open>The lines of an entry committed before are those it was committed with.\<close>

lemma committed_lines_kept:
  assumes "pending_ledger s d0 d" "i \<in> e_id ` set (entries d0)"
  shows "lines_of i d = lines_of i d0" "lookup_by e_id i (entries d) = lookup_by e_id i (entries d0)"
proof -
  from assms(1) obtain es ps where es: "entries d = entries d0 @ es" "postings d = postings d0 @ ps"
    "\<forall>p \<in> set ps. p_entry_id p \<in> e_id ` set es" "distinct (map e_id (entries d0 @ es))"
    by (auto simp: pending_ledger_def)
  then have "i \<notin> e_id ` set es" using assms(2) by auto
  then have "filter (\<lambda>p. p_entry_id p = i) ps = []" using es(3) by (auto simp: filter_empty_conv)
  then show "lines_of i d = lines_of i d0" using es(2) by (simp add: lines_of_def)
  show "lookup_by e_id i (entries d) = lookup_by e_id i (entries d0)"
    using assms(2) lookup_by_eq_None [of e_id i "entries d0"] es(1)
    by (auto simp: lookup_by_append split: option.splits)
qed

lemma deferred_checks_InrD: "deferred_checks d = Inr u \<Longrightarrow> i \<in> set (deferred d) \<Longrightarrow> assert_entry_valid d i = Inr ()"
proof -
  have "fold_result (\<lambda>eid _. assert_entry_valid d eid) ids v = Inr u \<Longrightarrow> i \<in> set ids
    \<Longrightarrow> assert_entry_valid d i = Inr ()" for ids v
    by (induction ids arbitrary: v) (auto simp: result_simps)
  then show "deferred_checks d = Inr u \<Longrightarrow> i \<in> set (deferred d) \<Longrightarrow> assert_entry_valid d i = Inr ()"
    by (simp add: deferred_checks_def)
qed

lemma ledger_ok_commit:
  assumes "pending_ledger s d0 d" "ledger_ok d0" "s_tx_id s = next_tx_id d0" "deferred_checks d = Inr ()"
  shows "ledger_ok (d\<lparr>next_tx_id := Suc (next_tx_id d0), deferred := []\<rparr>)"
proof -
  note pending = assms(1)
  from pending obtain es ps where es: "entries d = entries d0 @ es" "postings d = postings d0 @ ps"
    "\<forall>e \<in> set es. e_created_tx_id e = s_tx_id s \<and> e_id e \<in> set (deferred d)"
    "\<forall>p \<in> set ps. p_entry_id p \<in> e_id ` set es" by (auto simp: pending_ledger_def)
  have valid: "assert_entry_valid d (e_id e) = Inr ()" if e: "e \<in> set (entries d)" for e
  proof (cases "e \<in> set es")
    case True
    then show ?thesis using es(3) deferred_checks_InrD [OF assms(4)] by blast
  next
    case False
    then have old: "e \<in> set (entries d0)" using e es(1) by simp
    have "assert_entry_valid d (e_id e) = assert_entry_valid d0 (e_id e)"
    proof (rule assert_entry_valid_cong)
      fix e' r assume "lookup_by e_id (e_id e) (entries d0) = Some e'" "e_reverses_entry_id e' = Some r"
      then have "r \<in> e_id ` set (entries d0)"
        using assms(2) lookup_by_in unfolding ledger_ok_def by metis
      then show "lines_of r d = lines_of r d0" by (rule committed_lines_kept(1) [OF pending])
    qed (use committed_lines_kept [OF pending] old in auto)
    then show ?thesis using assms(2) old by (simp add: ledger_ok_def)
  qed
  have same: "assert_entry_valid (d\<lparr>next_tx_id := n, deferred := q\<rparr>) i = assert_entry_valid d i" for n q i
    by (rule assert_entry_valid_cong) (simp_all add: lines_of_def)
  have "e_created_tx_id e < Suc (next_tx_id d0)" if "e \<in> set (entries d)" for e
    using that es(1,3) assms(2,3) by (fastforce simp: ledger_ok_def)
  moreover have "p_entry_id p \<in> e_id ` set (entries d)" if "p \<in> set (postings d)" for p
    using that es assms(2) by (auto simp: ledger_ok_def)
  ultimately show ?thesis
    using pending valid by (simp add: ledger_ok_def same pending_ledger_def)
qed

section \<open>The interface to the services\<close>

text \<open>
  A body of a SQL transaction that is a sequence of statements. Its transaction keeps the tables'
  invariants and the ledger's, and lets rows evolve only as \<open>evolves\<close> says.
\<close>

locale sql_body =
  fixes body :: "session \<Rightarrow> db \<Rightarrow> app_error + ('a \<times> db)"
  assumes body_stmts: "body s d = Inr (x, d') \<Longrightarrow> stmts s d d'"
begin

lemma keeps_tables: "tables_ok d \<Longrightarrow> tables_ok (snd (sql_transaction who now body d))"
  using tables.evolution.transaction_evolves [of body] body_stmts by blast

lemma rows_evolved: "keys_ok d \<Longrightarrow> evolves d (snd (sql_transaction who now body d))"
  using evolution.transaction_evolves [of body] body_stmts unfolding rows_evolve_def by blast

lemma keeps_ledger:
  assumes "ledger_ok d"
  shows "ledger_ok (snd (sql_transaction who now body d))"
proof (cases "sql_transaction who now body d")
  case (Pair r d')
  show ?thesis
  proof (cases r)
    case (Inl e)
    then show ?thesis using sql_transaction_Inl Pair assms by (metis snd_conv)
  next
    case (Inr x)
    obtain d1 where d1: "body \<lparr>s_tx_id = next_tx_id d, s_now = now, s_actor = who\<rparr> d = Inr (x, d1)"
      "deferred_checks d1 = Inr ()" "d' = d1\<lparr>next_tx_id := Suc (next_tx_id d), deferred := []\<rparr>"
      using Pair Inr by (auto elim: sql_transaction_Inr)
    show ?thesis using ledger_ok_commit [OF pending_ledger_stmts [OF body_stmts [OF d1(1)] assms] assms _ d1(2)] d1(3) Pair by simp
  qed
qed

lemma keeps_committed_lines:
  assumes "ledger_ok d" "i \<in> e_id ` set (entries d)"
  shows "lines_of i (snd (sql_transaction who now body d)) = lines_of i d"
proof (cases "sql_transaction who now body d")
  case (Pair r d')
  show ?thesis
  proof (cases r)
    case (Inl e)
    then show ?thesis using sql_transaction_Inl Pair by (metis snd_conv)
  next
    case (Inr x)
    obtain d1 where d1: "body \<lparr>s_tx_id = next_tx_id d, s_now = now, s_actor = who\<rparr> d = Inr (x, d1)"
      "deferred_checks d1 = Inr ()" "d' = d1\<lparr>next_tx_id := Suc (next_tx_id d), deferred := []\<rparr>"
      using Pair Inr by (auto elim: sql_transaction_Inr)
    have "lines_of i d1 = lines_of i d"
      using committed_lines_kept(1) [OF pending_ledger_stmts [OF body_stmts [OF d1(1)] assms(1)] assms(2)] by simp
    then show ?thesis using d1(3) Pair by (simp add: lines_of_def)
  qed
qed

end

end
