(* ===== verification/Transition_Service.thy ===== *)
theory Transition_Service
  imports Booking
begin

text \<open>
  src/transactions/transactions.service.ts: lookups by reference, the status history and
  \<open>transition\<close>, the single operation that moves a transaction through its state machine and
  books the money that moves with it.
\<close>

definition findByReferenceOrThrow :: "string \<Rightarrow> db \<Rightarrow> app_error + transaction" where
  "findByReferenceOrThrow reference d =
    (case lookup_by t_reference reference (transactions d) of
       None \<Rightarrow> Inl (Http_Exception 404 (''Transaction '' @ reference @ '' introuvable''))
     | Some t \<Rightarrow> Inr t)"

text \<open>
  \<open>orderBy: { createdAt: "asc" }\<close>: equal timestamps keep the insertion order here, one of the
  orders the database may return.
\<close>

definition status_history_of :: "string \<Rightarrow> db \<Rightarrow> app_error + status_history list" where
  "status_history_of reference d =
    andThen (findByReferenceOrThrow reference d) (\<lambda>t.
    Inr (sort_key h_created_at (filter (\<lambda>h. h_transaction_id h = t_id t) (history d))))"

record transition_status_dto =
  ts_status :: transaction_status
  ts_reason :: "string option"
  ts_provider_reference :: "string option"

datatype transition_outcome = Reconciliation uuid | Updated transaction

text \<open>\<open>{ type: "SYSTEM", id: "api:transactions", ...(dto.reason ? { reason } : {}) }\<close>.\<close>

definition transition_actor :: "transition_status_dto \<Rightarrow> actor" where
  "transition_actor dto =
    \<lparr>ac_type = SYSTEM, ac_id = ''api:transactions'',
     ac_reason = (case ts_reason dto of None \<Rightarrow> None | Some r \<Rightarrow> nullif_empty r)\<rparr>"

text \<open>
  The body of \<open>withActor\<close>; \<open>eid\<close> and \<open>xid\<close> are the ids the database generates for the journal
  entry or the reconciliation exception it may insert.
\<close>

definition transition_body ::
    "uuid \<Rightarrow> uuid \<Rightarrow> string \<Rightarrow> transition_status_dto \<Rightarrow> int \<Rightarrow> session \<Rightarrow> db
      \<Rightarrow> app_error + (transition_outcome \<times> db)" where
  "transition_body eid xid reference dto expectedVersion s d =
    (case lookup_by t_reference reference (transactions d) of
       None \<Rightarrow> Inl (Http_Exception 404 (''Transaction '' @ reference @ '' introuvable''))
     | Some row \<Rightarrow>
        if t_version row \<noteq> expectedVersion
        then Inl (Http_Exception 412
               (''If-Match p'' @ [CHR 0xE9] @ ''rim'' @ [CHR 0xE9] @ '' : version attendue ''
                 @ dec_of_int expectedVersion @ '', version actuelle '' @ dec_of_int (t_version row)))
        else if t_status row = EXPIRED \<and> ts_status dto = SUCCEEDED
        then andThen (insert_exception
              \<lparr>x_id = xid, x_kind = LATE_ACKNOWLEDGMENT, x_transaction_id = Some (t_id row),
               x_reported_status = Some (ts_status dto), x_provider_reference = ts_provider_reference dto,
               x_detail = None, x_detected_at = s_now s, x_resolved_at = None, x_resolved_by = None,
               x_resolution = None\<rparr> d)
              (\<lambda>(x, d1). Inr (Reconciliation (x_id x), d1))
        else
          andThen (update_transaction s (t_id row) (\<lambda>t. t\<lparr>t_status := ts_status dto\<rparr>) d) (\<lambda>(updated, d1).
          andThen
            (if ts_status dto = SUCCEEDED \<and> t_status row = PENDING
             then (if t_type row = PAYMENT then bookPaymentSuccess s eid updated d1
                   else bookRefundSuccess s eid updated d1)
             else Inr d1) (\<lambda>d2.
          andThen
            (if ts_status dto = REVERSED \<and> t_status row = DISPUTED
             then bookDisputeReversal s eid updated d2
             else Inr (updated, d2)) (\<lambda>(updated', d3).
          Inr (Updated updated', d3)))))"

text \<open>The two ways the body returns: a late acknowledgment, or an updated row.\<close>

lemma transition_body_Inr:
  assumes "transition_body eid xid ref dto v s d = Inr (x, d')"
  obtains
    (late) row exn where
      "lookup_by t_reference ref (transactions d) = Some row" "t_version row = v"
      "t_status row = EXPIRED" "ts_status dto = SUCCEEDED" "x = Reconciliation (x_id exn)"
      "insert_exception
         \<lparr>x_id = xid, x_kind = LATE_ACKNOWLEDGMENT, x_transaction_id = Some (t_id row),
          x_reported_status = Some SUCCEEDED, x_provider_reference = ts_provider_reference dto,
          x_detail = None, x_detected_at = s_now s, x_resolved_at = None, x_resolved_by = None,
          x_resolution = None\<rparr> d = Inr (exn, d')"
  | (updated) row u d1 d2 u' where
      "lookup_by t_reference ref (transactions d) = Some row" "t_version row = v"
      "\<not> (t_status row = EXPIRED \<and> ts_status dto = SUCCEEDED)" "x = Updated u'"
      "update_transaction s (t_id row) (\<lambda>t. t\<lparr>t_status := ts_status dto\<rparr>) d = Inr (u, d1)"
      "(if ts_status dto = SUCCEEDED \<and> t_status row = PENDING
        then (if t_type row = PAYMENT then bookPaymentSuccess s eid u d1 else bookRefundSuccess s eid u d1)
        else Inr d1) = Inr d2"
      "(if ts_status dto = REVERSED \<and> t_status row = DISPUTED
        then bookDisputeReversal s eid u d2 else Inr (u, d2)) = Inr (u', d')"
proof -
  obtain row where row: "lookup_by t_reference ref (transactions d) = Some row"
    using assms by (auto simp: transition_body_def split: option.splits)
  have version: "t_version row = v"
    using assms row by (simp add: transition_body_def split: if_splits)
  show thesis
  proof (cases "t_status row = EXPIRED \<and> ts_status dto = SUCCEEDED")
    case True
    then show thesis
      using assms row version by (auto simp: transition_body_def result_simps intro: late [of row])
  next
    case False
    have "andThen (update_transaction s (t_id row) (\<lambda>t. t\<lparr>t_status := ts_status dto\<rparr>) d) (\<lambda>(updated, d1).
          andThen
            (if ts_status dto = SUCCEEDED \<and> t_status row = PENDING
             then (if t_type row = PAYMENT then bookPaymentSuccess s eid updated d1
                   else bookRefundSuccess s eid updated d1)
             else Inr d1) (\<lambda>d2.
          andThen
            (if ts_status dto = REVERSED \<and> t_status row = DISPUTED
             then bookDisputeReversal s eid updated d2
             else Inr (updated, d2)) (\<lambda>(updated', d3). Inr (Updated updated', d3)))) = Inr (x, d')"
      using assms unfolding transition_body_def row option.case version if_not_P [OF False] by simp
    then show thesis
      unfolding andThen_eq_Inr split_paired_Ex prod.case sum.inject prod.inject
      by (elim exE conjE) (rule updated [OF row version False], auto)
  qed
qed

definition transition ::
    "uuid \<Rightarrow> uuid \<Rightarrow> timestamp \<Rightarrow> string \<Rightarrow> transition_status_dto \<Rightarrow> int \<Rightarrow> db
      \<Rightarrow> (app_error + transaction) \<times> db" where
  "transition eid xid now reference dto expectedVersion d =
    (case withActor (transition_actor dto) now
        (transition_body eid xid reference dto expectedVersion) d of
       (Inl e, d') \<Rightarrow> (Inl e, d')
     | (Inr (Reconciliation exceptionId), d') \<Rightarrow> (Inl (Reconciliation_Required reference exceptionId), d')
     | (Inr (Updated t), d') \<Rightarrow> (Inr t, d'))"

end
