(* ===== verification/Json.thy ===== *)
theory Json
  imports Prelude
begin

text \<open>
  What the program uses of JSON: \<open>JSON.stringify\<close> of an object of strings (the canonical bodies of
  payments.util.ts, the cursor of cursor.util.ts) and \<open>JSON.parse\<close> (the cursor). The parser follows
  the grammar of ECMA-404; numbers keep their text, and an escape of a code unit above 255 has no
  value here (strings are code units below 256). Reading back what was written is the identity.
\<close>

section \<open>JSON.stringify\<close>

definition hex_digit :: "nat \<Rightarrow> char" where
  "hex_digit n = (if n < 10 then char_of (48 + n) else char_of (87 + n))"

definition json_escape_char :: "char \<Rightarrow> string" where
  "json_escape_char c =
    (let n = char_code c in
     if n = 0x22 then [CHR 0x5C, CHR 0x22]
     else if n = 0x5C then [CHR 0x5C, CHR 0x5C]
     else if n = 0x08 then [CHR 0x5C, CHR ''b'']
     else if n = 0x0C then [CHR 0x5C, CHR ''f'']
     else if n = 0x0A then [CHR 0x5C, CHR ''n'']
     else if n = 0x0D then [CHR 0x5C, CHR ''r'']
     else if n = 0x09 then [CHR 0x5C, CHR ''t'']
     else if n < 0x20 then [CHR 0x5C, CHR ''u'', CHR ''0'', CHR ''0'', hex_digit (n div 16), hex_digit (n mod 16)]
     else [c])"

definition json_string :: "string \<Rightarrow> string" where
  "json_string s = [CHR 0x22] @ concat (map json_escape_char s) @ [CHR 0x22]"

text \<open>An object of string members, in the order they were written.\<close>

fun json_members :: "(string \<times> string) list \<Rightarrow> string" where
  "json_members [] = []"
| "json_members [(k, v)] = json_string k @ '':'' @ json_string v"
| "json_members ((k, v) # m # ms) = json_string k @ '':'' @ json_string v @ '','' @ json_members (m # ms)"

definition json_object :: "(string \<times> string) list \<Rightarrow> string" where
  "json_object ms = ''{'' @ json_members ms @ ''}''"

section \<open>JSON.parse\<close>

datatype json =
    JNull | JBool bool | JNumber string | JString string | JArray "json list" | JObject "(string \<times> json) list"

definition json_space :: "char \<Rightarrow> bool" where
  "json_space c \<longleftrightarrow> char_code c \<in> {9, 10, 13, 32}"

definition skip_ws :: "string \<Rightarrow> string" where
  "skip_ws s = dropWhile json_space s"

definition hex_value :: "char \<Rightarrow> nat option" where
  "hex_value c =
    (if is_digit c then Some (char_code c - 48)
     else if 97 \<le> char_code c \<and> char_code c \<le> 102 then Some (char_code c - 87)
     else if 65 \<le> char_code c \<and> char_code c \<le> 70 then Some (char_code c - 55)
     else None)"

definition unicode_escape :: "char \<Rightarrow> char \<Rightarrow> char \<Rightarrow> char \<Rightarrow> char option" where
  "unicode_escape a b c d =
    (case (hex_value a, hex_value b, hex_value c, hex_value d) of
       (Some w, Some x, Some y, Some z) \<Rightarrow> if w = 0 \<and> x = 0 then Some (char_of (16 * y + z)) else None
     | _ \<Rightarrow> None)"

definition simple_escape :: "char \<Rightarrow> char option" where
  "simple_escape e =
    (if e = CHR 0x22 \<or> e = CHR 0x5C \<or> e = CHR ''/'' then Some e
     else if e = CHR ''b'' then Some (CHR 0x08)
     else if e = CHR ''f'' then Some (CHR 0x0C)
     else if e = CHR ''n'' then Some (CHR 0x0A)
     else if e = CHR ''r'' then Some (CHR 0x0D)
     else if e = CHR ''t'' then Some (CHR 0x09)
     else None)"

text \<open>The characters of a string up to its closing quote, and what follows it.\<close>

definition prepend :: "char \<Rightarrow> (string \<times> string) option \<Rightarrow> (string \<times> string) option" where
  "prepend c m = map_option (\<lambda>(s, rest). (c # s, rest)) m"

fun parse_chars :: "string \<Rightarrow> (string \<times> string) option" where
  "parse_chars [] = None"
| "parse_chars (c # cs) =
    (if c = CHR 0x22 then Some ([], cs)
     else if c = CHR 0x5C then
       (case cs of
          [] \<Rightarrow> None
        | e # cs1 \<Rightarrow>
           if e = CHR ''u'' then
             (case cs1 of
                w # x # y # z # cs2 \<Rightarrow>
                  (case unicode_escape w x y z of None \<Rightarrow> None | Some u \<Rightarrow> prepend u (parse_chars cs2))
              | _ \<Rightarrow> None)
           else (case simple_escape e of None \<Rightarrow> None | Some u \<Rightarrow> prepend u (parse_chars cs1)))
     else if char_code c < 32 then None
     else prepend c (parse_chars cs))"

text \<open>A number is the longest prefix that matches the grammar.\<close>

definition digits_of :: "string \<Rightarrow> string \<times> string" where
  "digits_of s = (takeWhile is_digit s, dropWhile is_digit s)"

definition parse_int_part :: "string \<Rightarrow> (string \<times> string) option" where
  "parse_int_part s =
    (case digits_of s of
       ([], _) \<Rightarrow> None
     | (d # ds, rest) \<Rightarrow> if d = CHR ''0'' then Some ([d], ds @ rest) else Some (d # ds, rest))"

definition parse_frac :: "string \<Rightarrow> (string \<times> string) option" where
  "parse_frac s =
    (case s of
       c # cs \<Rightarrow>
         if c = CHR ''.''
         then (case digits_of cs of ([], _) \<Rightarrow> None | (ds, rest) \<Rightarrow> Some (c # ds, rest))
         else Some ([], s)
     | [] \<Rightarrow> Some ([], []))"

definition parse_exp :: "string \<Rightarrow> (string \<times> string) option" where
  "parse_exp s =
    (case s of
       c # cs \<Rightarrow>
         if c = CHR ''e'' \<or> c = CHR ''E''
         then let (sgn, cs1) = (case cs of k # ks \<Rightarrow> if k = CHR ''+'' \<or> k = CHR ''-'' then ([k], ks) else ([], cs)
                                | [] \<Rightarrow> ([], []))
              in (case digits_of cs1 of ([], _) \<Rightarrow> None | (ds, rest) \<Rightarrow> Some (c # sgn @ ds, rest))
         else Some ([], s)
     | [] \<Rightarrow> Some ([], []))"

definition parse_number :: "string \<Rightarrow> (json \<times> string) option" where
  "parse_number s =
    (let (sgn, s1) = (case s of c # cs \<Rightarrow> if c = CHR ''-'' then ([c], cs) else ([], s) | [] \<Rightarrow> ([], [])) in
     case parse_int_part s1 of
       None \<Rightarrow> None
     | Some (i, s2) \<Rightarrow>
        (case parse_frac s2 of
           None \<Rightarrow> None
         | Some (f, s3) \<Rightarrow>
            (case parse_exp s3 of
               None \<Rightarrow> None
             | Some (e, s4) \<Rightarrow> Some (JNumber (sgn @ i @ f @ e), s4))))"

definition parse_literal :: "string \<Rightarrow> json \<Rightarrow> string \<Rightarrow> (json \<times> string) option" where
  "parse_literal name v s = (if take (length name) s = name then Some (v, drop (length name) s) else None)"

text \<open>
  Values, elements and members, with fuel: a call consumes a character or is followed by one that
  does, so twice the length of the text is enough.
\<close>

fun parse_value :: "nat \<Rightarrow> string \<Rightarrow> (json \<times> string) option"
  and parse_elements :: "nat \<Rightarrow> string \<Rightarrow> (json list \<times> string) option"
  and parse_members :: "nat \<Rightarrow> string \<Rightarrow> ((string \<times> json) list \<times> string) option" where
  "parse_value 0 s = None"
| "parse_value (Suc n) s =
    (case s of
       [] \<Rightarrow> None
     | c # cs \<Rightarrow>
        if c = CHR 0x22 then map_option (\<lambda>(t, rest). (JString t, rest)) (parse_chars cs)
        else if c = CHR ''{'' then
          (case skip_ws cs of
             [] \<Rightarrow> None
           | d # ds \<Rightarrow> if d = CHR ''}'' then Some (JObject [], ds)
                     else map_option (\<lambda>(ms, rest). (JObject ms, rest)) (parse_members n (d # ds)))
        else if c = CHR ''['' then
          (case skip_ws cs of
             [] \<Rightarrow> None
           | d # ds \<Rightarrow> if d = CHR '']'' then Some (JArray [], ds)
                     else map_option (\<lambda>(vs, rest). (JArray vs, rest)) (parse_elements n (d # ds)))
        else if c = CHR ''t'' then parse_literal ''true'' (JBool True) s
        else if c = CHR ''f'' then parse_literal ''false'' (JBool False) s
        else if c = CHR ''n'' then parse_literal ''null'' JNull s
        else parse_number s)"
| "parse_elements 0 s = None"
| "parse_elements (Suc n) s =
    (case parse_value n s of
       None \<Rightarrow> None
     | Some (v, rest) \<Rightarrow>
        (case skip_ws rest of
           [] \<Rightarrow> None
         | d # ds \<Rightarrow>
            if d = CHR '']'' then Some ([v], ds)
            else if d = CHR '','' then map_option (\<lambda>(vs, r). (v # vs, r)) (parse_elements n (skip_ws ds))
            else None))"
| "parse_members 0 s = None"
| "parse_members (Suc n) s =
    (case s of
       [] \<Rightarrow> None
     | c # cs \<Rightarrow>
        if c \<noteq> CHR 0x22 then None
        else (case parse_chars cs of
           None \<Rightarrow> None
         | Some (k, r1) \<Rightarrow>
            (case skip_ws r1 of
               [] \<Rightarrow> None
             | d # r2 \<Rightarrow>
                if d \<noteq> CHR '':'' then None
                else (case parse_value n (skip_ws r2) of
                   None \<Rightarrow> None
                 | Some (v, r3) \<Rightarrow>
                    (case skip_ws r3 of
                       [] \<Rightarrow> None
                     | e # r4 \<Rightarrow>
                        if e = CHR ''}'' then Some ([(k, v)], r4)
                        else if e = CHR '','' then map_option (\<lambda>(ms, r). ((k, v) # ms, r)) (parse_members n (skip_ws r4))
                        else None)))))"

definition JSON_parse :: "string \<Rightarrow> json option" where
  "JSON_parse s =
    (case parse_value (2 * length s + 2) (skip_ws s) of
       None \<Rightarrow> None
     | Some (v, rest) \<Rightarrow> if skip_ws rest = [] then Some v else None)"

section \<open>Reading back what was written\<close>

lemma escaped_hex:
  assumes "n < 32"
  shows "unicode_escape (CHR ''0'') (CHR ''0'') (hex_digit (n div 16)) (hex_digit (n mod 16)) = Some (char_of n)"
proof -
  have "hex_value (hex_digit k) = Some k" if "k < 16" for k
    using that by (auto simp: hex_value_def hex_digit_def is_digit_def char_code_def)
  moreover have "hex_value (CHR ''0'') = Some 0" by (simp add: hex_value_def is_digit_def char_code_def)
  ultimately show ?thesis using assms by (simp add: unicode_escape_def)
qed

lemma char_of_char_code [simp]: "char_of (char_code c) = c"
  by (simp add: char_code_def)

lemma char_code_inject [simp]: "char_code a = char_code b \<longleftrightarrow> a = b"
  by (simp add: char_code_def)

lemma special_codes:
  "char_code c = 34 \<longleftrightarrow> c = CHR 0x22" "char_code c = 92 \<longleftrightarrow> c = CHR 0x5C"
  "char_code c = 8 \<longleftrightarrow> c = CHR 0x08" "char_code c = 12 \<longleftrightarrow> c = CHR 0x0C"
  "char_code c = 10 \<longleftrightarrow> c = CHR 0x0A" "char_code c = 13 \<longleftrightarrow> c = CHR 0x0D"
  "char_code c = 9 \<longleftrightarrow> c = CHR 0x09"
  using char_code_inject [of c "CHR 0x22"] char_code_inject [of c "CHR 0x5C"] char_code_inject [of c "CHR 0x08"]
    char_code_inject [of c "CHR 0x0C"] char_code_inject [of c "CHR 0x0A"] char_code_inject [of c "CHR 0x0D"]
    char_code_inject [of c "CHR 0x09"]
  by (simp_all add: char_code_def del: char_code_inject)

lemma parse_escaped: "parse_chars (json_escape_char c @ rest) = prepend c (parse_chars rest)"
proof (cases "c \<in> {CHR 0x22, CHR 0x5C, CHR 0x08, CHR 0x0C, CHR 0x0A, CHR 0x0D, CHR 0x09}")
  case True
  then show ?thesis
    by (auto simp: json_escape_char_def special_codes simple_escape_def)
next
  case False
  then have plain: "char_code c \<noteq> 34" "char_code c \<noteq> 92" "char_code c \<noteq> 8" "char_code c \<noteq> 12"
    "char_code c \<noteq> 10" "char_code c \<noteq> 13" "char_code c \<noteq> 9" "c \<noteq> CHR 0x22" "c \<noteq> CHR 0x5C"
    by (simp_all add: special_codes)
  show ?thesis
  proof (cases "char_code c < 32")
    case True
    then have "json_escape_char c = [CHR 0x5C, CHR ''u'', CHR ''0'', CHR ''0'', hex_digit (char_code c div 16),
        hex_digit (char_code c mod 16)]"
      using plain by (simp add: json_escape_char_def Let_def)
    then show ?thesis using escaped_hex [OF True] by simp
  next
    case False
    then have "json_escape_char c = [c]" using plain by (simp add: json_escape_char_def Let_def)
    then show ?thesis using False plain(8,9) by simp
  qed
qed

lemma parse_json_string: "parse_chars (concat (map json_escape_char s) @ CHR 0x22 # rest) = Some (s, rest)"
proof (induction s)
  case Nil
  then show ?case by simp
next
  case (Cons c s)
  have "parse_chars (json_escape_char c @ concat (map json_escape_char s) @ CHR 0x22 # rest) = Some (c # s, rest)"
    unfolding parse_escaped Cons by (simp add: prepend_def)
  then show ?case by simp
qed

lemma skip_ws_structural [simp]:
  "skip_ws (CHR 0x22 # s) = CHR 0x22 # s" "skip_ws (CHR ''{'' # s) = CHR ''{'' # s"
  "skip_ws (CHR ''}'' # s) = CHR ''}'' # s" "skip_ws (CHR '':'' # s) = CHR '':'' # s"
  "skip_ws (CHR '','' # s) = CHR '','' # s" "skip_ws [] = []"
  by (simp_all add: skip_ws_def json_space_def char_code_def)

lemma parse_members_text:
  assumes "ms \<noteq> []" "length ms < n"
  shows "parse_members n (json_members ms @ CHR ''}'' # rest) = Some (map (\<lambda>(k, v). (k, JString v)) ms, rest)"
  using assms
proof (induction ms arbitrary: n rule: json_members.induct)
  case 1
  then show ?case by simp
next
  case (2 k v)
  then obtain m where n: "n = Suc (Suc m)" by (cases n; cases "n - 1") auto
  show ?case unfolding n by (simp add: json_string_def parse_json_string)
next
  case (3 k v x ms)
  then obtain m where n: "n = Suc (Suc m)" by (cases n; cases "n - 1") auto
  obtain y ys where shape: "json_members (x # ms) = CHR 0x22 # ys"
    by (cases x; cases ms) (auto simp: json_string_def)
  have "parse_members (Suc m) (json_members (x # ms) @ CHR ''}'' # rest)
      = Some (map (\<lambda>(k, v). (k, JString v)) (x # ms), rest)"
    using 3(2,3) n by (intro 3(1)) simp_all
  then show ?case
    unfolding n using shape by (simp add: json_string_def parse_json_string del: json_members.simps(2))
qed

lemma JSON_parse_object:
  assumes "ms \<noteq> []"
  shows "JSON_parse (json_object ms) = Some (JObject (map (\<lambda>(k, v). (k, JString v)) ms))"
proof -
  obtain ys where shape: "json_members ms = CHR 0x22 # ys"
    using assms by (cases ms rule: json_members.cases) (auto simp: json_string_def)
  have "length ms \<le> length (json_members ms)"
    by (induction ms rule: json_members.induct) (auto simp: json_string_def)
  then have "parse_members (2 * length (json_object ms) + 1) (json_members ms @ CHR ''}'' # [])
      = Some (map (\<lambda>(k, v). (k, JString v)) ms, [])"
    using assms by (intro parse_members_text) (auto simp: json_object_def)
  then show ?thesis using shape by (simp add: JSON_parse_def json_object_def)
qed

lemma json_object_inject:
  assumes "json_object ms = json_object ns" "ms \<noteq> []" "ns \<noteq> []"
  shows "ms = ns"
proof -
  have "map (\<lambda>(k, v). (k, JString v)) ms = map (\<lambda>(k, v). (k, JString v)) ns"
    using JSON_parse_object [OF assms(2)] JSON_parse_object [OF assms(3)] assms(1) by simp
  moreover have "inj (\<lambda>(k :: string, v). (k, JString v))" by (auto simp: inj_def)
  ultimately show ?thesis by (simp add: inj_map_eq_map)
qed

end
