(* ===== verification/Payments.thy ===== *)
theory Payments
  imports Transition_Service Json
begin

text \<open>
  src/payments/payments.util.ts and payments.service.ts, with the idempotent creation they share
  (src/transactions/idempotent-transaction.util.ts). The SHA-256 digest (hex) is a parameter
  \<open>sha\<close>, the configuration service a lookup \<open>config\<close> of its numeric variables, and what the
  platform draws at random or reads off a clock is an argument.
\<close>

section \<open>payments.util.ts\<close>

record create_payment_dto =
  cp_provider :: provider
  cp_amount :: string
  cp_currency :: string
  cp_customer_msisdn :: string

text \<open>The decorators of create-payment.dto.ts: \<open>/^[1-9][0-9]*$/\<close> and the two formats.\<close>

fun is_amount_text :: "string \<Rightarrow> bool" where
  "is_amount_text (c # cs) \<longleftrightarrow> is_digit c \<and> c \<noteq> CHR ''0'' \<and> list_all is_digit cs"
| "is_amount_text [] \<longleftrightarrow> False"

definition valid_create_payment :: "create_payment_dto \<Rightarrow> bool" where
  "valid_create_payment dto \<longleftrightarrow>
     is_amount_text (cp_amount dto) \<and> is_currency (cp_currency dto) \<and> is_msisdn (cp_customer_msisdn dto)"

record create_refund_dto =
  cr_amount :: string
  cr_reason :: "string option"

definition valid_create_refund :: "create_refund_dto \<Rightarrow> bool" where
  "valid_create_refund dto \<longleftrightarrow>
     is_amount_text (cr_amount dto) \<and> (case cr_reason dto of None \<Rightarrow> True | Some r \<Rightarrow> length r \<le> 500)"

definition canonical_payment :: "create_payment_dto \<Rightarrow> string" where
  "canonical_payment dto = json_object
    [(''provider'', provider_text (cp_provider dto)), (''amount'', cp_amount dto),
     (''currency'', cp_currency dto), (''customerMsisdn'', cp_customer_msisdn dto)]"

definition fingerprintOf :: "(string \<Rightarrow> string) \<Rightarrow> create_payment_dto \<Rightarrow> string" where
  "fingerprintOf sha dto = sha (canonical_payment dto)"

definition canonical_refund :: "string \<Rightarrow> create_refund_dto \<Rightarrow> string" where
  "canonical_refund parentReference dto =
    json_object [(''parentReference'', parentReference), (''amount'', cr_amount dto)]"

definition refundFingerprintOf :: "(string \<Rightarrow> string) \<Rightarrow> string \<Rightarrow> create_refund_dto \<Rightarrow> string" where
  "refundFingerprintOf sha parentReference dto = sha (canonical_refund parentReference dto)"

definition requireIdempotencyKey :: "string option \<Rightarrow> app_error + string" where
  "requireIdempotencyKey header =
    (case header of
       None \<Rightarrow> Inl (Http_Exception 400 (''En-t'' @ [CHR 0xEA] @ ''te Idempotency-Key obligatoire''))
     | Some h \<Rightarrow>
        if h = [] then Inl (Http_Exception 400 (''En-t'' @ [CHR 0xEA] @ ''te Idempotency-Key obligatoire''))
        else if 100 < length h
        then Inl (Http_Exception 400 (''Idempotency-Key trop longue (100 caract'' @ [CHR 0xE8] @ ''res max)''))
        else Inr h)"

definition hex_byte :: "nat \<Rightarrow> string" where
  "hex_byte b = [hex_digit (b div 16), hex_digit (b mod 16)]"

definition to_upper :: "string \<Rightarrow> string" where
  "to_upper s = map (\<lambda>c. if is_lower c then char_of (char_code c - 32) else c) s"

text \<open>
  \<open>iso_text\<close> is \<open>new Date().toISOString()\<close>, \<open>bytes\<close> the four random bytes.
\<close>

definition generateTransactionReference :: "string \<Rightarrow> nat list \<Rightarrow> string" where
  "generateTransactionReference iso_text bytes =
    ''TXN-'' @ filter (\<lambda>c. c \<noteq> CHR ''-'') (take 10 iso_text) @ ''-''
      @ take 6 (to_upper (concat (map hex_byte bytes)))"

definition FALLBACK_EXPIRY_MINUTES :: rat where
  "FALLBACK_EXPIRY_MINUTES = 15"

fun expiry_env_key :: "provider \<Rightarrow> string" where
  "expiry_env_key ORANGE_MONEY = ''PAYMENT_EXPIRY_MINUTES_ORANGE_MONEY''"
| "expiry_env_key MTN_MOMO = ''PAYMENT_EXPIRY_MINUTES_MTN_MOMO''"
| "expiry_env_key WAVE = ''PAYMENT_EXPIRY_MINUTES_WAVE''"
| "expiry_env_key MOOV_MONEY = ''PAYMENT_EXPIRY_MINUTES_MOOV_MONEY''"

definition resolveExpiryMinutes :: "(string \<Rightarrow> rat option) \<Rightarrow> provider \<Rightarrow> rat" where
  "resolveExpiryMinutes config p =
    (case config (expiry_env_key p) of
       Some perProvider \<Rightarrow> perProvider
     | None \<Rightarrow> (case config ''PAYMENT_EXPIRY_MINUTES_DEFAULT'' of
           Some minutes \<Rightarrow> minutes
         | None \<Rightarrow> FALLBACK_EXPIRY_MINUTES))"

text \<open>\<open>new Date(ms)\<close> drops the fraction of a millisecond.\<close>

definition computeExpiresAt :: "timestamp \<Rightarrow> rat \<Rightarrow> timestamp" where
  "computeExpiresAt now minutes = now + \<lfloor>minutes * 60000\<rfloor>"

text \<open>\<open>BigInt(text)\<close>: a SyntaxError when the text is not an integer literal.\<close>

definition BigInt_of :: "string \<Rightarrow> app_error + int" where
  "BigInt_of s = result_of_option (Js_Error ''SyntaxError: Cannot convert to a BigInt'') (string_to_bigint s)"

section \<open>idempotent-transaction.util.ts\<close>

record idempotent_create_result =
  ir_transaction :: transaction
  ir_replayed :: bool

definition createTransactionIdempotently ::
    "string \<Rightarrow> timestamp \<Rightarrow> string \<Rightarrow> string \<Rightarrow> (session \<Rightarrow> db \<Rightarrow> app_error + (transaction \<times> db)) \<Rightarrow> db
      \<Rightarrow> (app_error + idempotent_create_result) \<times> db" where
  "createTransactionIdempotently actorId now idempotencyKey fingerprint insert_row d =
    (case withActor \<lparr>ac_type = SYSTEM, ac_id = actorId, ac_reason = None\<rparr> now insert_row d of
       (Inr t, d') \<Rightarrow> (Inr \<lparr>ir_transaction = t, ir_replayed = False\<rparr>, d')
     | (Inl error, d') \<Rightarrow>
        (case lookup_by t_idempotency_key idempotencyKey (transactions d') of
           None \<Rightarrow> (Inl error, d')
         | Some existing \<Rightarrow>
            if t_request_fingerprint existing \<noteq> fingerprint
            then (Inl (Http_Exception 422
                    (''Idempotency-Key d'' @ [CHR 0xE9] @ ''j'' @ [CHR 0xE0] @ '' utilis'' @ [CHR 0xE9]
                      @ ''e avec un corps de requ'' @ [CHR 0xEA] @ ''te diff'' @ [CHR 0xE9] @ ''rent'')), d')
            else (Inr \<lparr>ir_transaction = existing, ir_replayed = True\<rparr>, d')))"

section \<open>payments.service.ts\<close>

text \<open>
  What a request draws from its surroundings: the generated row id, the text of the current date
  and the random bytes of the reference, the application clock and the clock of the database.
\<close>

record request_inputs =
  in_id :: uuid
  in_iso_date :: string
  in_bytes :: "nat list"
  in_clock :: timestamp
  in_db_now :: timestamp

definition create_payment_body ::
    "(string \<Rightarrow> string) \<Rightarrow> (string \<Rightarrow> rat option) \<Rightarrow> request_inputs \<Rightarrow> create_payment_dto \<Rightarrow> string \<Rightarrow> uuid
      \<Rightarrow> session \<Rightarrow> db \<Rightarrow> app_error + (transaction \<times> db)" where
  "create_payment_body sha config inp dto key merchantId s d =
    andThen (BigInt_of (cp_amount dto)) (\<lambda>amount.
    insert_transaction s
      \<lparr>t_id = in_id inp, t_reference = generateTransactionReference (in_iso_date inp) (in_bytes inp),
       t_type = PAYMENT, t_status = INITIATED, t_provider = cp_provider dto, t_provider_reference = None,
       t_amount = amount, t_currency = cp_currency dto, t_refunded_amount = 0,
       t_customer_msisdn = cp_customer_msisdn dto, t_parent_transaction_id = None,
       t_merchant_id = merchantId, t_idempotency_key = key, t_request_fingerprint = fingerprintOf sha dto,
       t_version = 1,
       t_expires_at = Some (computeExpiresAt (in_clock inp) (resolveExpiryMinutes config (cp_provider dto))),
       t_created_at = s_now s, t_updated_at = s_now s\<rparr> d)"

definition create_payment ::
    "(string \<Rightarrow> string) \<Rightarrow> (string \<Rightarrow> rat option) \<Rightarrow> request_inputs \<Rightarrow> create_payment_dto \<Rightarrow> string \<Rightarrow> uuid \<Rightarrow> db
      \<Rightarrow> (app_error + idempotent_create_result) \<times> db" where
  "create_payment sha config inp dto key merchantId d =
    createTransactionIdempotently ''api:payments'' (in_db_now inp) key (fingerprintOf sha dto)
      (create_payment_body sha config inp dto key merchantId) d"

definition create_refund_body ::
    "(string \<Rightarrow> string) \<Rightarrow> (string \<Rightarrow> rat option) \<Rightarrow> request_inputs \<Rightarrow> string \<Rightarrow> transaction \<Rightarrow> create_refund_dto \<Rightarrow> string
      \<Rightarrow> session \<Rightarrow> db \<Rightarrow> app_error + (transaction \<times> db)" where
  "create_refund_body sha config inp parentReference parent dto key s d =
    andThen (BigInt_of (cr_amount dto)) (\<lambda>amount.
    insert_transaction s
      \<lparr>t_id = in_id inp, t_reference = generateTransactionReference (in_iso_date inp) (in_bytes inp),
       t_type = REFUND, t_status = INITIATED, t_provider = t_provider parent, t_provider_reference = None,
       t_amount = amount, t_currency = t_currency parent, t_refunded_amount = 0,
       t_customer_msisdn = t_customer_msisdn parent, t_parent_transaction_id = Some (t_id parent),
       t_merchant_id = t_merchant_id parent, t_idempotency_key = key,
       t_request_fingerprint = refundFingerprintOf sha parentReference dto,
       t_version = 1,
       t_expires_at = Some (computeExpiresAt (in_clock inp) (resolveExpiryMinutes config (t_provider parent))),
       t_created_at = s_now s, t_updated_at = s_now s\<rparr> d)"

definition create_refund ::
    "(string \<Rightarrow> string) \<Rightarrow> (string \<Rightarrow> rat option) \<Rightarrow> request_inputs \<Rightarrow> string \<Rightarrow> create_refund_dto \<Rightarrow> string \<Rightarrow> uuid \<Rightarrow> db
      \<Rightarrow> (app_error + idempotent_create_result) \<times> db" where
  "create_refund sha config inp parentReference dto key merchantId d =
    (case findByReferenceOrThrow parentReference d of
       Inl e \<Rightarrow> (Inl e, d)
     | Inr parent \<Rightarrow>
        if t_merchant_id parent \<noteq> merchantId
        then (Inl (Http_Exception 404 (''Transaction '' @ parentReference @ '' introuvable'')), d)
        else createTransactionIdempotently ''api:payments'' (in_db_now inp) key
               (refundFingerprintOf sha parentReference dto)
               (create_refund_body sha config inp parentReference parent dto key) d)"

text \<open>
  \<open>this.simulator?.scheduleCallbacks(...)\<close> after a creation that is not a replay: the references
  handed to the operator simulator when its module is loaded.
\<close>

definition scheduled_callbacks :: "bool \<Rightarrow> app_error + idempotent_create_result \<Rightarrow> string list" where
  "scheduled_callbacks simulator_loaded r =
    (case r of
       Inl _ \<Rightarrow> []
     | Inr ir \<Rightarrow> if \<not> ir_replayed ir \<and> simulator_loaded then [t_reference (ir_transaction ir)] else [])"

end
