(* ===== verification/Expiration.thy ===== *)
theory Expiration
  imports Transition_Service
begin

text \<open>
  TransactionsService.expireOverduePending and expireOneBatch (src/transactions/transactions.service.ts),
  which src/expiration/expiration.scheduler.ts runs every minute. The lock table of the other
  sessions (\<open>FOR UPDATE SKIP LOCKED\<close>) is an argument: the ids a batch skips.
\<close>

definition EXPIRATION_BATCH_SIZE :: nat where
  "EXPIRATION_BATCH_SIZE = 200"

definition overdue :: "timestamp \<Rightarrow> transaction \<Rightarrow> bool" where
  "overdue now t \<longleftrightarrow> t_status t = PENDING \<and> (case t_expires_at t of None \<Rightarrow> False | Some x \<Rightarrow> x < now)"

text \<open>\<open>ORDER BY expires_at\<close>: the rows selected all have one.\<close>

definition expiry_of :: "transaction \<Rightarrow> timestamp" where
  "expiry_of t = (case t_expires_at t of None \<Rightarrow> 0 | Some x \<Rightarrow> x)"

definition select_overdue :: "timestamp \<Rightarrow> (uuid \<Rightarrow> bool) \<Rightarrow> db \<Rightarrow> uuid list" where
  "select_overdue now locked d =
    map t_id (take EXPIRATION_BATCH_SIZE
      (sort_key expiry_of (filter (\<lambda>t. overdue now t \<and> \<not> locked (t_id t)) (transactions d))))"

text \<open>\<open>updateMany\<close>: one UPDATE statement over the selected ids.\<close>

definition expire_rows :: "session \<Rightarrow> uuid list \<Rightarrow> db \<Rightarrow> app_error + db" where
  "expire_rows s ids d =
    fold_result (\<lambda>tid d. andThen (update_transaction s tid (\<lambda>t. t\<lparr>t_status := EXPIRED\<rparr>) d)
      (\<lambda>(_, d'). Inr d')) ids d"

definition expire_one_batch_body ::
    "timestamp \<Rightarrow> (uuid \<Rightarrow> bool) \<Rightarrow> session \<Rightarrow> db \<Rightarrow> app_error + (nat \<times> db)" where
  "expire_one_batch_body clock locked s d =
    (let ids = select_overdue clock locked d in
     if ids = [] then Inr (0, d)
     else andThen (expire_rows s ids d) (\<lambda>d'. Inr (length ids, d')))"

definition expiration_actor :: actor where
  "expiration_actor =
    \<lparr>ac_type = SYSTEM, ac_id = ''expiration-job'',
     ac_reason = Some (''Expiration automatique (d'' @ [CHR 0xE9] @ ''lai d'' @ [CHR 0xE9] @ ''pass'' @ [CHR 0xE9] @ '')'')\<rparr>"

definition expire_one_batch ::
    "timestamp \<Rightarrow> timestamp \<Rightarrow> (uuid \<Rightarrow> bool) \<Rightarrow> db \<Rightarrow> (app_error + nat) \<times> db" where
  "expire_one_batch clock db_now locked d =
    withActor expiration_actor db_now (expire_one_batch_body clock locked) d"

section \<open>expireOverduePending\<close>

text \<open>
  A batch that expired something leaves fewer PENDING rows, so the \<open>do ... while\<close> loop ends: the
  number of PENDING rows is its measure. Nothing is assumed of the table for this.
\<close>

definition pending_rows :: "db \<Rightarrow> nat" where
  "pending_rows d = length (filter (\<lambda>t. t_status t = PENDING) (transactions d))"

lemma pending_replace_le:
  assumes "t_status new \<noteq> PENDING"
  shows "length (filter (\<lambda>t. t_status t = PENDING) (replace_by t_id i new ts))
    \<le> length (filter (\<lambda>t. t_status t = PENDING) ts)"
  using assms by (induction ts) (auto simp: replace_by_Cons)

lemma pending_replace_less:
  assumes "t_status new \<noteq> PENDING" "t \<in> set ts" "t_id t = i" "t_status t = PENDING"
  shows "length (filter (\<lambda>t. t_status t = PENDING) (replace_by t_id i new ts))
    < length (filter (\<lambda>t. t_status t = PENDING) ts)"
  using assms(2)
proof (induction ts)
  case Nil
  then show ?case by simp
next
  case (Cons x ts)
  show ?case
  proof (cases "t = x")
    case True
    then show ?thesis
      using assms(1,3,4) pending_replace_le [OF assms(1), of i ts] by (simp add: replace_by_Cons)
  next
    case False
    then show ?thesis using Cons assms(1) by (auto simp: replace_by_Cons)
  qed
qed

lemma expire_row_result:
  assumes "update_transaction s i (\<lambda>t. t\<lparr>t_status := EXPIRED\<rparr>) d = Inr (r, d')"
  shows "t_status r = EXPIRED" "transactions d' = replace_by t_id i r (transactions d)"
  using assms
  by (auto simp: update_transaction_def transactions_before_update_def record_status_def Let_def result_simps
      split: option.splits if_splits)

lemma expire_rows_pending_le:
  assumes "expire_rows s ids d = Inr d'"
  shows "pending_rows d' \<le> pending_rows d"
proof -
  have "(\<lambda>x. pending_rows x \<le> pending_rows d) d'"
  proof (rule fold_result_invariant [of ids "\<lambda>x. pending_rows x \<le> pending_rows d", OF _ order_refl])
    show "fold_result (\<lambda>tid d. andThen (update_transaction s tid (\<lambda>t. t\<lparr>t_status := EXPIRED\<rparr>) d)
      (\<lambda>(_, d'). Inr d')) ids d = Inr d'" using assms by (simp add: expire_rows_def)
    fix i d1 d2
    assume "pending_rows d1 \<le> pending_rows d"
      "andThen (update_transaction s i (\<lambda>t. t\<lparr>t_status := EXPIRED\<rparr>) d1) (\<lambda>(_, d'). Inr d') = Inr d2"
    moreover from this obtain r where "update_transaction s i (\<lambda>t. t\<lparr>t_status := EXPIRED\<rparr>) d1 = Inr (r, d2)"
      by (auto simp: result_simps)
    ultimately show "pending_rows d2 \<le> pending_rows d"
      using expire_row_result [of s i d1 r d2] pending_replace_le [of r i "transactions d1"]
      by (simp add: pending_rows_def)
  qed
  then show ?thesis .
qed

lemma selected_pending:
  "i \<in> set (select_overdue now locked d) \<Longrightarrow> \<exists>t \<in> set (transactions d). t_id t = i \<and> t_status t = PENDING"
  by (auto simp: select_overdue_def overdue_def dest!: in_set_takeD)

lemma batch_makes_progress:
  assumes "expire_one_batch clock db_now locked d = (Inr n, d')" "n \<noteq> 0"
  shows "pending_rows d' < pending_rows d"
proof -
  let ?s = "\<lparr>s_tx_id = next_tx_id d, s_now = db_now, s_actor = Some expiration_actor\<rparr>"
  let ?ids = "select_overdue clock locked d"
  obtain d1 where d1: "?ids \<noteq> []" "expire_rows ?s ?ids d = Inr d1" "transactions d' = transactions d1"
    using assms by (auto simp: expire_one_batch_def withActor_def sql_transaction_def expire_one_batch_body_def
        Let_def result_simps split: sum.splits prod.splits if_splits)
  obtain i rest where ids: "?ids = i # rest" using d1(1) by (cases ?ids) auto
  obtain t where t: "t \<in> set (transactions d)" "t_id t = i" "t_status t = PENDING"
    using selected_pending [of i clock locked d] ids by auto
  obtain r d2 where d2: "update_transaction ?s i (\<lambda>t. t\<lparr>t_status := EXPIRED\<rparr>) d = Inr (r, d2)"
    "expire_rows ?s rest d2 = Inr d1"
    using d1(2) unfolding ids expire_rows_def by (auto simp: result_simps)
  have "pending_rows d2 < pending_rows d"
    using expire_row_result [OF d2(1)] pending_replace_less [of r t "transactions d" i] t
    by (simp add: pending_rows_def)
  moreover have "pending_rows d1 \<le> pending_rows d2" using expire_rows_pending_le [OF d2(2)] .
  ultimately show ?thesis using d1(3) by (simp add: pending_rows_def)
qed

text \<open>
  Each batch reads its own clocks and its own lock table: the \<open>i\<close>-th batch uses \<open>clock i\<close>, \<open>db_now i\<close>
  and \<open>locked i\<close>. An error of a batch ends the loop; the batches before it are committed.
\<close>

function expire_loop ::
    "(nat \<Rightarrow> timestamp) \<Rightarrow> (nat \<Rightarrow> timestamp) \<Rightarrow> (nat \<Rightarrow> uuid \<Rightarrow> bool) \<Rightarrow> nat \<Rightarrow> nat \<Rightarrow> db \<Rightarrow> (app_error + nat) \<times> db" where
  "expire_loop clock db_now locked i tot d =
    (case expire_one_batch (clock i) (db_now i) (locked i) d of
       (Inl e, d') \<Rightarrow> (Inl e, d')
     | (Inr expiredInBatch, d') \<Rightarrow>
        if expiredInBatch > 0 then expire_loop clock db_now locked (Suc i) (tot + expiredInBatch) d'
        else (Inr tot, d'))"
  by pat_completeness auto
termination
  by (relation "measure (\<lambda>(_, _, _, _, _, d). pending_rows d)")
    (auto intro: batch_makes_progress [OF sym])

declare expire_loop.simps [simp del]

definition expireOverduePending ::
    "(nat \<Rightarrow> timestamp) \<Rightarrow> (nat \<Rightarrow> timestamp) \<Rightarrow> (nat \<Rightarrow> uuid \<Rightarrow> bool) \<Rightarrow> db \<Rightarrow> (app_error + nat) \<times> db" where
  "expireOverduePending clock db_now locked d = expire_loop clock db_now locked 0 0 d"

text \<open>expiration.scheduler.ts: what the cron logs after a sweep.\<close>

definition handleExpiration ::
    "(nat \<Rightarrow> timestamp) \<Rightarrow> (nat \<Rightarrow> timestamp) \<Rightarrow> (nat \<Rightarrow> uuid \<Rightarrow> bool) \<Rightarrow> db \<Rightarrow> (app_error + string option) \<times> db" where
  "handleExpiration clock db_now locked d =
    (case expireOverduePending clock db_now locked d of
       (Inl e, d') \<Rightarrow> (Inl e, d')
     | (Inr expired, d') \<Rightarrow>
        (Inr (if expired > 0
              then Some (dec_of_nat expired @ '' transaction(s) expir'' @ [CHR 0xE9] @ ''e(s) automatiquement'')
              else None), d'))"

end
