(* ===== verification/Auth.thy ===== *)
theory Auth
  imports Booking
begin

text \<open>
  src/auth: API keys (hash.util.ts, api-keys.service.ts), the guards (api-key.guard.ts,
  roles.guard.ts) and the scripts/bootstrap-admin-key.ts that issues the first ADMIN key. The
  SHA-256 digest in hexadecimal is the parameter \<open>sha\<close>; the random bytes are an argument.
\<close>

section \<open>base64url text of bytes (Buffer.toString("base64url"), no padding)\<close>

definition base64url_char :: "nat \<Rightarrow> char" where
  "base64url_char n =
    (if n < 26 then char_of (65 + n)
     else if n < 52 then char_of (71 + n)
     else if n < 62 then char_of (n - 4)
     else if n = 62 then CHR ''-'' else CHR ''_'')"

fun base64url_encode :: "nat list \<Rightarrow> string" where
  "base64url_encode [] = []"
| "base64url_encode [a] = [base64url_char (a div 4), base64url_char ((a mod 4) * 16)]"
| "base64url_encode [a, b] =
     [base64url_char (a div 4), base64url_char ((a mod 4) * 16 + b div 16), base64url_char ((b mod 16) * 4)]"
| "base64url_encode (a # b # c # rest) =
     base64url_char (a div 4) # base64url_char ((a mod 4) * 16 + b div 16)
       # base64url_char ((b mod 16) * 4 + c div 64) # base64url_char (c mod 64) # base64url_encode rest"

section \<open>hash.util.ts\<close>

definition generateApiKey :: "nat list \<Rightarrow> string" where
  "generateApiKey random_bytes = base64url_encode random_bytes"

definition hashApiKey :: "(string \<Rightarrow> string) \<Rightarrow> string \<Rightarrow> string" where
  "hashApiKey sha rawKey = sha rawKey"

section \<open>api-keys.service.ts\<close>

record create_api_key_dto =
  ck_label :: string
  ck_role :: api_role
  ck_merchant_id :: "uuid option"

record created_api_key =
  ca_id :: uuid
  ca_label :: string
  ca_role :: api_role
  ca_merchant_id :: "uuid option"
  ca_raw_key :: string

text \<open>JavaScript truthiness of an optional string: absent and empty are falsy.\<close>

definition truthy :: "string option \<Rightarrow> bool" where
  "truthy s \<longleftrightarrow> (case s of None \<Rightarrow> False | Some t \<Rightarrow> t \<noteq> [])"

definition create_key_body ::
    "(string \<Rightarrow> string) \<Rightarrow> uuid \<Rightarrow> create_api_key_dto \<Rightarrow> string \<Rightarrow> session \<Rightarrow> db \<Rightarrow> app_error + (api_key \<times> db)" where
  "create_key_body sha kid dto rawKey s d =
    insert_api_key
      \<lparr>k_id = kid, k_label = ck_label dto, k_role = ck_role dto, k_hashed_key = hashApiKey sha rawKey,
       k_merchant_id = ck_merchant_id dto, k_is_active = True, k_revoked_at = None, k_created_at = s_now s\<rparr> d"

text \<open>\<open>given_key\<close> is \<open>options.rawKey\<close>, only passed by the seed script.\<close>

definition create_api_key ::
    "(string \<Rightarrow> string) \<Rightarrow> uuid \<Rightarrow> nat list \<Rightarrow> string option \<Rightarrow> timestamp \<Rightarrow> create_api_key_dto \<Rightarrow> db
      \<Rightarrow> (app_error + created_api_key) \<times> db" where
  "create_api_key sha kid random_bytes given_key now dto d =
    (if ck_role dto = MERCHANT \<and> \<not> truthy (ck_merchant_id dto)
     then (Inl (Http_Exception 400
            (''merchantId est obligatoire pour le r'' @ [CHR 0xF4] @ ''le MERCHANT'')), d)
     else if ck_role dto \<noteq> MERCHANT \<and> truthy (ck_merchant_id dto)
     then (Inl (Http_Exception 400
            (''merchantId n'' @ [CHR 0x27] @ ''a pas de sens pour le r'' @ [CHR 0xF4] @ ''le '' @ role_text (ck_role dto))), d)
     else
       let rawKey = (case given_key of Some r \<Rightarrow> r | None \<Rightarrow> generateApiKey random_bytes) in
       (case sql_transaction None now (create_key_body sha kid dto rawKey) d of
          (Inl e, d') \<Rightarrow> (Inl e, d')
        | (Inr k, d') \<Rightarrow>
            (Inr \<lparr>ca_id = k_id k, ca_label = k_label k, ca_role = k_role k,
                  ca_merchant_id = k_merchant_id k, ca_raw_key = rawKey\<rparr>, d')))"

definition validate_api_key :: "(string \<Rightarrow> string) \<Rightarrow> string \<Rightarrow> db \<Rightarrow> api_key option" where
  "validate_api_key sha rawKey d =
    find (\<lambda>k. k_hashed_key k = hashApiKey sha rawKey \<and> k_is_active k) (api_keys d)"

definition revoke_body :: "uuid \<Rightarrow> timestamp \<Rightarrow> session \<Rightarrow> db \<Rightarrow> app_error + (api_key \<times> db)" where
  "revoke_body kid clock s d =
    update_api_key kid (\<lambda>k. k\<lparr>k_is_active := False, k_revoked_at := Some clock\<rparr>) d"

definition revoke_api_key :: "uuid \<Rightarrow> timestamp \<Rightarrow> db \<Rightarrow> (app_error + api_key) \<times> db" where
  "revoke_api_key kid clock d =
    (case lookup_by k_id kid (api_keys d) of
       None \<Rightarrow> (Inl (Http_Exception 404 (''Cl'' @ [CHR 0xE9] @ '' API '' @ kid @ '' introuvable'')), d)
     | Some _ \<Rightarrow> sql_transaction None clock (revoke_body kid clock) d)"

section \<open>bootstrap-admin-key.ts\<close>

definition bootstrap_admin_key ::
    "(string \<Rightarrow> string) \<Rightarrow> uuid \<Rightarrow> nat list \<Rightarrow> timestamp \<Rightarrow> db \<Rightarrow> (app_error + created_api_key option) \<times> db" where
  "bootstrap_admin_key sha kid random_bytes now d =
    (case find (\<lambda>k. k_role k = ADMIN \<and> k_is_active k) (api_keys d) of
       Some existing \<Rightarrow> (Inr None, d)
     | None \<Rightarrow>
        (case create_api_key sha kid random_bytes None now
            \<lparr>ck_label = ''bootstrap admin'', ck_role = ADMIN, ck_merchant_id = None\<rparr> d of
           (Inl e, d') \<Rightarrow> (Inl e, d')
         | (Inr c, d') \<Rightarrow> (Inr (Some c), d')))"

section \<open>The guards\<close>

text \<open>\<open>request.auth\<close> (auth-context.ts).\<close>

record auth_context =
  au_api_key_id :: uuid
  au_role :: api_role
  au_merchant_id :: "uuid option"

definition BEARER_PREFIX :: string where
  "BEARER_PREFIX = ''Bearer ''"

definition api_key_guard :: "(string \<Rightarrow> string) \<Rightarrow> string option \<Rightarrow> db \<Rightarrow> app_error + auth_context" where
  "api_key_guard sha header d =
    (if \<not> truthy header \<or> take (length BEARER_PREFIX) (the header) \<noteq> BEARER_PREFIX
     then Inl (Http_Exception 401
            (''En-t'' @ [CHR 0xEA] @ ''te Authorization: Bearer <cl'' @ [CHR 0xE9] @ ''> obligatoire''))
     else (case validate_api_key sha (drop (length BEARER_PREFIX) (the header)) d of
             None \<Rightarrow> Inl (Http_Exception 401
               (''Cl'' @ [CHR 0xE9] @ '' API invalide, r'' @ [CHR 0xE9] @ ''voqu'' @ [CHR 0xE9]
                 @ ''e ou d'' @ [CHR 0xE9] @ ''sactiv'' @ [CHR 0xE9] @ ''e''))
           | Some k \<Rightarrow> Inr \<lparr>au_api_key_id = k_id k, au_role = k_role k, au_merchant_id = k_merchant_id k\<rparr>))"

text \<open>\<open>Reflector.getAllAndOverride\<close>: the roles of the handler if it has any, else of its class.\<close>

definition required_roles :: "api_role list option \<Rightarrow> api_role list option \<Rightarrow> api_role list option" where
  "required_roles handler class_roles = (case handler of Some rs \<Rightarrow> Some rs | None \<Rightarrow> class_roles)"

fun join_roles :: "api_role list \<Rightarrow> string" where
  "join_roles [] = []"
| "join_roles [r] = role_text r"
| "join_roles (r # q # rs) = role_text r @ '' ou '' @ join_roles (q # rs)"

definition roles_guard :: "api_role list option \<Rightarrow> auth_context option \<Rightarrow> app_error + bool" where
  "roles_guard required auth =
    (case required of
       None \<Rightarrow> Inr True
     | Some rs \<Rightarrow>
        if rs = [] then Inr True
        else if auth = None \<or> au_role (the auth) \<notin> set rs
        then Inl (Http_Exception 403 (''R'' @ [CHR 0xF4] @ ''le requis : '' @ join_roles rs))
        else Inr True)"

text \<open>\<open>@UseGuards(ApiKeyGuard, RolesGuard)\<close> before a handler: who calls, then whether the role may.\<close>

definition guarded ::
    "(string \<Rightarrow> string) \<Rightarrow> api_role list option \<Rightarrow> string option \<Rightarrow> (auth_context \<Rightarrow> db \<Rightarrow> (app_error + 'a) \<times> db)
      \<Rightarrow> db \<Rightarrow> (app_error + 'a) \<times> db" where
  "guarded sha required header handler d =
    (case api_key_guard sha header d of
       Inl e \<Rightarrow> (Inl e, d)
     | Inr auth \<Rightarrow>
        (case roles_guard required (Some auth) of
           Inl e \<Rightarrow> (Inl e, d)
         | Inr _ \<Rightarrow> handler auth d))"

section \<open>api-keys.controller.ts\<close>

definition API_KEYS_ROLES :: "api_role list" where
  "API_KEYS_ROLES = [ADMIN]"

definition post_api_key ::
    "(string \<Rightarrow> string) \<Rightarrow> string option \<Rightarrow> uuid \<Rightarrow> nat list \<Rightarrow> timestamp \<Rightarrow> create_api_key_dto \<Rightarrow> db
      \<Rightarrow> (app_error + created_api_key) \<times> db" where
  "post_api_key sha header kid random_bytes now dto =
    guarded sha (required_roles None (Some API_KEYS_ROLES)) header
      (\<lambda>auth. create_api_key sha kid random_bytes None now dto)"

definition post_revoke ::
    "(string \<Rightarrow> string) \<Rightarrow> string option \<Rightarrow> uuid \<Rightarrow> timestamp \<Rightarrow> db \<Rightarrow> (app_error + unit) \<times> db" where
  "post_revoke sha header kid clock =
    guarded sha (required_roles None (Some API_KEYS_ROLES)) header
      (\<lambda>auth d. case revoke_api_key kid clock d of (Inl e, d') \<Rightarrow> (Inl e, d') | (Inr _, d') \<Rightarrow> (Inr (), d'))"

end
