(* ===== verification/Reconciliation.thy ===== *)
theory Reconciliation
  imports Auth
begin

text \<open>
  src/reconciliation: the service (reconciliation.service.ts), the presenter
  (reconciliation.presenter.ts) and the controller (reconciliation.controller.ts). Late
  acknowledgments are written by \<open>transition\<close> (theory Transition_Service); here the other
  discrepancies are reported and every exception is resolved, once.
\<close>

section \<open>reconciliation.service.ts\<close>

text \<open>\<open>UUID_PATTERN\<close>, case insensitive.\<close>

definition is_hex :: "char \<Rightarrow> bool" where
  "is_hex c \<longleftrightarrow> is_digit c \<or> (97 \<le> char_code c \<and> char_code c \<le> 102) \<or> (65 \<le> char_code c \<and> char_code c \<le> 70)"

definition is_uuid :: "string \<Rightarrow> bool" where
  "is_uuid s \<longleftrightarrow> length s = 36
     \<and> list_all (\<lambda>i. if i \<in> {8, 13, 18, 23} then s ! i = CHR ''-'' else is_hex (s ! i)) [0..<36]"

definition list_exceptions :: "bool \<Rightarrow> db \<Rightarrow> reconciliation_exception list" where
  "list_exceptions onlyUnresolved d =
    sort_key (\<lambda>x. - x_detected_at x)
      (if onlyUnresolved then filter (\<lambda>x. x_resolved_at x = None) (exceptions d) else exceptions d)"

text \<open>
  A Map from key ids to labels. PostgreSQL compares uuids whatever their letter case and prints
  them in lower case.
\<close>

definition resolverLabels :: "reconciliation_exception list \<Rightarrow> db \<Rightarrow> string \<Rightarrow> string option" where
  "resolverLabels xs d =
    (let ids = remdups (filter (\<lambda>v. v \<noteq> [] \<and> is_uuid v)
                 (concat (map (\<lambda>x. case x_resolved_by x of None \<Rightarrow> [] | Some v \<Rightarrow> [v]) xs)))
     in if ids = [] then Map.empty
        else map_of (map (\<lambda>k. (k_id k, k_label k))
               (filter (\<lambda>k. k_id k \<in> to_lower ` set ids) (api_keys d))))"

definition find_exception_or_throw :: "uuid \<Rightarrow> db \<Rightarrow> app_error + reconciliation_exception" where
  "find_exception_or_throw xid d =
    (case lookup_by x_id xid (exceptions d) of
       None \<Rightarrow> Inl (Http_Exception 404 (''Exception de rapprochement '' @ xid @ '' introuvable''))
     | Some x \<Rightarrow> Inr x)"

definition resolve_body ::
    "uuid \<Rightarrow> timestamp \<Rightarrow> string \<Rightarrow> string \<Rightarrow> session \<Rightarrow> db \<Rightarrow> app_error + (reconciliation_exception \<times> db)" where
  "resolve_body xid clock resolvedBy resolution s d =
    update_exception xid
      (\<lambda>x. x\<lparr>x_resolved_at := Some clock, x_resolved_by := Some resolvedBy, x_resolution := Some resolution\<rparr>) d"

definition resolve_exception ::
    "uuid \<Rightarrow> timestamp \<Rightarrow> string \<Rightarrow> string \<Rightarrow> db \<Rightarrow> (app_error + reconciliation_exception) \<times> db" where
  "resolve_exception xid clock resolution resolvedBy d =
    (case find_exception_or_throw xid d of
       Inl e \<Rightarrow> (Inl e, d)
     | Inr x \<Rightarrow>
        if x_resolved_at x \<noteq> None
        then (Inl (Http_Exception 409
               (''Exception de rapprochement '' @ xid @ '' d'' @ [CHR 0xE9] @ ''j'' @ [CHR 0xE0] @ '' r''
                 @ [CHR 0xE9] @ ''solue'')), d)
        else sql_transaction None clock (resolve_body xid clock resolvedBy resolution) d)"

record discrepancy_input =
  di_kind :: reconciliation_kind
  di_transaction_id :: "uuid option"
  di_provider_reference :: "string option"
  di_detail :: string

definition report_body ::
    "uuid \<Rightarrow> discrepancy_input \<Rightarrow> session \<Rightarrow> db \<Rightarrow> app_error + (reconciliation_exception \<times> db)" where
  "report_body xid inp s d =
    insert_exception
      \<lparr>x_id = xid, x_kind = di_kind inp, x_transaction_id = di_transaction_id inp, x_reported_status = None,
       x_provider_reference = di_provider_reference inp, x_detail = Some (di_detail inp),
       x_detected_at = s_now s, x_resolved_at = None, x_resolved_by = None, x_resolution = None\<rparr> d"

definition reportDiscrepancy ::
    "uuid \<Rightarrow> timestamp \<Rightarrow> discrepancy_input \<Rightarrow> db \<Rightarrow> (app_error + reconciliation_exception) \<times> db" where
  "reportDiscrepancy xid now inp d =
    (if di_kind inp = MISSING_LOCALLY \<and> truthy (di_transaction_id inp)
     then (Inl (Http_Exception 400
            (''transactionId n'' @ [CHR 0x27] @ ''a pas de sens pour MISSING_LOCALLY : par d'' @ [CHR 0xE9]
              @ ''finition, aucune transaction locale ne correspond'')), d)
     else if di_kind inp \<noteq> MISSING_LOCALLY \<and> \<not> truthy (di_transaction_id inp)
     then (Inl (Http_Exception 400 (''transactionId est obligatoire pour '' @ kind_text (di_kind inp))), d)
     else sql_transaction None now (report_body xid inp) d)"

section \<open>reconciliation.presenter.ts\<close>

record exception_response =
  er_id :: uuid
  er_kind :: reconciliation_kind
  er_transaction_reference :: "string option"
  er_reported_status :: "transaction_status option"
  er_provider_reference :: "string option"
  er_detail :: "string option"
  er_detected_at :: timestamp
  er_resolved_at :: "timestamp option"
  er_resolved_by :: "string option"
  er_resolved_by_label :: "string option"
  er_resolution :: "string option"

text \<open>\<open>include: { transaction: { select: { reference: true } } }\<close> joins the reference.\<close>

definition joined_reference :: "reconciliation_exception \<Rightarrow> db \<Rightarrow> string option" where
  "joined_reference x d =
    (case x_transaction_id x of None \<Rightarrow> None
     | Some tid \<Rightarrow> map_option t_reference (lookup_by t_id tid (transactions d)))"

definition toReconciliationExceptionResponse ::
    "db \<Rightarrow> (string \<Rightarrow> string option) \<Rightarrow> reconciliation_exception \<Rightarrow> exception_response" where
  "toReconciliationExceptionResponse d labels x =
    \<lparr>er_id = x_id x, er_kind = x_kind x, er_transaction_reference = joined_reference x d,
     er_reported_status = x_reported_status x, er_provider_reference = x_provider_reference x,
     er_detail = x_detail x, er_detected_at = x_detected_at x, er_resolved_at = x_resolved_at x,
     er_resolved_by = x_resolved_by x,
     er_resolved_by_label = (if truthy (x_resolved_by x) then labels (the (x_resolved_by x)) else None),
     er_resolution = x_resolution x\<rparr>"

section \<open>reconciliation.controller.ts\<close>

definition RECONCILIATION_ROLES :: "api_role list" where
  "RECONCILIATION_ROLES = [ANALYST, ADMIN]"

text \<open>The checks of resolve-reconciliation-exception.dto.ts: \<open>/\S/\<close> and the maximal length.\<close>

definition valid_resolution :: "string \<Rightarrow> bool" where
  "valid_resolution r \<longleftrightarrow> length r \<le> 2000 \<and> list_ex (\<lambda>c. \<not> is_js_space c) r"

definition get_exceptions ::
    "(string \<Rightarrow> string) \<Rightarrow> string option \<Rightarrow> string option \<Rightarrow> db \<Rightarrow> (app_error + exception_response list) \<times> db" where
  "get_exceptions sha header onlyUnresolved =
    guarded sha (required_roles None (Some RECONCILIATION_ROLES)) header
      (\<lambda>auth d. let xs = list_exceptions (onlyUnresolved = Some ''true'') d in
         (Inr (map (toReconciliationExceptionResponse d (resolverLabels xs d)) xs), d))"

definition get_exception ::
    "(string \<Rightarrow> string) \<Rightarrow> string option \<Rightarrow> uuid \<Rightarrow> db \<Rightarrow> (app_error + exception_response) \<times> db" where
  "get_exception sha header xid =
    guarded sha (required_roles None (Some RECONCILIATION_ROLES)) header
      (\<lambda>auth d. (andThen (find_exception_or_throw xid d) (\<lambda>x.
         Inr (toReconciliationExceptionResponse d (resolverLabels [x] d) x)), d))"

definition patch_resolve ::
    "(string \<Rightarrow> string) \<Rightarrow> string option \<Rightarrow> uuid \<Rightarrow> timestamp \<Rightarrow> string \<Rightarrow> db
      \<Rightarrow> (app_error + exception_response) \<times> db" where
  "patch_resolve sha header xid clock resolution =
    guarded sha (required_roles None (Some RECONCILIATION_ROLES)) header
      (\<lambda>auth d. case resolve_exception xid clock resolution (au_api_key_id auth) d of
           (Inl e, d') \<Rightarrow> (Inl e, d')
         | (Inr x, d') \<Rightarrow> (Inr (toReconciliationExceptionResponse d' (resolverLabels [x] d') x), d'))"

end
