(* ===== verification/Operations.thy ===== *)
theory Operations
  imports Ledger Payments Expiration Reconciliation
begin

text \<open>
  Every SQL transaction the services open is a sequence of statements: the locale \<open>sql_body\<close> is
  interpreted on each of them, so each keeps the tables, the ledger and the evolution of rows.
\<close>

section \<open>Bookings are sequences of statements\<close>

lemma insert_postings_stmts: "insert_postings s ps d = Inr d' \<Longrightarrow> stmts s d d'"
  unfolding insert_postings_def
proof (induction ps arbitrary: d)
  case Nil
  then show ?case by (simp add: stmts_refl)
next
  case (Cons p ps)
  then show ?case by (auto simp: result_simps intro: stmts_Cons [OF ins_posting])
qed

lemma expire_rows_stmts: "expire_rows s ids d = Inr d' \<Longrightarrow> stmts s d d'"
  unfolding expire_rows_def
proof (induction ids arbitrary: d)
  case Nil
  then show ?case by (simp add: stmts_refl)
next
  case (Cons i ids)
  then show ?case by (auto simp: result_simps intro: stmts_Cons [OF upd_transaction])
qed

lemma bookPaymentSuccess_stmts:
  assumes "bookPaymentSuccess s eid t d = Inr d'"
  shows "stmts s d d'"
proof -
  obtain e d1 ps descr tid where "insert_entry s eid descr tid None d = Inr (e, d1)" "insert_postings s ps d1 = Inr d'"
    using assms unfolding bookPaymentSuccess_def Let_def by (auto simp: result_simps)
  then show ?thesis by (blast intro: stmts_Cons ins_entry insert_postings_stmts)
qed

lemma bookRefundSuccess_stmts:
  assumes "bookRefundSuccess s eid t d = Inr d'"
  shows "stmts s d d'"
proof -
  obtain i f r d1 e d2 ps descr tid where "update_transaction s i f d = Inr (r, d1)"
    "insert_entry s eid descr tid None d1 = Inr (e, d2)" "insert_postings s ps d2 = Inr d'"
    using assms unfolding bookRefundSuccess_def Let_def by (auto simp: result_simps split: if_splits)
  then show ?thesis by (blast intro: stmts_Cons upd_transaction ins_entry insert_postings_stmts)
qed

lemma bookDisputeReversal_stmts:
  assumes "bookDisputeReversal s eid t d = Inr (r, d')"
  shows "stmts s d d'"
proof -
  obtain i f d1 e d2 ps descr tid where "update_transaction s i f d = Inr (r, d1)"
    "insert_entry s eid descr tid None d1 = Inr (e, d2)" "insert_postings s ps d2 = Inr d'"
    using assms unfolding bookDisputeReversal_def Let_def by (auto simp: result_simps split: if_splits)
  then show ?thesis by (blast intro: stmts_Cons upd_transaction ins_entry insert_postings_stmts)
qed

section \<open>The bodies of the services\<close>

interpretation merchant_tx: sql_body "create_merchant_body mid aid dto" for mid aid dto
proof unfold_locales
  fix s d x d' assume "create_merchant_body mid aid dto s d = Inr (x, d')"
  then show "stmts s d d'"
    unfolding create_merchant_body_def
    by (auto simp: result_simps intro: stmts_Cons [OF ins_merchant] stmts_single [OF ins_account])
qed

interpretation payment_tx: sql_body "create_payment_body sha config inp dto key mid" for sha config inp dto key mid
proof unfold_locales
  fix s d x d' assume "create_payment_body sha config inp dto key mid s d = Inr (x, d')"
  then show "stmts s d d'"
    unfolding create_payment_body_def by (auto simp: result_simps intro: stmts_single [OF ins_transaction])
qed

interpretation refund_tx: sql_body "create_refund_body sha config inp ref parent dto key"
  for sha config inp ref parent dto key
proof unfold_locales
  fix s d x d' assume "create_refund_body sha config inp ref parent dto key s d = Inr (x, d')"
  then show "stmts s d d'"
    unfolding create_refund_body_def by (auto simp: result_simps intro: stmts_single [OF ins_transaction])
qed

lemma transition_body_stmts:
  assumes "transition_body eid xid ref dto v s d = Inr (x, d')"
  shows "stmts s d d'"
  using assms
proof (cases rule: transition_body_Inr)
  case (late row exn)
  show ?thesis by (rule stmts_single [OF ins_exception [OF late(6)]])
next
  case (updated row u d1 d2 u')
  have "stmts s d1 d2"
    using updated(6) by (auto split: if_splits dest: bookPaymentSuccess_stmts bookRefundSuccess_stmts intro: stmts_refl)
  moreover have "stmts s d2 d'"
    using updated(7) by (auto split: if_splits dest: bookDisputeReversal_stmts intro: stmts_refl)
  ultimately show ?thesis
    using stmts_Cons [OF upd_transaction [OF updated(5)]] stmts_trans by blast
qed

interpretation transition_tx: sql_body "transition_body eid xid ref dto v" for eid xid ref dto v
  by unfold_locales (rule transition_body_stmts)

interpretation expire_tx: sql_body "expire_one_batch_body clock locked" for clock locked
proof unfold_locales
  fix s d x d' assume "expire_one_batch_body clock locked s d = Inr (x, d')"
  then show "stmts s d d'"
    unfolding expire_one_batch_body_def Let_def
    by (auto simp: result_simps split: if_splits intro: stmts_refl dest: expire_rows_stmts)
qed

interpretation key_tx: sql_body "create_key_body sha kid dto rawKey" for sha kid dto rawKey
  by unfold_locales (auto simp: create_key_body_def intro: stmts_single [OF ins_key])

interpretation revoke_tx: sql_body "revoke_body kid clock" for kid clock
  by unfold_locales (auto simp: revoke_body_def intro: stmts_single [OF upd_key])

interpretation resolve_tx: sql_body "resolve_body xid clock who resolution" for xid clock who resolution
  by unfold_locales (auto simp: resolve_body_def intro: stmts_single [OF upd_exception])

interpretation load_tx: sql_body "\<lambda>s. insert_load s started" for started
  by unfold_locales (auto intro: stmts_single [OF ins_load])

interpretation report_tx: sql_body "report_body xid inp" for xid inp
  by unfold_locales (auto simp: report_body_def intro: stmts_single [OF ins_exception])

end
