(* ===== verification/Booked_Lines.thy ===== *)
theory Booked_Lines
  imports Operations
begin

text \<open>
  What the three bookings write: one entry of their SQL transaction whose lines are a list of
  (account code, direction, amount). The locale \<open>booking_scheme\<close> is their common contract (at
  least two lines, positive amounts, debit equal to credit); its consequences are the check at
  COMMIT and the effect on the balance of every account.
\<close>

section \<open>Account codes\<close>

lemma clearingCode_simps:
  "clearingCode ORANGE_MONEY = ''provider:orange_money:clearing''"
  "clearingCode MTN_MOMO = ''provider:mtn_momo:clearing''"
  "clearingCode WAVE = ''provider:wave:clearing''"
  "clearingCode MOOV_MONEY = ''provider:moov_money:clearing''"
  by (code_simp)+

lemma clearingCode_inject [simp]: "clearingCode p = clearingCode q \<longleftrightarrow> p = q"
  by (cases p; cases q) (simp_all add: clearingCode_simps)

lemma code_families_distinct [simp]:
  "clearingCode p \<noteq> merchantPayableAccountCode m" "merchantPayableAccountCode m \<noteq> clearingCode p"
  "clearingCode p \<noteq> FEES_CODE" "FEES_CODE \<noteq> clearingCode p"
  "merchantPayableAccountCode m \<noteq> FEES_CODE" "FEES_CODE \<noteq> merchantPayableAccountCode m"
  by (simp_all add: clearingCode_def merchantPayableAccountCode_def FEES_CODE_def)

lemma lookup_by_filter:
  "(\<And>r. r \<in> set rows \<Longrightarrow> key r = k \<Longrightarrow> P r) \<Longrightarrow> lookup_by key k (filter P rows) = lookup_by key k rows"
  by (induction rows) (auto simp: lookup_by_Cons)

lemma idOf_found:
  assumes "code \<in> set codes"
  shows "idOf (findAccounts codes d) code = Inr i \<longleftrightarrow> (\<exists>a. lookup_by a_code code (accounts d) = Some a \<and> i = a_id a)"
proof -
  have "lookup_by a_code code (findAccounts codes d) = lookup_by a_code code (accounts d)"
    unfolding findAccounts_def using assms by (intro lookup_by_filter) simp
  then show ?thesis by (auto simp: idOf_def split: option.splits)
qed

section \<open>Balances\<close>

definition account_net :: "uuid \<Rightarrow> ledger_posting list \<Rightarrow> int" where
  "account_net aid ps = net_debit (filter (\<lambda>p. p_account_id p = aid) ps)"

definition account_balance :: "string \<Rightarrow> db \<Rightarrow> int" where
  "account_balance code d =
    (case lookup_by a_code code (accounts d) of None \<Rightarrow> 0 | Some a \<Rightarrow> account_net (a_id a) (postings d))"

type_synonym line = "string \<times> entry_direction \<times> int"

fun line_amount :: "line \<Rightarrow> int" where
  "line_amount (code, DEBIT, a) = a"
| "line_amount (code, CREDIT, a) = - a"

definition code_effect :: "string \<Rightarrow> line list \<Rightarrow> int" where
  "code_effect code ls = sum_list (map (\<lambda>l. if fst l = code then line_amount l else 0) ls)"

lemma code_effect_simps [simp]:
  "code_effect code [] = 0"
  "code_effect code (l # ls) = (if fst l = code then line_amount l else 0) + code_effect code ls"
  "code_effect code (ls @ ks) = code_effect code ls + code_effect code ks"
  by (simp_all add: code_effect_def)

text \<open>\<open>writes_lines\<close>: the postings are those lines, on the accounts with those codes.\<close>

definition writes_line :: "ledger_account list \<Rightarrow> uuid \<Rightarrow> string \<Rightarrow> line \<Rightarrow> ledger_posting \<Rightarrow> bool" where
  "writes_line accs eid cur l p \<longleftrightarrow>
     (\<exists>a. lookup_by a_code (fst l) accs = Some a \<and> p = posting eid (a_id a) (fst (snd l)) (snd (snd l)) cur)"

definition books_entry :: "db \<Rightarrow> uuid \<Rightarrow> uuid \<Rightarrow> string \<Rightarrow> line list \<Rightarrow> db \<Rightarrow> bool" where
  "books_entry d eid tid cur ls d' \<longleftrightarrow>
     (\<exists>e ps. d' = d\<lparr>entries := entries d @ [e], postings := postings d @ ps,
                    deferred := deferred d @ eid # map p_entry_id ps\<rparr>
        \<and> e_id e = eid \<and> e_transaction_id e = Some tid \<and> e_reverses_entry_id e = None
        \<and> eid \<notin> e_id ` set (entries d)
        \<and> list_all2 (writes_line (accounts d) eid cur) ls ps)"

lemma insert_postings_InrD:
  "insert_postings s ps d = Inr d' \<Longrightarrow>
    d' = d\<lparr>postings := postings d @ ps, deferred := deferred d @ map p_entry_id ps\<rparr>"
proof (induction ps arbitrary: d)
  case Nil
  then show ?case by (simp add: insert_postings_def)
next
  case (Cons p ps)
  from Cons.prems obtain d1 where d1: "insert_posting s p d = Inr d1" "insert_postings s ps d1 = Inr d'"
    by (auto simp: insert_postings_def result_simps)
  have "d1 = d\<lparr>postings := postings d @ [p], deferred := deferred d @ [p_entry_id p]\<rparr>"
    using insert_posting_InrD [OF d1(1)] by blast
  with Cons.IH [OF d1(2)] show ?case by simp
qed

lemma books_entryI:
  assumes "insert_entry s eid descr (Some tid) None d = Inr (e, d1)" "insert_postings s ps d1 = Inr d'"
    "list_all2 (writes_line (accounts d) eid cur) ls ps"
  shows "books_entry d eid tid cur ls d'"
  unfolding books_entry_def
  by (rule exI [of _ e], rule exI [of _ ps])
     (use insert_entry_InrD [OF assms(1)] insert_postings_InrD [OF assms(2)] assms(3) in simp)

lemma books_entry_keeps:
  assumes "books_entry d eid tid cur ls d'"
  shows "transactions d' = transactions d" "accounts d' = accounts d" "merchants d' = merchants d"
    "history d' = history d" "api_keys d' = api_keys d" "exceptions d' = exceptions d" "loads d' = loads d"
  using assms by (auto simp: books_entry_def)

text \<open>The effect of lines on the balance of an account, when account ids are unique.\<close>

lemma account_net_lines:
  assumes "distinct (map a_id accs)" "list_all2 (writes_line accs eid cur) ls ps"
    "lookup_by a_code code accs = Some a"
  shows "account_net (a_id a) ps = code_effect code ls"
  using assms(2)
proof (induction rule: list_all2_induct)
  case Nil
  then show ?case by (simp add: account_net_def)
next
  case (Cons l ls p ps)
  obtain b where b: "lookup_by a_code (fst l) accs = Some b"
    "p = posting eid (a_id b) (fst (snd l)) (snd (snd l)) cur"
    using Cons.hyps(1) by (auto simp: writes_line_def)
  have "a_id b = a_id a \<longleftrightarrow> fst l = code"
  proof
    assume "a_id b = a_id a"
    moreover have "b \<in> set accs" "a \<in> set accs" using lookup_by_in b(1) assms(3) by fast+
    ultimately have "b = a" using assms(1) by (simp add: distinct_map inj_on_def)
    then show "fst l = code" using lookup_by_key [OF b(1)] lookup_by_key [OF assms(3)] by simp
  qed (use b(1) assms(3) in simp)
  moreover have "signed_amount p = line_amount l"
    unfolding b(2) by (cases l rule: line_amount.cases) simp_all
  moreover have "p_account_id p = a_id b" using b(2) by (simp add: posting_def)
  ultimately show ?case using Cons.IH by (simp add: account_net_def)
qed

lemma account_net_append [simp]: "account_net aid (ps @ qs) = account_net aid ps + account_net aid qs"
  by (simp add: account_net_def)

lemma balance_after_booking:
  assumes "books_entry d eid tid cur ls d'" "distinct (map a_id (accounts d))"
    "lookup_by a_code code (accounts d) \<noteq> None"
  shows "account_balance code d' = account_balance code d + code_effect code ls"
proof -
  obtain a where a: "lookup_by a_code code (accounts d) = Some a" using assms(3) by auto
  obtain e ps where ps: "postings d' = postings d @ ps" "list_all2 (writes_line (accounts d) eid cur) ls ps"
    "accounts d' = accounts d" using assms(1) by (auto simp: books_entry_def)
  show ?thesis
    using account_net_lines [OF assms(2) ps(2) a] a ps(1,3) by (simp add: account_balance_def)
qed

section \<open>The contract of a booking\<close>

locale booking_scheme =
  fixes lines :: "'a \<Rightarrow> line list"
    and applies :: "'a \<Rightarrow> bool"
  assumes two_lines: "applies x \<Longrightarrow> 2 \<le> length (lines x)"
    and positive: "applies x \<Longrightarrow> l \<in> set (lines x) \<Longrightarrow> 0 < snd (snd l)"
    and balanced: "applies x \<Longrightarrow> sum_list (map line_amount (lines x)) = 0"
begin

text \<open>An entry with such lines passes \<open>fn_assert_entry_valid\<close> at COMMIT.\<close>

lemma entry_valid:
  assumes "applies x" "books_entry d eid tid cur (lines x) d'" "eid \<notin> p_entry_id ` set (postings d)"
  shows "assert_entry_valid d' eid = Inr ()"
proof -
  obtain e ps where ps: "entries d' = entries d @ [e]" "e_id e = eid" "e_reverses_entry_id e = None"
    "eid \<notin> e_id ` set (entries d)" "postings d' = postings d @ ps"
    "list_all2 (writes_line (accounts d) eid cur) (lines x) ps"
    using assms(2) by (auto simp: books_entry_def)
  have line: "list_all2 (writes_line accs eid cur) ls qs \<Longrightarrow> (\<forall>p \<in> set qs. p_entry_id p = eid \<and> p_currency p = cur)
      \<and> net_debit qs = sum_list (map line_amount ls) \<and> length qs = length ls" for accs ls qs
  proof (induction rule: list_all2_induct)
    case Nil
    then show ?case by simp
  next
    case (Cons l ls p ps)
    have "signed_amount p = line_amount l"
      using Cons.hyps(1) by (cases l rule: line_amount.cases) (auto simp: writes_line_def)
    then show ?case using Cons by (auto simp: writes_line_def posting_def)
  qed
  have "filter (\<lambda>p. p_entry_id p = eid) (postings d) = []"
    using assms(3) by (auto simp: filter_empty_conv)
  then have own: "lines_of eid d' = ps"
    using line [OF ps(6)] ps(5) by (simp add: lines_of_def)
  have "net_debit ps = 0" "2 \<le> length ps" and cur: "\<forall>p \<in> set ps. p_currency p = cur"
    using line [OF ps(6)] balanced [OF assms(1)] two_lines [OF assms(1)] by auto
  moreover have "set (map p_currency ps) = {cur}"
    using cur \<open>2 \<le> length ps\<close> by (cases ps) auto
  then have "length (remdups (map p_currency ps)) = 1" by (simp add: length_remdups_card_conv)
  moreover have "lookup_by e_id eid (entries d') = Some e"
    using ps(1,2,4) lookup_by_eq_None [of e_id eid "entries d"] by (auto simp: table_simps split: option.splits)
  ultimately show ?thesis
    using own ps(3) by (simp add: assert_entry_valid_def result_simps net_debit_totals)
qed

end

section \<open>The lines of the three bookings\<close>

definition payment_lines :: "transaction \<times> merchant \<Rightarrow> line list" where
  "payment_lines = (\<lambda>(t, m).
    [(clearingCode (t_provider t), DEBIT, t_amount t),
     (merchantPayableAccountCode (m_code m), CREDIT, t_amount t - computeCommission (t_amount t))]
    @ (if 0 < computeCommission (t_amount t) then [(FEES_CODE, CREDIT, computeCommission (t_amount t))] else []))"

definition payback_lines :: "(transaction \<times> merchant) \<times> int \<Rightarrow> line list" where
  "payback_lines = (\<lambda>((t, m), amount).
    [(merchantPayableAccountCode (m_code m), DEBIT, amount), (clearingCode (t_provider t), CREDIT, amount)])"

lemma computeCommission_nonneg: "0 \<le> a \<Longrightarrow> computeCommission a = a * 15 div 1000"
  by (simp add: computeCommission_def bigint_div_nonneg)

lemma commission_bounds:
  assumes "0 < a"
  shows "0 \<le> computeCommission a \<and> computeCommission a < a"
proof -
  have "a * 15 div 1000 * 1000 + a * 15 mod 1000 = a * 15" by (rule div_mult_mod_eq)
  moreover have "0 \<le> a * 15 mod 1000" "0 \<le> a * 15 div 1000"
    using assms by (simp_all add: pos_imp_zdiv_nonneg_iff)
  moreover have "computeCommission a = a * 15 div 1000" using assms by (simp add: computeCommission_nonneg)
  ultimately show ?thesis using assms by linarith
qed

interpretation payment_booking: booking_scheme payment_lines "\<lambda>(t, m). 0 < t_amount t"
proof unfold_locales
  fix x :: "transaction \<times> merchant" and l
  assume "case x of (t, m) \<Rightarrow> 0 < t_amount t"
  then obtain t m where x: "x = (t, m)" "0 < t_amount t" by (cases x) simp
  show "2 \<le> length (payment_lines x)" by (simp add: x payment_lines_def)
  show "l \<in> set (payment_lines x) \<Longrightarrow> 0 < snd (snd l)"
    using commission_bounds [OF x(2)] by (auto simp: x payment_lines_def split: if_splits)
  show "sum_list (map line_amount (payment_lines x)) = 0"
    using commission_bounds [OF x(2)] by (simp add: x payment_lines_def)
qed

interpretation payback_booking: booking_scheme payback_lines "\<lambda>(tm, amount). 0 < amount"
  by unfold_locales (auto simp: payback_lines_def)

text \<open>Each booking writes its lines (a refund and a lost dispute after updating the payment).\<close>

lemma bookPaymentSuccess_books:
  assumes "bookPaymentSuccess s eid t d = Inr d'"
  obtains m where "lookup_by m_id (t_merchant_id t) (merchants d) = Some m"
    "books_entry d eid (t_id t) (t_currency t) (payment_lines (t, m)) d'"
    "\<And>l. l \<in> set (payment_lines (t, m)) \<Longrightarrow> lookup_by a_code (fst l) (accounts d) \<noteq> None"
proof -
  let ?codes = "\<lambda>m. [clearingCode (t_provider t), merchantPayableAccountCode (m_code m), FEES_CODE]"
  let ?c = "computeCommission (t_amount t)"
  obtain m e d1 ci pay_id fees where m: "lookup_by m_id (t_merchant_id t) (merchants d) = Some m"
    and e: "insert_entry s eid (''Paiement '' @ t_reference t) (Some (t_id t)) None d = Inr (e, d1)"
    and ids: "idOf (findAccounts (?codes m) d) (clearingCode (t_provider t)) = Inr ci"
      "idOf (findAccounts (?codes m) d) (merchantPayableAccountCode (m_code m)) = Inr pay_id"
    and fees: "(if 0 < ?c then andThen (idOf (findAccounts (?codes m) d) FEES_CODE) (\<lambda>fees_id.
              Inr [posting (e_id e) fees_id CREDIT ?c (t_currency t)]) else Inr []) = Inr fees"
    and ps: "insert_postings s
      ([posting (e_id e) ci DEBIT (t_amount t) (t_currency t),
        posting (e_id e) pay_id CREDIT (t_amount t - ?c) (t_currency t)] @ fees) d1 = Inr d'"
    using assms unfolding bookPaymentSuccess_def Let_def findMerchantOrThrow_def
    by (auto simp only: result_simps split_paired_Ex prod.case)
  have eid: "e_id e = eid" using insert_entry_InrD [OF e] by simp
  have fee_lines: "list_all2 (writes_line (accounts d) eid (t_currency t))
      (if 0 < ?c then [(FEES_CODE, CREDIT, ?c)] else []) fees"
    using fees by (auto simp: result_simps idOf_found writes_line_def eid split: if_splits)
  then have "list_all2 (writes_line (accounts d) eid (t_currency t)) (payment_lines (t, m))
      ([posting (e_id e) ci DEBIT (t_amount t) (t_currency t),
        posting (e_id e) pay_id CREDIT (t_amount t - ?c) (t_currency t)] @ fees)"
    unfolding payment_lines_def prod.case
    using ids by (intro list_all2_appendI) (auto simp: idOf_found writes_line_def eid)
  then have books: "books_entry d eid (t_id t) (t_currency t) (payment_lines (t, m)) d'"
    and "\<And>l. l \<in> set (payment_lines (t, m)) \<Longrightarrow> lookup_by a_code (fst l) (accounts d) \<noteq> None"
    using books_entryI [OF e ps] by (auto simp: list_all2_conv_all_nth in_set_conv_nth writes_line_def)
  then show thesis using that m by blast
qed

lemma payback_books:
  assumes "insert_entry s eid descr (Some (t_id t)) None d = Inr (e, d1)"
    "idOf (findAccounts [clearingCode (t_provider t), merchantPayableAccountCode (m_code m)] d)
       (merchantPayableAccountCode (m_code m)) = Inr pay_id"
    "idOf (findAccounts [clearingCode (t_provider t), merchantPayableAccountCode (m_code m)] d)
       (clearingCode (t_provider t)) = Inr ci"
    "insert_postings s [posting (e_id e) pay_id DEBIT amount (t_currency t),
       posting (e_id e) ci CREDIT amount (t_currency t)] d1 = Inr d'"
  shows "books_entry d eid (t_id t) (t_currency t) (payback_lines ((t, m), amount)) d'"
    "l \<in> set (payback_lines ((t, m), amount)) \<Longrightarrow> lookup_by a_code (fst l) (accounts d) \<noteq> None"
proof -
  have eid: "e_id e = eid" using insert_entry_InrD [OF assms(1)] by simp
  have "list_all2 (writes_line (accounts d) eid (t_currency t)) (payback_lines ((t, m), amount))
     [posting (e_id e) pay_id DEBIT amount (t_currency t), posting (e_id e) ci CREDIT amount (t_currency t)]"
    using assms(2,3) by (auto simp: payback_lines_def idOf_found writes_line_def eid)
  then show "books_entry d eid (t_id t) (t_currency t) (payback_lines ((t, m), amount)) d'"
    using books_entryI [OF assms(1,4)] by blast
  show "l \<in> set (payback_lines ((t, m), amount)) \<Longrightarrow> lookup_by a_code (fst l) (accounts d) \<noteq> None"
    using assms(2,3) by (auto simp: payback_lines_def idOf_found)
qed

lemma bookRefundSuccess_books:
  assumes "bookRefundSuccess s eid refund d = Inr d'"
  obtains parent parent' m d1 where
    "t_parent_transaction_id refund = Some (t_id parent)"
    "lookup_by t_id (t_id parent) (transactions d) = Some parent"
    "t_refunded_amount parent + t_amount refund \<le> t_amount parent"
    "update_transaction s (t_id parent)
       (\<lambda>t. t\<lparr>t_refunded_amount := t_refunded_amount parent + t_amount refund,
             t_status := (if t_refunded_amount parent + t_amount refund = t_amount parent
                          then REFUNDED else PARTIALLY_REFUNDED)\<rparr>) d = Inr (parent', d1)"
    "lookup_by m_id (t_merchant_id refund) (merchants d1) = Some m"
    "books_entry d1 eid (t_id refund) (t_currency refund) (payback_lines ((refund, m), t_amount refund)) d'"
    "\<And>l. l \<in> set (payback_lines ((refund, m), t_amount refund)) \<Longrightarrow> lookup_by a_code (fst l) (accounts d1) \<noteq> None"
proof -
  obtain pid parent where p: "t_parent_transaction_id refund = Some pid"
    "lookup_by t_id pid (transactions d) = Some parent"
    using assms unfolding bookRefundSuccess_def by (auto simp only: result_simps)
  have pid: "pid = t_id parent" using lookup_by_key [OF p(2)] by simp
  have room: "\<not> t_amount parent < t_refunded_amount parent + t_amount refund"
    using assms p by (auto simp: bookRefundSuccess_def Let_def)
  note run = assms [unfolded bookRefundSuccess_def p(1) result_of_option_simps andThen_simps p(2) Let_def
      if_not_P [OF room] findMerchantOrThrow_def]
  from run show thesis
    by (auto simp only: result_simps split_paired_Ex prod.case)
       (rule that [OF p(1) [unfolded pid] p(2) [unfolded pid] room [unfolded not_less]],
        auto intro: payback_books dest: payback_books(2))
qed

lemma bookDisputeReversal_books:
  assumes "bookDisputeReversal s eid t d = Inr (r, d')"
  obtains m d1 where
    "t_refunded_amount t < t_amount t"
    "update_transaction s (t_id t) (\<lambda>x. x\<lparr>t_refunded_amount := t_amount t\<rparr>) d = Inr (r, d1)"
    "lookup_by m_id (t_merchant_id t) (merchants d1) = Some m"
    "books_entry d1 eid (t_id t) (t_currency t) (payback_lines ((t, m), t_amount t - t_refunded_amount t)) d'"
    "\<And>l. l \<in> set (payback_lines ((t, m), t_amount t - t_refunded_amount t))
      \<Longrightarrow> lookup_by a_code (fst l) (accounts d1) \<noteq> None"
proof -
  have left: "\<not> t_amount t - t_refunded_amount t \<le> 0"
    using assms by (auto simp: bookDisputeReversal_def Let_def)
  note run = assms [unfolded bookDisputeReversal_def Let_def if_not_P [OF left] findMerchantOrThrow_def]
  from run show thesis
    by (auto simp only: result_simps split_paired_Ex prod.case sum.inject prod.inject)
       (rule that, use left in simp, auto intro: payback_books dest: payback_books(2))
qed

end
