(* ===== verification/Accounting.thy ===== *)
theory Accounting
  imports Booked_Lines
begin

text \<open>
  The accounting meaning of the transactions table, and that the ledger agrees with it: the
  clearing account of each operator holds what the operator owes for the payments it confirmed,
  less what was given back; the payable account of each merchant what the platform owes the
  merchant; the fees account the commissions. \<open>books_ok\<close> is the abstraction relation between the
  two halves of the database, and the services are simulated by it.
\<close>

section \<open>What a payment is worth\<close>

definition booked :: "transaction_status \<Rightarrow> bool" where
  "booked st \<longleftrightarrow> st \<in> {SUCCEEDED, PARTIALLY_REFUNDED, REFUNDED, DISPUTED, REVERSED}"

definition outstanding :: "transaction \<Rightarrow> int" where
  "outstanding t =
    (if t_type t = PAYMENT \<and> booked (t_status t) then t_amount t - t_refunded_amount t else 0)"

definition commission_of :: "transaction \<Rightarrow> int" where
  "commission_of t =
    (if t_type t = PAYMENT \<and> booked (t_status t) then computeCommission (t_amount t) else 0)"

definition total :: "(transaction \<Rightarrow> int) \<Rightarrow> db \<Rightarrow> int" where
  "total g d = sum_list (map g (transactions d))"

definition owed_by :: "provider \<Rightarrow> transaction \<Rightarrow> int" where
  "owed_by p t = (if t_provider t = p then outstanding t else 0)"

definition owed_to :: "uuid \<Rightarrow> transaction \<Rightarrow> int" where
  "owed_to mid t = (if t_merchant_id t = mid then outstanding t - commission_of t else 0)"

definition refunded_by :: "uuid \<Rightarrow> transaction \<Rightarrow> int" where
  "refunded_by pid r =
    (if t_type r = REFUND \<and> t_parent_transaction_id r = Some pid \<and> t_status r = SUCCEEDED
     then t_amount r else 0)"

definition books_ok :: "db \<Rightarrow> bool" where
  "books_ok d \<longleftrightarrow>
     (\<forall>p. account_balance (clearingCode p) d = total (owed_by p) d)
   \<and> (\<forall>m \<in> set (merchants d).
        account_balance (merchantPayableAccountCode (m_code m)) d = - total (owed_to (m_id m)) d)
   \<and> account_balance FEES_CODE d = - total commission_of d"

text \<open>A refund is of a payment of the same merchant, operator and currency.\<close>

definition refund_parents_ok :: "db \<Rightarrow> bool" where
  "refund_parents_ok d \<longleftrightarrow>
     (\<forall>r \<in> set (transactions d). t_type r = REFUND \<longrightarrow>
        (\<exists>parent \<in> set (transactions d). t_parent_transaction_id r = Some (t_id parent)
           \<and> t_type parent = PAYMENT \<and> t_merchant_id parent = t_merchant_id r
           \<and> t_provider parent = t_provider r \<and> t_currency parent = t_currency r))"

text \<open>
  What a payment records as refunded is the sum of its confirmed refunds; a lost dispute
  (REVERSED) takes back the rest of the payment besides.
\<close>

definition refunded_ok :: "db \<Rightarrow> bool" where
  "refunded_ok d \<longleftrightarrow>
     (\<forall>t \<in> set (transactions d). t_type t = PAYMENT \<longrightarrow>
        (if t_status t = REVERSED
         then t_refunded_amount t = t_amount t \<and> total (refunded_by (t_id t)) d \<le> t_amount t
         else t_refunded_amount t = total (refunded_by (t_id t)) d))"

text \<open>Every account is kept in francs: no service opens one in another currency.\<close>

definition accounts_xof :: "db \<Rightarrow> bool" where
  "accounts_xof d \<longleftrightarrow> (\<forall>a \<in> set (accounts d). a_currency a = DEFAULT_CURRENCY)"

definition accounting_ok :: "db \<Rightarrow> bool" where
  "accounting_ok d \<longleftrightarrow> books_ok d \<and> refund_parents_ok d \<and> refunded_ok d \<and> accounts_xof d"

lemma account_balance_cong:
  "accounts d' = accounts d \<Longrightarrow> postings d' = postings d \<Longrightarrow> account_balance c d' = account_balance c d"
  unfolding account_balance_def by metis

lemma accounting_ok_cong:
  assumes "transactions d' = transactions d" "postings d' = postings d" "accounts d' = accounts d"
    "merchants d' = merchants d" "accounting_ok d"
  shows "accounting_ok d'"
proof -
  have "total g d' = total g d" for g using assms(1) by (simp add: total_def)
  moreover have "account_balance c d' = account_balance c d" for c
    using assms(3,2) by (rule account_balance_cong)
  ultimately show ?thesis
    using assms(1,3,4,5) by (simp add: accounting_ok_def books_ok_def refund_parents_ok_def refunded_ok_def accounts_xof_def)
qed

lemma rows_part_cong:
  assumes "transactions d' = transactions d"
  shows "refunded_ok d' = refunded_ok d" "refund_parents_ok d' = refund_parents_ok d"
proof -
  have totals: "total g d' = total g d" for g using assms by (simp add: total_def)
  show "refunded_ok d' = refunded_ok d" unfolding refunded_ok_def totals assms ..
  show "refund_parents_ok d' = refund_parents_ok d" unfolding refund_parents_ok_def assms ..
qed

section \<open>Changing a row\<close>

lemma total_append: "transactions d' = transactions d @ [r] \<Longrightarrow> total g d' = total g d + g r"
  by (simp add: total_def)

lemma total_update:
  assumes "keys_ok d" "lookup_by t_id i (transactions d) = Some old"
    "transactions d' = replace_by t_id i r (transactions d)" "t_id r = i"
  shows "total g d' = total g d + g r - g old"
  using assms sum_list_replace_by [OF keys_okD(1) [OF assms(1)] assms(2,4)] by (simp add: total_def)

text \<open>What the accounting reads of a successful UPDATE of \<open>transactions\<close>.\<close>

lemma update_transaction_facts:
  assumes "update_transaction s i f d = Inr (r, d')"
  obtains old where "lookup_by t_id i (transactions d) = Some old" "old \<in> set (transactions d)"
    "t_id old = i" "frozen_columns_kept old r" "t_id r = i"
    "r = (f old)\<lparr>t_version := t_version old + 1, t_updated_at := s_now s\<rparr>"
    "transactions d' = replace_by t_id i r (transactions d)" "postings d' = postings d"
    "accounts d' = accounts d" "merchants d' = merchants d" "entries d' = entries d"
    "t_status r = t_status old \<or> allowed (t_status old) (t_status r)"
    "\<forall>c \<in> set (transaction_checks r). snd c"
  using assms
proof (elim update_transaction_InrD, goal_cases)
  case (1 old hs)
  have "old \<in> set (transactions d)" "t_id old = i" using lookup_by_in lookup_by_key 1(2) by fast+
  then show ?case using 1 by (intro 1(1) [of old]) (simp_all add: frozen_columns_kept_def)
qed

text \<open>The columns \<open>refund_parents_ok\<close> reads are frozen.\<close>

definition family_part :: "transaction \<Rightarrow> uuid \<times> transaction_type \<times> uuid option \<times> uuid \<times> provider \<times> string" where
  "family_part t = (t_id t, t_type t, t_parent_transaction_id t, t_merchant_id t, t_provider t, t_currency t)"

lemma refund_parents_cong:
  assumes "family_part ` set (transactions d') = family_part ` set (transactions d)"
  shows "refund_parents_ok d' = refund_parents_ok d"
proof -
  have eq: "refund_parents_ok d \<longleftrightarrow>
    (\<forall>(i, ty, par, m, p, c) \<in> family_part ` set (transactions d). ty = REFUND \<longrightarrow>
      (\<exists>(j, ty', par', m', p', c') \<in> family_part ` set (transactions d).
         par = Some j \<and> ty' = PAYMENT \<and> m' = m \<and> p' = p \<and> c' = c))" for d
    by (simp only: refund_parents_ok_def ball_simps bex_simps family_part_def prod.case)
  show ?thesis unfolding eq [of d'] eq [of d] assms by (rule refl)
qed

lemma refund_parents_update:
  assumes "update_transaction s i f d = Inr (r, d')" "keys_ok d"
  shows "refund_parents_ok d' = refund_parents_ok d"
proof -
  obtain old where old: "lookup_by t_id i (transactions d) = Some old" "frozen_columns_kept old r"
    "transactions d' = replace_by t_id i r (transactions d)"
    using update_transaction_facts [OF assms(1)] by metis
  have "map family_part (transactions d') = map family_part (transactions d)"
    unfolding old(3) using keys_after_replace [OF keys_okD(1) [OF assms(2)] old(1), of family_part r] old(2)
    by (simp add: family_part_def frozen_columns_kept_def)
  then show ?thesis by (intro refund_parents_cong) (metis list.set_map)
qed

section \<open>Statuses that change no money\<close>

text \<open>
  A status change that is neither the confirmation of a transaction nor the loss of a dispute
  leaves every sum as it was.
\<close>

lemma checks_of_row:
  assumes "\<forall>c \<in> set (transaction_checks t). snd c"
  shows "0 < t_amount t" "is_currency (t_currency t)"
    "(t_type t = REFUND) = (t_parent_transaction_id t \<noteq> None)"
    "t_type t = REFUND \<Longrightarrow> t_refunded_amount t = 0 \<and> t_status t \<in> set settled_statuses"
    "0 \<le> t_refunded_amount t" "t_refunded_amount t \<le> t_amount t"
    "t_status t \<in> set settled_statuses \<Longrightarrow> t_refunded_amount t = 0"
    "t_status t = PARTIALLY_REFUNDED \<Longrightarrow> 0 < t_refunded_amount t \<and> t_refunded_amount t < t_amount t"
    "t_status t = REFUNDED \<Longrightarrow> t_refunded_amount t = t_amount t"
  using assms by (auto simp: transaction_checks_def)

lemma quiet_change:
  assumes "st' = st \<or> allowed st st'" "\<not> (st = PENDING \<and> st' = SUCCEEDED)" "\<not> (st = DISPUTED \<and> st' = REVERSED)"
  shows "booked st' = booked st" "st' = REVERSED \<longleftrightarrow> st = REVERSED"
  using assms by (auto simp: allowed_def status_transitions_def booked_def)

lemma total_update_same:
  assumes "keys_ok d" "lookup_by t_id i (transactions d) = Some old"
    "transactions d' = replace_by t_id i r (transactions d)" "t_id r = i" "g r = g old"
  shows "total g d' = total g d"
  using total_update [OF assms(1-4)] assms(5) by simp

lemma accounting_quiet_update:
  assumes upd: "update_transaction s i (\<lambda>t. t\<lparr>t_status := st\<rparr>) d = Inr (r, d')"
    and "keys_ok d" "rows_ok d" "accounting_ok d"
    and quiet: "\<And>old. lookup_by t_id i (transactions d) = Some old \<Longrightarrow>
      \<not> (t_status old = PENDING \<and> st = SUCCEEDED) \<and> \<not> (t_status old = DISPUTED \<and> st = REVERSED)"
  shows "accounting_ok d'"
proof -
  obtain old where old: "lookup_by t_id i (transactions d) = Some old" "old \<in> set (transactions d)"
    "t_id old = i" "t_id r = i"
    "r = old\<lparr>t_status := st, t_version := t_version old + 1, t_updated_at := s_now s\<rparr>"
    and d': "transactions d' = replace_by t_id i r (transactions d)" "postings d' = postings d"
    "accounts d' = accounts d" "merchants d' = merchants d"
    and step: "t_status r = t_status old \<or> allowed (t_status old) (t_status r)"
    and checks: "\<forall>c \<in> set (transaction_checks r). snd c"
    by (rule update_transaction_facts [OF upd]) (rule that, simp_all)
  have st: "t_status r = st" using old(5) by simp
  note q = quiet_change [OF step [unfolded st] conjunct1 [OF quiet [OF old(1)]] conjunct2 [OF quiet [OF old(1)]]]
  have row: "outstanding r = outstanding old" "commission_of r = commission_of old"
    "t_provider r = t_provider old" "t_merchant_id r = t_merchant_id old"
    using old(5) q(1) by (simp_all add: outstanding_def commission_of_def)
  have refund: "refunded_by pid r = refunded_by pid old" for pid
  proof (cases "t_type old = REFUND \<and> t_parent_transaction_id old = Some pid")
    case True
    have "t_status old \<in> set settled_statuses"
      using checks_of_row(4) assms(3) old(2) True by (simp add: rows_ok_def)
    moreover have "st \<in> set settled_statuses"
      using checks_of_row(4) [OF checks] True old(5) by simp
    ultimately have "st = SUCCEEDED \<longleftrightarrow> t_status old = SUCCEEDED"
      using step [unfolded st] quiet [OF old(1)]
      by (auto simp: settled_statuses_def allowed_def status_transitions_def)
    then show ?thesis using old(5) by (simp add: refunded_by_def)
  qed (use old(5) in \<open>auto simp: refunded_by_def\<close>)
  note same = total_update_same [OF assms(2) old(1) d'(1) old(4)]
  have balances: "account_balance c d' = account_balance c d" for c
    using d'(3,2) by (rule account_balance_cong)
  have books: "books_ok d'"
    using assms(4) d'(4) same [of "owed_by _"] same [of "owed_to _"] same [of commission_of] row
    by (simp add: accounting_ok_def books_ok_def balances owed_by_def owed_to_def)
  have totals: "total (refunded_by pid) d' = total (refunded_by pid) d" for pid
    by (rule same) (rule refund)
  have "if t_status t = REVERSED
         then t_refunded_amount t = t_amount t \<and> total (refunded_by (t_id t)) d \<le> t_amount t
         else t_refunded_amount t = total (refunded_by (t_id t)) d"
    if t: "t \<in> set (transactions d')" "t_type t = PAYMENT" for t
  proof (cases "t = r")
    case True
    have "t_type old = PAYMENT" using True t(2) old(5) by simp
    then show ?thesis
      using True old q(2) st assms(4) unfolding accounting_ok_def refunded_ok_def by auto
  next
    case False
    then have "t \<in> set (transactions d)" using t(1) d'(1) by (auto dest: in_set_replace_by)
    then show ?thesis using t(2) assms(4) unfolding accounting_ok_def refunded_ok_def by blast
  qed
  then have "refunded_ok d'" unfolding refunded_ok_def totals by blast
  then show ?thesis
    using books refund_parents_update [OF upd assms(2)] assms(4) d'(3) by (simp add: accounting_ok_def accounts_xof_def)
qed


section \<open>New rows\<close>

lemma accounting_new_transaction:
  assumes ins: "insert_transaction s t d = Inr (r, d')" and "tables_ok d" "accounting_ok d"
    and parent: "t_type t = REFUND \<Longrightarrow> \<exists>q \<in> set (transactions d). t_parent_transaction_id t = Some (t_id q)
      \<and> t_merchant_id q = t_merchant_id t \<and> t_provider q = t_provider t \<and> t_currency q = t_currency t"
  shows "accounting_ok d'"
  using ins
proof (rule insert_transaction_InrD, goal_cases)
  case (1 h)
  have d': "transactions d' = transactions d @ [r]" "postings d' = postings d"
    "accounts d' = accounts d" "merchants d' = merchants d"
    using 1(1) by simp_all
  have keys: "keys_ok d" and refs: "refs_ok d" using assms(2) by (simp_all add: tables_ok_def)
  have fresh: "t_id r \<notin> t_id ` set (transactions d)"
    using 1(19) by (simp add: transaction_unique_checks_def)
  have zero: "owed_by p r = 0" "owed_to m r = 0" "commission_of r = 0" "refunded_by i r = 0" for p m i
    using 1(3) by (simp_all add: owed_by_def owed_to_def commission_of_def outstanding_def refunded_by_def booked_def)
  have totals: "g r = 0 \<Longrightarrow> total g d' = total g d" for g
    using total_append [OF d'(1)] by simp
  have "account_balance c d' = account_balance c d" for c
    using d'(3,2) by (rule account_balance_cong)
  then have books: "books_ok d'"
    using assms(3) totals zero d'(4) by (simp add: accounting_ok_def books_ok_def)
  have parents: "refund_parents_ok d'"
    unfolding refund_parents_ok_def
  proof (intro ballI impI)
    fix x assume x: "x \<in> set (transactions d')" "t_type x = REFUND"
    show "\<exists>parent \<in> set (transactions d'). t_parent_transaction_id x = Some (t_id parent)
           \<and> t_type parent = PAYMENT \<and> t_merchant_id parent = t_merchant_id x
           \<and> t_provider parent = t_provider x \<and> t_currency parent = t_currency x"
    proof (cases "x = r")
      case True
      then have refund: "t_type t = REFUND" using x(2) 1(6) by simp
      obtain q where q: "q \<in> set (transactions d)" "t_parent_transaction_id t = Some (t_id q)"
        "t_merchant_id q = t_merchant_id t" "t_provider q = t_provider t" "t_currency q = t_currency t"
        using parent [OF refund] by blast
      have "lookup_by t_id (t_id q) (transactions d) = Some q"
        using lookup_by_distinct [OF keys_okD(1) [OF keys] q(1)] .
      then have "t_type q = PAYMENT" using 1(26) [OF refund q(2)] by simp
      then show ?thesis using q True 1(8-11) d'(1) by auto
    next
      case False
      then have "x \<in> set (transactions d)" using x(1) d'(1) by simp
      then show ?thesis
        using assms(3) x(2) d'(1) unfolding accounting_ok_def refund_parents_ok_def by (metis UnI1 set_append)
    qed
  qed
  have unreferenced: "total (refunded_by (t_id r)) d = 0"
    unfolding total_def
  proof (rule sum_list_zero)
    fix x assume "x \<in> set (transactions d)"
    then have "t_parent_transaction_id x \<noteq> Some (t_id r)"
      using refs fresh unfolding refs_ok_def by blast
    then show "refunded_by (t_id r) x = 0" by (simp add: refunded_by_def)
  qed
  have "refunded_ok d'"
    unfolding refunded_ok_def totals [of "refunded_by _", OF zero(4)]
  proof (intro ballI impI)
    fix x assume x: "x \<in> set (transactions d')" "t_type x = PAYMENT"
    show "if t_status x = REVERSED
         then t_refunded_amount x = t_amount x \<and> total (refunded_by (t_id x)) d \<le> t_amount x
         else t_refunded_amount x = total (refunded_by (t_id x)) d"
    proof (cases "x = r")
      case True
      then show ?thesis using 1(3,4) unreferenced by simp
    next
      case False
      then have "x \<in> set (transactions d)" using x(1) d'(1) by simp
      then show ?thesis using assms(3) x(2) unfolding accounting_ok_def refunded_ok_def by blast
    qed
  qed
  then show ?case using books parents assms(3) d'(3) by (simp add: accounting_ok_def accounts_xof_def)
qed

lemma accounting_new_merchant:
  assumes run: "create_merchant_body mid aid dto s d = Inr (m, d')" and "tables_ok d" "accounting_ok d"
  shows "accounting_ok d'"
proof -
  let ?code = "merchantPayableAccountCode (cm_code dto)"
  let ?m = "\<lparr>m_id = mid, m_code = cm_code dto, m_name = cm_name dto, m_is_active = True, m_created_at = s_now s\<rparr>"
  let ?a = "\<lparr>a_id = aid, a_code = ?code, a_name = ''D'' @ [CHR 0xFB] @ '' au marchand '' @ cm_name dto,
       a_type = LIABILITY, a_currency = DEFAULT_CURRENCY, a_is_active = True, a_created_at = s_now s\<rparr>"
  obtain d1 a where m: "insert_merchant ?m d = Inr (m, d1)" and acc: "insert_account ?a d1 = Inr (a, d')"
    using run unfolding create_merchant_body_def by (auto simp: result_simps)
  have a: "a = ?a" "insert_account a d1 = Inr (a, d')" "a_code a = ?code" "a_id a = aid"
    using insert_account_InrD [OF acc] acc by auto
  have d1: "m = ?m" "d1 = d\<lparr>merchants := merchants d @ [m]\<rparr>" "mid \<notin> m_id ` set (merchants d)"
    "cm_code dto \<notin> m_code ` set (merchants d)"
    using insert_merchant_InrD [OF m] by auto
  have d': "d' = d\<lparr>merchants := merchants d @ [m], accounts := accounts d @ [a]\<rparr>"
    "aid \<notin> a_id ` set (accounts d)" "?code \<notin> a_code ` set (accounts d)"
    using insert_account_InrD [OF a(2)] d1(2) a(3,4) by auto
  have refs: "refs_ok d" using assms(2) by (simp add: tables_ok_def)
  have totals: "total g d' = total g d" for g using d'(1) by (simp add: total_def)
  have others: "account_balance c d' = account_balance c d" if "c \<noteq> ?code" for c
    using that a(3) unfolding account_balance_def d'(1)
    by (cases "lookup_by a_code c (accounts d)") (simp_all add: table_simps)
  have fresh_account: "account_net aid (postings d) = 0"
  proof -
    have "filter (\<lambda>p. p_account_id p = aid) (postings d) = []"
      using refs d'(2) unfolding refs_ok_def filter_empty_conv by (metis image_eqI)
    then show ?thesis by (simp add: account_net_def)
  qed
  have "lookup_by a_code ?code (accounts d') = Some a"
    using d'(1,3) a(3) lookup_by_eq_None [of a_code ?code "accounts d"] by (simp add: table_simps)
  then have new: "account_balance ?code d' = 0"
    using fresh_account a(4) d'(1) by (simp add: account_balance_def)
  have fresh_merchant: "total (owed_to mid) d = 0"
    unfolding total_def
  proof (rule sum_list_zero)
    fix t assume "t \<in> set (transactions d)"
    then have "t_merchant_id t \<noteq> mid" using refs d1(3) unfolding refs_ok_def by metis
    then show "owed_to mid t = 0" by (simp add: owed_to_def)
  qed
  have "account_balance (merchantPayableAccountCode (m_code k)) d' = - total (owed_to (m_id k)) d"
    if k: "k \<in> set (merchants d')" for k
  proof (cases "k = m")
    case True
    then show ?thesis using new fresh_merchant d1(1) by simp
  next
    case False
    then have "k \<in> set (merchants d)" using k d'(1) by simp
    moreover from this have "m_code k \<noteq> cm_code dto" using d1(4) by (metis image_eqI)
    ultimately show ?thesis using others assms(3) by (simp add: accounting_ok_def books_ok_def)
  qed
  then have "books_ok d'"
    using assms(3) others by (simp add: accounting_ok_def books_ok_def totals)
  moreover have same: "transactions d' = transactions d" using d'(1) by simp
  have "refund_parents_ok d'" "refunded_ok d'"
    using assms(3) unfolding accounting_ok_def refund_parents_ok_def refunded_ok_def totals same by blast+
  moreover have "accounts_xof d'" using assms(3) d'(1) a(1) by (simp add: accounting_ok_def accounts_xof_def)
  ultimately show ?thesis by (simp add: accounting_ok_def)
qed


section \<open>Settlements\<close>

text \<open>The postings of a booking move every balance by its lines.\<close>

lemma account_balance_booking:
  assumes "books_entry d eid tid cur ls d'" "keys_ok d"
    "\<And>l. l \<in> set ls \<Longrightarrow> lookup_by a_code (fst l) (accounts d) \<noteq> None"
  shows "account_balance code d' = account_balance code d + code_effect code ls"
proof (cases "lookup_by a_code code (accounts d) = None")
  case True
  then have "fst l \<noteq> code" if "l \<in> set ls" for l using assms(3) [OF that] by auto
  then have "code_effect code ls = 0"
    unfolding code_effect_def by (intro sum_list_zero) simp
  then show ?thesis
    using True books_entry_keeps(2) [OF assms(1)] by (simp add: account_balance_def)
next
  case False
  then show ?thesis
    using balance_after_booking [OF assms(1) keys_okD(5) [OF assms(2)]] by simp
qed

lemma same_merchant:
  assumes "keys_ok d" "lookup_by m_id i (merchants d) = Some m" "k \<in> set (merchants d)"
  shows "m_code m = m_code k \<longleftrightarrow> i = m_id k"
proof -
  have m: "m \<in> set (merchants d)" "m_id m = i" using lookup_by_in lookup_by_key assms(2) by fast+
  then have "m_code m = m_code k \<longleftrightarrow> m = k" "m_id m = m_id k \<longleftrightarrow> m = k"
    using assms(3) keys_okD(7,8) [OF assms(1)] by (auto simp: distinct_map inj_on_def)
  then show ?thesis using m(2) by simp
qed

lemma payment_effects:
  assumes "0 < t_amount t"
  shows "code_effect (clearingCode p) (payment_lines (t, m)) = (if t_provider t = p then t_amount t else 0)"
    "code_effect (merchantPayableAccountCode c) (payment_lines (t, m))
      = (if m_code m = c then computeCommission (t_amount t) - t_amount t else 0)"
    "code_effect FEES_CODE (payment_lines (t, m)) = - computeCommission (t_amount t)"
  using commission_bounds [OF assms] by (auto simp: payment_lines_def)

lemma payback_effects:
  "code_effect (clearingCode p) (payback_lines ((t, m), a)) = (if t_provider t = p then - a else 0)"
  "code_effect (merchantPayableAccountCode c) (payback_lines ((t, m), a)) = (if m_code m = c then a else 0)"
  "code_effect FEES_CODE (payback_lines ((t, m), a)) = 0"
  by (auto simp: payback_lines_def)

text \<open>
  The three bookings keep \<open>books_ok\<close> when they book what the row changes add up to. \<open>d1\<close> is the
  state after the row changes, \<open>d'\<close> after the booking.
\<close>

lemma books_ok_payment:
  assumes "books_ok d" "keys_ok d1" "merchants d1 = merchants d" "accounts d1 = accounts d" "postings d1 = postings d"
    and booked: "books_entry d1 eid tid cur (payment_lines (t, m)) d'"
      "\<And>l. l \<in> set (payment_lines (t, m)) \<Longrightarrow> lookup_by a_code (fst l) (accounts d1) \<noteq> None"
    and m: "lookup_by m_id (t_merchant_id t) (merchants d1) = Some m"
    and t: "0 < t_amount t" "outstanding t = t_amount t" "commission_of t = computeCommission (t_amount t)"
    and totals: "\<And>p. total (owed_by p) d1 = total (owed_by p) d + owed_by p t"
      "\<And>k. total (owed_to k) d1 = total (owed_to k) d + owed_to k t"
      "total commission_of d1 = total commission_of d + commission_of t"
  shows "books_ok d'"
proof -
  have same: "total g d' = total g d1" for g
    using books_entry_keeps(1) [OF booked(1)] by (simp add: total_def)
  have bal: "account_balance c d' = account_balance c d + code_effect c (payment_lines (t, m))" for c
    using account_balance_booking [OF booked(1) assms(2) booked(2)] account_balance_cong [OF assms(4,5)] by simp
  have "account_balance (clearingCode p) d' = total (owed_by p) d'" for p
    using assms(1) by (simp add: bal same totals payment_effects [OF t(1)] books_ok_def owed_by_def t(2))
  moreover have "account_balance (merchantPayableAccountCode (m_code k)) d' = - total (owed_to (m_id k)) d'"
    if "k \<in> set (merchants d)" for k
    using assms(1) that same_merchant [OF assms(2) m, of k] assms(3)
    by (simp add: bal same totals payment_effects [OF t(1)] books_ok_def owed_to_def t(2,3))
  moreover have "account_balance FEES_CODE d' = - total commission_of d'"
    using assms(1) by (simp add: bal same totals payment_effects [OF t(1)] books_ok_def t(3))
  ultimately show ?thesis
    using books_entry_keeps(3) [OF booked(1)] assms(3) by (simp add: books_ok_def)
qed

lemma books_ok_payback:
  assumes "books_ok d" "keys_ok d1" "merchants d1 = merchants d" "accounts d1 = accounts d" "postings d1 = postings d"
    and booked: "books_entry d1 eid tid cur (payback_lines ((t, m), a)) d'"
      "\<And>l. l \<in> set (payback_lines ((t, m), a)) \<Longrightarrow> lookup_by a_code (fst l) (accounts d1) \<noteq> None"
    and m: "lookup_by m_id (t_merchant_id t) (merchants d1) = Some m"
    and totals: "\<And>p. total (owed_by p) d1 = total (owed_by p) d - (if t_provider t = p then a else 0)"
      "\<And>k. total (owed_to k) d1 = total (owed_to k) d - (if t_merchant_id t = k then a else 0)"
      "total commission_of d1 = total commission_of d"
  shows "books_ok d'"
proof -
  have same: "total g d' = total g d1" for g
    using books_entry_keeps(1) [OF booked(1)] by (simp add: total_def)
  have bal: "account_balance c d' = account_balance c d + code_effect c (payback_lines ((t, m), a))" for c
    using account_balance_booking [OF booked(1) assms(2) booked(2)] account_balance_cong [OF assms(4,5)] by simp
  have "account_balance (clearingCode p) d' = total (owed_by p) d'" for p
    using assms(1) by (simp add: bal same totals payback_effects books_ok_def)
  moreover have "account_balance (merchantPayableAccountCode (m_code k)) d' = - total (owed_to (m_id k)) d'"
    if "k \<in> set (merchants d)" for k
    using assms(1) that same_merchant [OF assms(2) m, of k] assms(3)
    by (simp add: bal same totals payback_effects books_ok_def)
  moreover have "account_balance FEES_CODE d' = - total commission_of d'"
    using assms(1) by (simp add: bal same totals payback_effects books_ok_def)
  ultimately show ?thesis
    using books_entry_keeps(3) [OF booked(1)] assms(3) by (simp add: books_ok_def)
qed


lemma refunded_ok_update:
  assumes "keys_ok d" "refunded_ok d" "lookup_by t_id i (transactions d) = Some old"
    "transactions d' = replace_by t_id i r (transactions d)" "t_id r = i"
    and same: "\<And>pid. refunded_by pid r = refunded_by pid old"
    and row: "t_type r = PAYMENT \<Longrightarrow>
      (if t_status r = REVERSED
       then t_refunded_amount r = t_amount r \<and> total (refunded_by i) d \<le> t_amount r
       else t_refunded_amount r = total (refunded_by i) d)"
  shows "refunded_ok d'"
proof -
  have totals: "total (refunded_by pid) d' = total (refunded_by pid) d" for pid
    using total_update_same [OF assms(1,3,4,5) same] .
  show ?thesis
    unfolding refunded_ok_def totals
  proof (intro ballI impI)
    fix t assume t: "t \<in> set (transactions d')" "t_type t = PAYMENT"
    show "if t_status t = REVERSED
         then t_refunded_amount t = t_amount t \<and> total (refunded_by (t_id t)) d \<le> t_amount t
         else t_refunded_amount t = total (refunded_by (t_id t)) d"
    proof (cases "t = r")
      case True
      then show ?thesis using row t(2) assms(5) by simp
    next
      case False
      then have "t \<in> set (transactions d)" using t(1) assms(4) by (auto dest: in_set_replace_by)
      then show ?thesis using t(2) assms(2) unfolding refunded_ok_def by blast
    qed
  qed
qed

lemma refunded_by_payment [simp]: "t_type t = PAYMENT \<Longrightarrow> refunded_by pid t = 0"
  by (simp add: refunded_by_def)

lemma accounting_confirm_payment:
  assumes "keys_ok d" "rows_ok d" "accounting_ok d"
    and upd: "update_transaction s i (\<lambda>t. t\<lparr>t_status := SUCCEEDED\<rparr>) d = Inr (u, d1)"
    and old: "lookup_by t_id i (transactions d) = Some old" "t_status old = PENDING" "t_type old = PAYMENT"
    and book: "bookPaymentSuccess s eid u d1 = Inr d'"
  shows "accounting_ok d'"
proof -
  have u: "u = old\<lparr>t_status := SUCCEEDED, t_version := t_version old + 1, t_updated_at := s_now s\<rparr>"
    and d1: "transactions d1 = replace_by t_id i u (transactions d)" "postings d1 = postings d"
      "accounts d1 = accounts d" "merchants d1 = merchants d" "t_id u = i"
    and checks: "\<forall>c \<in> set (transaction_checks u). snd c"
    by (rule update_transaction_facts [OF upd], use old(1) in simp)+
  have keys: "keys_ok d1" using keys_ok_stmt [OF upd_transaction [OF upd] assms(1)] .
  have zero: "t_refunded_amount old = 0"
    using checks_of_row(7) [OF checks] u by (simp add: settled_statuses_def)
  have worth: "outstanding old = 0" "commission_of old = 0" "outstanding u = t_amount u"
    "commission_of u = computeCommission (t_amount u)" "t_provider u = t_provider old"
    "t_merchant_id u = t_merchant_id old"
    using old(2,3) zero by (simp_all add: u outstanding_def commission_of_def booked_def)
  note change = total_update [OF assms(1) old(1) d1(1,5)]
  obtain m where m: "lookup_by m_id (t_merchant_id u) (merchants d1) = Some m"
    "books_entry d1 eid (t_id u) (t_currency u) (payment_lines (u, m)) d'"
    "\<And>l. l \<in> set (payment_lines (u, m)) \<Longrightarrow> lookup_by a_code (fst l) (accounts d1) \<noteq> None"
    by (rule bookPaymentSuccess_books [OF book]) (rule that)
  have "books_ok d'"
    using assms(3) by (intro books_ok_payment [OF _ keys d1(4,3,2) m(2,3,1) checks_of_row(1) [OF checks] worth(3,4)])
      (simp_all add: accounting_ok_def change owed_by_def owed_to_def worth)
  moreover have "refunded_ok d1"
    using assms(3) old zero lookup_by_in [OF old(1)] lookup_by_key [OF old(1)]
    by (intro refunded_ok_update [OF assms(1) _ old(1) d1(1,5)])
       (auto simp: u accounting_ok_def refunded_ok_def)
  moreover have "refund_parents_ok d1"
    using refund_parents_update [OF upd assms(1)] assms(3) by (simp add: accounting_ok_def)
  ultimately show ?thesis
    using rows_part_cong [OF books_entry_keeps(1) [OF m(2)]] books_entry_keeps(2) [OF m(2)] assms(3) d1(3)
    by (simp add: accounting_ok_def accounts_xof_def)
qed

lemma accounting_lose_dispute:
  assumes "keys_ok d" "rows_ok d" "accounting_ok d"
    and upd: "update_transaction s i (\<lambda>t. t\<lparr>t_status := REVERSED\<rparr>) d = Inr (u, d1)"
    and old: "lookup_by t_id i (transactions d) = Some old" "t_status old = DISPUTED"
    and book: "bookDisputeReversal s eid u d1 = Inr (r, d')"
  shows "accounting_ok d'"
proof -
  have u: "u = old\<lparr>t_status := REVERSED, t_version := t_version old + 1, t_updated_at := s_now s\<rparr>"
    and d1: "transactions d1 = replace_by t_id i u (transactions d)" "postings d1 = postings d"
      "accounts d1 = accounts d" "merchants d1 = merchants d" "t_id u = i"
    by (rule update_transaction_facts [OF upd], use old(1) in simp)+
  have old_in: "old \<in> set (transactions d)" "t_id old = i"
    using lookup_by_in [OF old(1)] lookup_by_key [OF old(1)] .
  have payment: "t_type old = PAYMENT"
    using checks_of_row(4) [of old] assms(2) old_in(1) old(2) unfolding rows_ok_def
    by (cases "t_type old") (auto simp: settled_statuses_def)
  have keys: "keys_ok d1" using keys_ok_stmt [OF upd_transaction [OF upd] assms(1)] .
  obtain m d2 where m: "update_transaction s (t_id u) (\<lambda>x. x\<lparr>t_refunded_amount := t_amount u\<rparr>) d1 = Inr (r, d2)"
    "lookup_by m_id (t_merchant_id u) (merchants d2) = Some m"
    "books_entry d2 eid (t_id u) (t_currency u) (payback_lines ((u, m), t_amount u - t_refunded_amount u)) d'"
    "\<And>l. l \<in> set (payback_lines ((u, m), t_amount u - t_refunded_amount u))
      \<Longrightarrow> lookup_by a_code (fst l) (accounts d2) \<noteq> None"
    by (rule bookDisputeReversal_books [OF book]) (rule that)
  have found: "lookup_by t_id (t_id u) (transactions d1) = Some u"
    using tx_table.lookup_updated [of u i d old i] old(1) d1(1,5) by simp
  have r: "r = u\<lparr>t_refunded_amount := t_amount u, t_version := t_version u + 1, t_updated_at := s_now s\<rparr>"
    and d2: "transactions d2 = replace_by t_id (t_id u) r (transactions d1)" "postings d2 = postings d1"
      "accounts d2 = accounts d1" "merchants d2 = merchants d1" "t_id r = t_id u"
    by (rule update_transaction_facts [OF m(1)], use found in simp)+
  have keys2: "keys_ok d2" using keys_ok_stmt [OF upd_transaction [OF m(1)] keys] .
  have worth: "outstanding r = 0" "outstanding old = t_amount u - t_refunded_amount u" "commission_of r = commission_of old"
    "t_provider r = t_provider old" "t_merchant_id r = t_merchant_id old" "t_provider u = t_provider old"
    "t_merchant_id u = t_merchant_id old"
    using payment old(2) by (simp_all add: r u outstanding_def commission_of_def booked_def)
  have change: "total g d2 = total g d + g r - g old" for g
    using total_update [OF assms(1) old(1) d1(1,5), of g] total_update [OF keys found d2(1,5), of g] by simp
  have "books_ok d'"
    using assms(3) d1 d2 by (intro books_ok_payback [of d, OF _ keys2 _ _ _ m(3,4,2)])
      (simp_all add: accounting_ok_def change owed_by_def owed_to_def worth)
  moreover have "refunded_ok d2"
  proof (rule refunded_ok_update [OF assms(1) _ old(1)])
    show "refunded_ok d" using assms(3) by (simp add: accounting_ok_def)
    show "transactions d2 = replace_by t_id i r (transactions d)"
      using d1(1,5) d2(1) by (simp add: replace_by_twice)
    show "t_id r = i" using d1(5) d2(5) by simp
    have "t_refunded_amount old = total (refunded_by i) d"
      using assms(3) old old_in payment unfolding accounting_ok_def refunded_ok_def by auto
    moreover have "t_refunded_amount old \<le> t_amount old"
      using checks_of_row(6) assms(2) old_in(1) unfolding rows_ok_def by blast
    ultimately show "if t_status r = REVERSED
       then t_refunded_amount r = t_amount r \<and> total (refunded_by i) d \<le> t_amount r
       else t_refunded_amount r = total (refunded_by i) d"
      by (simp add: r u)
  qed (use payment in \<open>simp add: r u\<close>)
  moreover have "refund_parents_ok d2"
    using refund_parents_update [OF upd assms(1)] refund_parents_update [OF m(1) keys] assms(3)
    by (simp add: accounting_ok_def)
  ultimately show ?thesis
    using rows_part_cong [OF books_entry_keeps(1) [OF m(3)]] books_entry_keeps(2) [OF m(3)] assms(3) d1(3) d2(3)
    by (simp add: accounting_ok_def accounts_xof_def)
qed

lemma accounting_confirm_refund:
  assumes "keys_ok d" "rows_ok d" "accounting_ok d"
    and upd: "update_transaction s i (\<lambda>t. t\<lparr>t_status := SUCCEEDED\<rparr>) d = Inr (u, d1)"
    and old: "lookup_by t_id i (transactions d) = Some old" "t_status old = PENDING" "t_type old = REFUND"
    and book: "bookRefundSuccess s eid u d1 = Inr d'"
  shows "accounting_ok d'"
proof -
  have u: "u = old\<lparr>t_status := SUCCEEDED, t_version := t_version old + 1, t_updated_at := s_now s\<rparr>"
    and d1: "transactions d1 = replace_by t_id i u (transactions d)" "postings d1 = postings d"
      "accounts d1 = accounts d" "merchants d1 = merchants d" "t_id u = i"
    by (rule update_transaction_facts [OF upd], use old(1) in simp)+
  have old_in: "old \<in> set (transactions d)" "t_id old = i"
    using lookup_by_in [OF old(1)] lookup_by_key [OF old(1)] .
  have keys: "keys_ok d1" using keys_ok_stmt [OF upd_transaction [OF upd] assms(1)] .
  obtain q q' m d2 where q: "t_parent_transaction_id u = Some (t_id q)"
    "lookup_by t_id (t_id q) (transactions d1) = Some q"
    "t_refunded_amount q + t_amount u \<le> t_amount q"
    and updq: "update_transaction s (t_id q)
       (\<lambda>t. t\<lparr>t_refunded_amount := t_refunded_amount q + t_amount u,
             t_status := (if t_refunded_amount q + t_amount u = t_amount q
                          then REFUNDED else PARTIALLY_REFUNDED)\<rparr>) d1 = Inr (q', d2)"
    and m: "lookup_by m_id (t_merchant_id u) (merchants d2) = Some m"
      "books_entry d2 eid (t_id u) (t_currency u) (payback_lines ((u, m), t_amount u)) d'"
      "\<And>l. l \<in> set (payback_lines ((u, m), t_amount u)) \<Longrightarrow> lookup_by a_code (fst l) (accounts d2) \<noteq> None"
    by (rule bookRefundSuccess_books [OF book]) (rule that)
  define st where "st = (if t_refunded_amount q + t_amount u = t_amount q then REFUNDED else PARTIALLY_REFUNDED)"
  have q': "q' = q\<lparr>t_refunded_amount := t_refunded_amount q + t_amount u, t_status := st,
                   t_version := t_version q + 1, t_updated_at := s_now s\<rparr>"
    and d2: "transactions d2 = replace_by t_id (t_id q) q' (transactions d1)" "postings d2 = postings d1"
      "accounts d2 = accounts d1" "merchants d2 = merchants d1" "t_id q' = t_id q"
    and step: "t_status q' = t_status q \<or> allowed (t_status q) (t_status q')"
    by (rule update_transaction_facts [OF updq], use q(2) in \<open>simp add: st_def\<close>)+
  have keys2: "keys_ok d2" using keys_ok_stmt [OF upd_transaction [OF updq] keys] .
  have parents1: "refund_parents_ok d1"
    using refund_parents_update [OF upd assms(1)] assms(3) by (simp add: accounting_ok_def)
  have u_in: "u \<in> set (transactions d1)"
    using d1(1) old_in by (auto simp: replace_by_def intro: image_eqI [of _ _ old])
  have q_in: "q \<in> set (transactions d1)" using lookup_by_in [OF q(2)] .
  obtain q0 where "q0 \<in> set (transactions d1)" "t_id q0 = t_id q" "t_type q0 = PAYMENT"
    "t_merchant_id q0 = t_merchant_id u" "t_provider q0 = t_provider u"
    using parents1 u_in old(3) q(1) unfolding refund_parents_ok_def by (auto simp: u)
  then have family: "t_type q = PAYMENT" "t_merchant_id q = t_merchant_id u" "t_provider q = t_provider u"
    using unique_row [OF keys_okD(1) [OF keys] q(2)] by auto
  have q_old: "q \<in> set (transactions d)" "t_id q \<noteq> i"
  proof -
    have "q \<noteq> u" using family(1) old(3) by (auto simp: u)
    then show "q \<in> set (transactions d)" using q_in d1(1) by (auto dest: in_set_replace_by)
    show "t_id q \<noteq> i" using \<open>q \<noteq> u\<close> unique_row [OF keys_okD(1) [OF keys] q(2) u_in] d1(5) by auto
  qed
  have status: "booked (t_status q)" "booked st" "t_status q \<noteq> REVERSED" "st \<noteq> REVERSED"
    using step by (auto simp: q' st_def booked_def allowed_def status_transitions_def split: if_splits)
  have worth: "outstanding q' = outstanding q - t_amount u" "commission_of q' = commission_of q"
    "t_provider q' = t_provider u" "t_merchant_id q' = t_merchant_id u"
    "outstanding u = 0" "outstanding old = 0" "commission_of u = 0" "commission_of old = 0"
    using family status old(3) by (simp_all add: q' u outstanding_def commission_of_def)
  have change: "total g d2 = total g d + (g u - g old) + (g q' - g q)" for g
    using total_update [OF assms(1) old(1) d1(1,5), of g] total_update [OF keys q(2) d2(1,5), of g] by simp
  have "books_ok d'"
    using assms(3) d1 d2 family by (intro books_ok_payback [of d, OF _ keys2 _ _ _ m(2,3,1)])
      (auto simp: accounting_ok_def change owed_by_def owed_to_def worth)
  moreover have "refunded_ok d2"
  proof -
    have refunds: "total (refunded_by pid) d2 = total (refunded_by pid) d + (if pid = t_id q then t_amount u else 0)" for pid
      using old(2,3) family(1) q(1) by (auto simp: change refunded_by_def q' u)
    show ?thesis
      unfolding refunded_ok_def
    proof (intro ballI impI)
      fix t assume t: "t \<in> set (transactions d2)" "t_type t = PAYMENT"
      have before: "t_refunded_amount x = total (refunded_by (t_id x)) d"
        if "x \<in> set (transactions d)" "t_type x = PAYMENT" "t_status x \<noteq> REVERSED" for x
        using that assms(3) unfolding accounting_ok_def refunded_ok_def by auto
      show "if t_status t = REVERSED
         then t_refunded_amount t = t_amount t \<and> total (refunded_by (t_id t)) d2 \<le> t_amount t
         else t_refunded_amount t = total (refunded_by (t_id t)) d2"
      proof (cases "t = q'")
        case True
        then show ?thesis
          using before [OF q_old(1) family(1) status(3)] status(4) by (simp add: refunds q')
      next
        case False
        then have t1: "t \<in> set (transactions d1)" "t_id t \<noteq> t_id q"
          using t(1) d2(1) by (auto dest: in_set_replace_by)
        then have "t \<noteq> u" using t(2) old(3) by (auto simp: u)
        then have "t \<in> set (transactions d)" using t1(1) d1(1) by (auto dest: in_set_replace_by)
        then show ?thesis
          using t(2) t1(2) assms(3) unfolding accounting_ok_def refunded_ok_def by (simp add: refunds)
      qed
    qed
  qed
  moreover have "refund_parents_ok d2"
    using refund_parents_update [OF updq keys] parents1 by simp
  ultimately show ?thesis
    using rows_part_cong [OF books_entry_keeps(1) [OF m(2)]] books_entry_keeps(2) [OF m(2)] assms(3) d1(3) d2(3)
    by (simp add: accounting_ok_def accounts_xof_def)
qed

end
