(* ===== verification/System.thy ===== *)
theory System
  imports Accounting
begin

text \<open>
  The whole system as a state machine: \<open>initial_db\<close> is the database the migrations leave,
  \<open>service_step\<close> one call of a service (successful or not), \<open>reachable\<close> what any sequence of calls
  can lead to. \<open>system_ok\<close> collects the invariants and holds in every reachable state.
\<close>

section \<open>The migrated database\<close>

text \<open>
  The rows of the migrations seed_chart_of_accounts and merchants. \<open>uid\<close> generates the ids
  (\<open>gen_random_uuid()\<close>).
\<close>

definition chart_account :: "(nat \<Rightarrow> uuid) \<Rightarrow> timestamp \<Rightarrow> nat \<Rightarrow> string \<Rightarrow> string \<Rightarrow> account_type \<Rightarrow> ledger_account" where
  "chart_account uid now i code name typ =
    \<lparr>a_id = uid i, a_code = code, a_name = name, a_type = typ, a_currency = ''XOF'', a_is_active = True,
     a_created_at = now\<rparr>"

definition initial_db :: "(nat \<Rightarrow> uuid) \<Rightarrow> timestamp \<Rightarrow> db" where
  "initial_db uid now =
    \<lparr>transactions = [], history = [],
     accounts =
      [chart_account uid now 0 ''provider:orange_money:clearing'' (''Cr'' @ [CHR 0xE9] @ ''ance Orange Money'') ASSET,
       chart_account uid now 1 ''provider:mtn_momo:clearing'' (''Cr'' @ [CHR 0xE9] @ ''ance MTN MoMo'') ASSET,
       chart_account uid now 2 ''provider:wave:clearing'' (''Cr'' @ [CHR 0xE9] @ ''ance Wave'') ASSET,
       chart_account uid now 3 ''provider:moov_money:clearing'' (''Cr'' @ [CHR 0xE9] @ ''ance Moov Money'') ASSET,
       chart_account uid now 4 ''merchant:demo:payable'' (''D'' @ [CHR 0xFB] @ '' au marchand d'' @ [CHR 0xE9] @ ''mo'') LIABILITY,
       chart_account uid now 5 ''revenue:fees'' ''Commissions'' REVENUE],
     entries = [], postings = [],
     merchants = [\<lparr>m_id = uid 6, m_code = ''demo'', m_name = ''Marchand d'' @ [CHR 0xE9] @ ''mo'',
                   m_is_active = True, m_created_at = now\<rparr>],
     api_keys = [], exceptions = [], loads = [], next_tx_id = 1, deferred = []\<rparr>"

section \<open>Steps\<close>

inductive service_step :: "db \<Rightarrow> db \<Rightarrow> bool" where
  step_merchant: "service_step d (snd (create_merchant mid aid now dto d))"
| step_payment: "service_step d (snd (create_payment sha config inp pdto key merchant_id d))"
| step_refund: "service_step d (snd (create_refund sha config inp ref rdto key merchant_id d))"
| step_transition: "service_step d (snd (transition eid xid now ref tdto version d))"
| step_expire: "service_step d (snd (expire_one_batch clock now locked d))"
| step_api_key: "service_step d (snd (create_api_key sha kid rnd given now kdto d))"
| step_revoke: "service_step d (snd (revoke_api_key kid clock d))"
| step_resolve: "service_step d (snd (resolve_exception xid clock resolution who d))"
| step_report: "service_step d (snd (reportDiscrepancy xid now inp' d))"
| step_load: "service_step d (snd (create_dataset_load started now d))"

inductive reachable :: "(nat \<Rightarrow> uuid) \<Rightarrow> timestamp \<Rightarrow> db \<Rightarrow> bool" for uid now where
  reach_initial: "reachable uid now (initial_db uid now)"
| reach_step: "reachable uid now d \<Longrightarrow> service_step d d' \<Longrightarrow> reachable uid now d'"

definition system_ok :: "db \<Rightarrow> bool" where
  "system_ok d \<longleftrightarrow> tables_ok d \<and> ledger_ok d \<and> accounting_ok d"

section \<open>The accounting across a SQL transaction\<close>

lemma accounting_commit: "accounting_ok d \<Longrightarrow> accounting_ok (d\<lparr>next_tx_id := n, deferred := q\<rparr>)"
  by (rule accounting_ok_cong [of _ d]) simp_all

lemma accounting_sql_transaction:
  assumes "\<And>s x d1. body s d = Inr (x, d1) \<Longrightarrow> accounting_ok d1" "accounting_ok d"
  shows "accounting_ok (snd (sql_transaction who now body d))"
proof (cases "sql_transaction who now body d")
  case (Pair r d')
  show ?thesis
  proof (cases r)
    case (Inl e)
    then show ?thesis using sql_transaction_Inl Pair assms(2) by (metis snd_conv)
  next
    case (Inr x)
    then obtain s d1 where "body s d = Inr (x, d1)" "d' = d1\<lparr>next_tx_id := Suc (next_tx_id d), deferred := []\<rparr>"
      using Pair by (auto elim: sql_transaction_Inr)
    then show ?thesis using assms(1) Pair accounting_commit by simp
  qed
qed

lemma transition_body_accounting:
  assumes "transition_body eid xid ref dto v s d = Inr (x, d')" "tables_ok d" "accounting_ok d"
  shows "accounting_ok d'"
  using assms(1)
proof (cases rule: transition_body_Inr)
  case (late row exn)
  have "d' = d\<lparr>exceptions := exceptions d @ [exn]\<rparr>"
    using insert_exception_InrD [OF late(6)] by blast
  then show ?thesis by (intro accounting_ok_cong [OF _ _ _ _ assms(3)]) simp_all
next
  case (updated row u d1 d2 u')
  have keys: "keys_ok d" "rows_ok d" using assms(2) by (simp_all add: tables_ok_def)
  have row: "lookup_by t_id (t_id row) (transactions d) = Some row"
    using lookup_by_distinct [OF keys_okD(1) [OF keys(1)]] lookup_by_in [OF updated(1)] by blast
  show ?thesis
  proof (cases "ts_status dto = SUCCEEDED \<and> t_status row = PENDING")
    case True
    then have d2: "d' = d2" using updated(7) by simp
    show ?thesis
    proof (cases "t_type row")
      case PAYMENT
      then show ?thesis
        using True updated(5,6) accounting_confirm_payment [OF keys assms(3) _ row] d2 by simp
    next
      case REFUND
      then show ?thesis
        using True updated(5,6) accounting_confirm_refund [OF keys assms(3) _ row] d2 by simp
    qed
  next
    case False
    then have d1: "d2 = d1" using updated(6) by (simp only: if_False)  simp
    show ?thesis
    proof (cases "ts_status dto = REVERSED \<and> t_status row = DISPUTED")
      case True
      then show ?thesis
        using updated(5,7) accounting_lose_dispute [OF keys assms(3) _ row] d1 by simp
    next
      case quiet: False
      then have "d' = d1" using updated(7) d1 by (simp only: if_False) simp
      then show ?thesis
        using accounting_quiet_update [OF updated(5) keys assms(3)] row quiet False by auto
    qed
  qed
qed

lemma expire_rows_accounting:
  assumes "expire_rows s ids d = Inr d'" "keys_ok d" "rows_ok d" "accounting_ok d"
  shows "accounting_ok d'"
proof -
  have "keys_ok d' \<and> rows_ok d' \<and> accounting_ok d'"
  proof (rule fold_result_invariant [of _ "\<lambda>d. keys_ok d \<and> rows_ok d \<and> accounting_ok d"])
    show "fold_result (\<lambda>tid d. andThen (update_transaction s tid (\<lambda>t. t\<lparr>t_status := EXPIRED\<rparr>) d)
      (\<lambda>(_, d'). Inr d')) ids d = Inr d'" using assms(1) by (simp add: expire_rows_def)
  next
    fix i d1 d2
    assume ok: "keys_ok d1 \<and> rows_ok d1 \<and> accounting_ok d1"
      and "andThen (update_transaction s i (\<lambda>t. t\<lparr>t_status := EXPIRED\<rparr>) d1) (\<lambda>(_, d'). Inr d') = Inr d2"
    then obtain r where upd: "update_transaction s i (\<lambda>t. t\<lparr>t_status := EXPIRED\<rparr>) d1 = Inr (r, d2)"
      by (auto simp: result_simps)
    show "keys_ok d2 \<and> rows_ok d2 \<and> accounting_ok d2"
      using ok keys_ok_stmt [OF upd_transaction [OF upd]] rows_ok_stmt [OF upd_transaction [OF upd]]
        accounting_quiet_update [OF upd] by simp
  qed (use assms in simp)
  then show ?thesis by blast
qed

section \<open>Every step keeps the invariants\<close>

lemma idempotent_db:
  "snd (createTransactionIdempotently a now k f ins d)
    = snd (sql_transaction (Some \<lparr>ac_type = SYSTEM, ac_id = a, ac_reason = None\<rparr>) now ins d)"
  by (simp add: createTransactionIdempotently_def withActor_def split: prod.splits sum.splits option.splits)

lemma split_outcome: "snd (case r of (Inl e, d) \<Rightarrow> (f e, d) | (Inr x, d) \<Rightarrow> (g x, d)) = snd r"
  by (simp split: prod.splits sum.splits)


text \<open>The database after each service is that after the SQL transaction it opens, if it opens one.\<close>

lemma transition_db:
  "snd (transition eid xid now ref dto v d)
    = snd (sql_transaction (Some (transition_actor dto)) now (transition_body eid xid ref dto v) d)"
  by (simp add: transition_def withActor_def split: prod.splits sum.splits transition_outcome.splits)

lemma create_api_key_db:
  "snd (create_api_key sha kid rnd given now dto d) = d
   \<or> (\<exists>rawKey. snd (create_api_key sha kid rnd given now dto d)
        = snd (sql_transaction None now (create_key_body sha kid dto rawKey) d))"
  by (auto simp: create_api_key_def Let_def split_outcome)

lemma revoke_db:
  "snd (revoke_api_key kid clock d) = d
   \<or> snd (revoke_api_key kid clock d) = snd (sql_transaction None clock (revoke_body kid clock) d)"
  by (simp add: revoke_api_key_def split: option.splits)

lemma resolve_db:
  "snd (resolve_exception xid clock resolution who d) = d
   \<or> snd (resolve_exception xid clock resolution who d)
      = snd (sql_transaction None clock (resolve_body xid clock who resolution) d)"
  by (simp add: resolve_exception_def split: sum.splits)

lemma report_db:
  "snd (reportDiscrepancy xid now inp d) = d
   \<or> snd (reportDiscrepancy xid now inp d) = snd (sql_transaction None now (report_body xid inp) d)"
  by (simp add: reportDiscrepancy_def)

text \<open>
  \<open>service_transaction\<close>: a step is the identity or one SQL transaction whose body is a sequence of
  statements and keeps the accounting.
\<close>

definition service_transaction :: "db \<Rightarrow> db \<Rightarrow> bool" where
  "service_transaction d d' \<longleftrightarrow> d' = d \<or>
     (\<exists>who now (body :: session \<Rightarrow> db \<Rightarrow> app_error + (unit \<times> db)).
        d' = snd (sql_transaction who now body d) \<and> sql_body body
        \<and> (\<forall>s x d1. tables_ok d \<longrightarrow> accounting_ok d \<longrightarrow> body s d = Inr (x, d1) \<longrightarrow> accounting_ok d1))"

text \<open>The result of a body does not matter for the state it leaves.\<close>

definition discard :: "(session \<Rightarrow> db \<Rightarrow> app_error + ('a \<times> db)) \<Rightarrow> session \<Rightarrow> db \<Rightarrow> app_error + (unit \<times> db)" where
  "discard body s d = andThen (body s d) (\<lambda>(x, d'). Inr ((), d'))"

lemma discard_db: "snd (sql_transaction who now (discard body) d) = snd (sql_transaction who now body d)"
  by (cases "body \<lparr>s_tx_id = next_tx_id d, s_now = now, s_actor = who\<rparr> d")
     (auto simp: sql_transaction_def discard_def Let_def andThen_def split: prod.splits sum.splits)

lemma service_transactionI:
  assumes "d' = snd (sql_transaction who now body d)" "sql_body body"
    "\<And>s x d1. tables_ok d \<Longrightarrow> accounting_ok d \<Longrightarrow> body s d = Inr (x, d1) \<Longrightarrow> accounting_ok d1"
  shows "service_transaction d d'"
proof -
  have "sql_body (discard body)"
    using assms(2) by (auto simp: sql_body_def discard_def result_simps)
  moreover have "accounting_ok d1" if "tables_ok d" "accounting_ok d" "discard body s d = Inr (x, d1)" for s x d1
    using assms(3) that by (auto simp: discard_def result_simps)
  ultimately show ?thesis
    unfolding service_transaction_def using assms(1) discard_db [of who now body d] by metis
qed

lemma unrelated_statement:
  assumes "accounting_ok d"
  shows "insert_api_key k d = Inr (rk, d') \<Longrightarrow> accounting_ok d'"
    "update_api_key i fk d = Inr (rk, d') \<Longrightarrow> accounting_ok d'"
    "insert_exception x d = Inr (rx, d') \<Longrightarrow> accounting_ok d'"
    "update_exception i fx d = Inr (rx, d') \<Longrightarrow> accounting_ok d'"
    "insert_load s started d = Inr (rl, d') \<Longrightarrow> accounting_ok d'"
  by (auto simp: insert_load_def Let_def dest!: insert_api_key_InrD update_api_key_InrD insert_exception_InrD update_exception_InrD
      intro!: accounting_ok_cong [OF _ _ _ _ assms])

lemma create_payment_body_accounting:
  assumes "create_payment_body sha config inp dto key mid s d = Inr (r, d')" "tables_ok d" "accounting_ok d"
  shows "accounting_ok d'"
proof -
  obtain t where t: "insert_transaction s t d = Inr (r, d')" "t_type t = PAYMENT"
    using assms(1) by (auto simp: create_payment_body_def result_simps)
  show ?thesis by (rule accounting_new_transaction [OF t(1) assms(2,3)]) (simp add: t(2))
qed

lemma create_refund_body_accounting:
  assumes "create_refund_body sha config inp ref parent dto key s d = Inr (r, d')" "tables_ok d" "accounting_ok d"
    "parent \<in> set (transactions d)"
  shows "accounting_ok d'"
proof -
  obtain t where t: "insert_transaction s t d = Inr (r, d')" "t_parent_transaction_id t = Some (t_id parent)"
    "t_merchant_id t = t_merchant_id parent" "t_provider t = t_provider parent" "t_currency t = t_currency parent"
    using assms(1) by (auto simp: create_refund_body_def result_simps)
  show ?thesis by (rule accounting_new_transaction [OF t(1) assms(2,3)]) (use t assms(4) in auto)
qed

lemma step_transaction:
  assumes "service_step d d'"
  shows "service_transaction d d'"
  using assms
proof cases
  case (step_merchant mid aid now dto)
  show ?thesis
    by (rule service_transactionI [OF _ merchant_tx.sql_body_axioms])
       (use step_merchant in \<open>auto simp: create_merchant_def intro: accounting_new_merchant\<close>)
next
  case (step_payment sha config inp pdto key merchant_id)
  show ?thesis
    by (rule service_transactionI [OF _ payment_tx.sql_body_axioms])
       (use step_payment in \<open>auto simp: create_payment_def idempotent_db intro: create_payment_body_accounting\<close>)
next
  case (step_refund sha config inp ref rdto key merchant_id)
  show ?thesis
  proof (cases "lookup_by t_reference ref (transactions d)")
    case None
    then show ?thesis
      using step_refund by (simp add: create_refund_def findByReferenceOrThrow_def service_transaction_def)
  next
    case (Some parent)
    show ?thesis
    proof (cases "t_merchant_id parent = merchant_id")
      case False
      then show ?thesis
        using step_refund Some by (simp add: create_refund_def findByReferenceOrThrow_def service_transaction_def)
    next
      case True
      then show ?thesis
        using step_refund Some lookup_by_in [OF Some]
        by (intro service_transactionI [OF _ refund_tx.sql_body_axioms])
           (auto simp: create_refund_def findByReferenceOrThrow_def idempotent_db intro: create_refund_body_accounting)
    qed
  qed
next
  case (step_transition eid xid now ref tdto version)
  show ?thesis
    by (rule service_transactionI [OF _ transition_tx.sql_body_axioms])
       (use step_transition in \<open>auto simp: transition_db intro: transition_body_accounting\<close>)
next
  case (step_expire clock now locked)
  show ?thesis
  proof (rule service_transactionI [OF _ expire_tx.sql_body_axioms])
    show "d' = snd (sql_transaction (Some expiration_actor) now (expire_one_batch_body clock locked) d)"
      using step_expire by (simp add: expire_one_batch_def withActor_def)
    fix s x d1 assume "tables_ok d" "accounting_ok d" "expire_one_batch_body clock locked s d = Inr (x, d1)"
    then show "accounting_ok d1"
      by (auto simp: expire_one_batch_body_def Let_def result_simps tables_ok_def
          intro: expire_rows_accounting split: if_splits)
  qed
next
  case (step_api_key sha kid rnd given now kdto)
  show ?thesis
    using create_api_key_db [of sha kid rnd given now kdto d]
  proof (elim disjE exE)
    fix rawKey
    assume "snd (create_api_key sha kid rnd given now kdto d)
        = snd (sql_transaction None now (create_key_body sha kid kdto rawKey) d)"
    then show ?thesis
      using step_api_key by (intro service_transactionI [OF _ key_tx.sql_body_axioms])
        (auto simp: create_key_body_def intro: unrelated_statement)
  qed (use step_api_key in \<open>simp add: service_transaction_def\<close>)
next
  case (step_revoke kid clock)
  show ?thesis
    using revoke_db [of kid clock d]
  proof (elim disjE)
    assume "snd (revoke_api_key kid clock d) = snd (sql_transaction None clock (revoke_body kid clock) d)"
    then show ?thesis
      using step_revoke by (intro service_transactionI [OF _ revoke_tx.sql_body_axioms])
        (auto simp: revoke_body_def intro: unrelated_statement)
  qed (use step_revoke in \<open>simp add: service_transaction_def\<close>)
next
  case (step_resolve xid clock resolution who)
  show ?thesis
    using resolve_db [of xid clock resolution who d]
  proof (elim disjE)
    assume "snd (resolve_exception xid clock resolution who d)
      = snd (sql_transaction None clock (resolve_body xid clock who resolution) d)"
    then show ?thesis
      using step_resolve by (intro service_transactionI [OF _ resolve_tx.sql_body_axioms])
        (auto simp: resolve_body_def intro: unrelated_statement)
  qed (use step_resolve in \<open>simp add: service_transaction_def\<close>)
next
  case (step_report xid now inp)
  show ?thesis
    using report_db [of xid now inp d]
  proof (elim disjE)
    assume "snd (reportDiscrepancy xid now inp d) = snd (sql_transaction None now (report_body xid inp) d)"
    then show ?thesis
      using step_report by (intro service_transactionI [OF _ report_tx.sql_body_axioms])
        (auto simp: report_body_def intro: unrelated_statement)
  qed (use step_report in \<open>simp add: service_transaction_def\<close>)
next
  case (step_load started now)
  show ?thesis
    by (rule service_transactionI [OF _ load_tx.sql_body_axioms])
       (use step_load in \<open>auto simp: create_dataset_load_def intro: unrelated_statement\<close>)
qed

lemma step_system_ok:
  assumes "service_step d d'" "system_ok d"
  shows "system_ok d'"
  using step_transaction [OF assms(1)] unfolding service_transaction_def
proof (elim disjE exE conjE)
  fix who now and body :: "session \<Rightarrow> db \<Rightarrow> app_error + (unit \<times> db)"
  assume run: "d' = snd (sql_transaction who now body d)" "sql_body body"
    and acc: "\<forall>s x d1. tables_ok d \<longrightarrow> accounting_ok d \<longrightarrow> body s d = Inr (x, d1) \<longrightarrow> accounting_ok d1"
  show "system_ok d'"
    using assms(2) sql_body.keeps_tables [OF run(2)] sql_body.keeps_ledger [OF run(2)] acc
      accounting_sql_transaction [of body d who now] run(1)
    unfolding system_ok_def by blast
qed (use assms(2) in simp)

lemma step_evolves:
  assumes "service_step d d'" "keys_ok d"
  shows "evolves d d'"
  using step_transaction [OF assms(1)] sql_body.rows_evolved [OF _ assms(2)] evolves_refl
  unfolding service_transaction_def by blast

lemma initial_keys: "inj uid \<Longrightarrow> keys_ok (initial_db uid now)"
  by (simp add: keys_ok_def initial_db_def chart_account_def inj_eq)

lemma initial_system_ok:
  assumes "inj uid"
  shows "system_ok (initial_db uid now)"
proof -
  have "list_all (\<lambda>a. is_account_code (a_code a) \<and> is_currency (a_currency a)) (accounts (initial_db uid now))"
    by (simp add: initial_db_def chart_account_def is_currency_def is_upper_def is_lower_def is_digit_def
        is_code_char_def char_code_def)
  then have "rows_ok (initial_db uid now)"
    by (simp add: rows_ok_def list_all_iff) (simp add: initial_db_def)
  moreover have "refs_ok (initial_db uid now)" "history_ok (initial_db uid now)" "ledger_ok (initial_db uid now)"
    by (simp_all add: initial_db_def refs_ok_def history_ok_def ledger_ok_def)
  moreover have "account_balance c (initial_db uid now) = 0" for c
    by (simp add: account_balance_def account_net_def initial_db_def split: option.splits)
  then have "accounting_ok (initial_db uid now)"
    by (simp add: accounting_ok_def books_ok_def refund_parents_ok_def refunded_ok_def accounts_xof_def total_def)
       (simp add: initial_db_def chart_account_def DEFAULT_CURRENCY_def)
  ultimately show ?thesis
    using initial_keys [OF assms] by (simp add: system_ok_def tables_ok_def)
qed

lemma reachable_system_ok: "reachable uid now d \<Longrightarrow> inj uid \<Longrightarrow> system_ok d"
  by (induction rule: reachable.induct) (auto intro: initial_system_ok step_system_ok)

section \<open>Any number of steps\<close>

lemma reachable_steps: "rtranclp service_step d d' \<Longrightarrow> reachable uid now d \<Longrightarrow> reachable uid now d'"
  by (induction rule: rtranclp_induct) (auto intro: reach_step)

lemma steps_evolve: "rtranclp service_step d d' \<Longrightarrow> system_ok d \<Longrightarrow> evolves d d' \<and> system_ok d'"
proof (induction rule: rtranclp_induct)
  case base
  then show ?case by (simp add: evolves_refl)
next
  case (step d1 d2)
  then have "system_ok d1" by simp
  moreover from this have "evolves d1 d2"
    using step.hyps(2) by (auto intro: step_evolves simp: system_ok_def tables_ok_def)
  ultimately show ?case using step step_system_ok evolves_trans by blast
qed

lemma row_later:
  assumes "rtranclp service_step d d'" "system_ok d" "t \<in> set (transactions d)"
  obtains t' where "t' \<in> set (transactions d')" "row_evolves t t'"
  using steps_evolve [OF assms(1,2)] assms(3) by (auto simp: evolves_def)

lemma key_later:
  assumes "rtranclp service_step d d'" "system_ok d" "k \<in> set (api_keys d)"
  obtains k' where "k' \<in> set (api_keys d')" "key_evolves k k'"
  using steps_evolve [OF assms(1,2)] assms(3) by (auto simp: evolves_def)

lemma exception_later:
  assumes "rtranclp service_step d d'" "system_ok d" "x \<in> set (exceptions d)"
  obtains x' where "x' \<in> set (exceptions d')" "exception_evolves x x'"
  using steps_evolve [OF assms(1,2)] assms(3) by (auto simp: evolves_def)

lemma step_keeps_lines:
  assumes "service_step d d'" "ledger_ok d" "i \<in> e_id ` set (entries d)"
  shows "lines_of i d' = lines_of i d"
  using step_transaction [OF assms(1)] sql_body.keeps_committed_lines [OF _ assms(2,3)]
  unfolding service_transaction_def by blast

lemma steps_keep_lines:
  "rtranclp service_step d d' \<Longrightarrow> system_ok d \<Longrightarrow> i \<in> e_id ` set (entries d) \<Longrightarrow> lines_of i d' = lines_of i d"
proof (induction rule: rtranclp_induct)
  case base
  then show ?case by simp
next
  case (step d1 d2)
  have ok: "evolves d d1" "system_ok d1" using steps_evolve [OF step.hyps(1) step.prems(1)] by simp_all
  then have "i \<in> e_id ` set (entries d1)"
    using step.prems(2) by (auto simp: evolves_def extends_iff)
  then show ?case
    using step_keeps_lines [OF step.hyps(2)] ok(2) step.IH step.prems by (simp add: system_ok_def)
qed

end
