(* ===== verification/Demo_Run.thy ===== *)
theory Demo_Run
  imports System
begin

text \<open>
  A concrete day: the database of the migrations, a payment of 10000 XOF that is confirmed, partly
  refunded, disputed and lost, and one that expires and is acknowledged too late. Every state is
  computed from the operations of the model; the witnesses of the properties are taken from here.
\<close>

section \<open>Parameters of the run\<close>

definition demo_uid :: "nat \<Rightarrow> uuid" where "demo_uid n = replicate n (CHR ''u'')"

definition demo_sha :: "string \<Rightarrow> string" where "demo_sha s = replicate 64 (CHR ''a'')"

definition demo_config :: "string \<Rightarrow> rat option" where "demo_config = (\<lambda>_. None)"

definition demo_inputs :: "uuid \<Rightarrow> nat \<Rightarrow> timestamp \<Rightarrow> request_inputs" where
  "demo_inputs i b now =
    \<lparr>in_id = i, in_iso_date = ''2026-09-22T10:00:00.000Z'', in_bytes = [b, b, b, b], in_clock = now, in_db_now = now\<rparr>"

definition demo_payment :: create_payment_dto where
  "demo_payment = \<lparr>cp_provider = WAVE, cp_amount = ''10000'', cp_currency = ''XOF'',
                   cp_customer_msisdn = ''+2250700000000''\<rparr>"

definition demo_refund :: create_refund_dto where
  "demo_refund = \<lparr>cr_amount = ''4000'', cr_reason = None\<rparr>"

definition demo_to :: "transaction_status \<Rightarrow> transition_status_dto" where
  "demo_to st = \<lparr>ts_status = st, ts_reason = None, ts_provider_reference = None\<rparr>"

lemma inj_demo_uid: "inj demo_uid"
  by (auto simp: inj_def demo_uid_def dest: arg_cong [of _ _ length])

lemma demo_uid_eq [simp]: "demo_uid m = demo_uid n \<longleftrightarrow> m = n"
  by (simp add: inj_eq [OF inj_demo_uid])

text \<open>Evaluation of the operations by the simplifier.\<close>

lemma hex_digit_simps [simp]:
  "hex_digit 0 = CHR ''0''" "hex_digit (Suc 0) = CHR ''1''" "hex_digit 2 = CHR ''2''" "hex_digit 3 = CHR ''3''"
  "hex_digit 4 = CHR ''4''"
  by code_simp+

lemma demo_digits [simp]:
  "BigInt_of ''10000'' = Inr 10000" "BigInt_of ''4000'' = Inr 4000"
  by (simp_all add: BigInt_of_def string_to_bigint_def js_trim_def is_js_space_def radix_number_def
      radix_value_def char_code_def is_digit_def)

lemma demo_formats [simp]:
  "is_hex64 (demo_sha x)" "length (demo_sha x) = 64" "is_currency ''XOF''" "is_msisdn ''+2250700000000''"
  by (simp_all add: is_hex64_def demo_sha_def is_digit_def is_upper_def char_code_def list_all_iff is_currency_def)

lemma demo_references:
  "generateTransactionReference ''2026-09-22T10:00:00.000Z'' [Suc 0, Suc 0, Suc 0, Suc 0] = ''TXN-20260922-010101''"
  "generateTransactionReference ''2026-09-22T10:00:00.000Z'' [2, 2, 2, 2] = ''TXN-20260922-020202''"
  "generateTransactionReference ''2026-09-22T10:00:00.000Z'' [3, 3, 3, 3] = ''TXN-20260922-030303''"
  by (simp_all add: generateTransactionReference_def to_upper_def hex_byte_def is_lower_def char_code_def)

lemmas eval_simps =
  create_payment_def create_refund_def createTransactionIdempotently_def withActor_def sql_transaction_def
  create_payment_body_def create_refund_body_def findByReferenceOrThrow_def fingerprintOf_def refundFingerprintOf_def
  insert_transaction_def transaction_ranges_def transaction_checks_def check_all.simps
  transactions_before_insert_def in_int8_def in_int4_def transaction_unique_checks_def record_status_def
  deferred_checks_def setting_reason_def nullif_empty_def settled_statuses_def computeExpiresAt_def
  resolveExpiryMinutes_def FALLBACK_EXPIRY_MINUTES_def demo_config_def demo_references
  lookup_by_def replace_by_def
  transition_def transition_body_def transition_actor_def update_transaction_def transactions_before_update_def
  frozen_columns_kept_def allowed_def status_transitions_def
  bookPaymentSuccess_def bookRefundSuccess_def bookDisputeReversal_def findMerchantOrThrow_def findAccounts_def
  idOf_def clearingCode_simps merchantPayableAccountCode_def FEES_CODE_def computeCommission_def bigint_div_def
  insert_entry_def insert_postings_def insert_posting_def postings_before_insert_def posting_def
  assert_entry_valid_def lines_of_def total_debit_def total_credit_def is_debit_def
  insert_exception_def exception_ranges_def exception_checks_def
  expire_one_batch_def expire_one_batch_body_def select_overdue_def overdue_def expire_rows_def expiration_actor_def
  EXPIRATION_BATCH_SIZE_def is_digit_def char_code_def Let_def

section \<open>The states\<close>

definition demo_start :: db where "demo_start = initial_db demo_uid 0"

definition demo_db ::
    "transaction list \<Rightarrow> status_history list \<Rightarrow> journal_entry list \<Rightarrow> ledger_posting list
      \<Rightarrow> reconciliation_exception list \<Rightarrow> nat \<Rightarrow> db" where
  "demo_db ts hs es ps xs n =
    demo_start\<lparr>transactions := ts, history := hs, entries := es, postings := ps, exceptions := xs, next_tx_id := n\<rparr>"

definition demo_row :: "uuid \<Rightarrow> string \<Rightarrow> string \<Rightarrow> timestamp \<Rightarrow> transaction_status \<Rightarrow> int \<Rightarrow> int \<Rightarrow> timestamp \<Rightarrow> transaction" where
  "demo_row i ref key created st refunded version updated =
    \<lparr>t_id = i, t_reference = ref, t_type = PAYMENT, t_status = st, t_provider = WAVE, t_provider_reference = None,
     t_amount = 10000, t_currency = ''XOF'', t_refunded_amount = refunded, t_customer_msisdn = ''+2250700000000'',
     t_parent_transaction_id = None, t_merchant_id = demo_uid 6, t_idempotency_key = key,
     t_request_fingerprint = demo_sha [], t_version = version, t_expires_at = Some (created + 900000),
     t_created_at = created, t_updated_at = updated\<rparr>"

definition demo_hist :: "uuid \<Rightarrow> transaction_status option \<Rightarrow> transaction_status \<Rightarrow> string \<Rightarrow> timestamp \<Rightarrow> status_history" where
  "demo_hist i old st who stamp =
    \<lparr>h_transaction_id = i, h_from_status = old, h_to_status = st, h_actor_type = SYSTEM, h_actor_id = Some who,
     h_reason = None, h_created_at = stamp\<rparr>"

definition demo_entry :: "uuid \<Rightarrow> string \<Rightarrow> uuid \<Rightarrow> nat \<Rightarrow> timestamp \<Rightarrow> journal_entry" where
  "demo_entry i descr tid n stamp =
    \<lparr>e_id = i, e_description = descr, e_transaction_id = Some tid, e_reverses_entry_id = None,
     e_created_tx_id = n, e_created_at = stamp\<rparr>"

definition demo_refund_row :: "transaction_status \<Rightarrow> int \<Rightarrow> timestamp \<Rightarrow> transaction" where
  "demo_refund_row st version updated =
    (demo_row ''t2'' ''TXN-20260922-020202'' ''k2'' 4000 st 0 version updated)
      \<lparr>t_type := REFUND, t_amount := 4000, t_parent_transaction_id := Some ''t1''\<rparr>"

lemma demo_sha_const: "demo_sha x = demo_sha []" by (simp add: demo_sha_def)

lemmas demo_defs = demo_db_def demo_start_def initial_db_def chart_account_def demo_row_def demo_hist_def demo_inputs_def
  demo_payment_def demo_refund_def demo_to_def demo_entry_def demo_refund_row_def

definition demo_created :: db where
  "demo_created = demo_db
     [demo_row ''t1'' ''TXN-20260922-010101'' ''k1'' 1000 INITIATED 0 1 1000]
     [demo_hist ''t1'' None INITIATED ''api:payments'' 1000]
     []
     []
     [] 2"

lemma run_created:
  "create_payment demo_sha demo_config (demo_inputs ''t1'' 1 1000) demo_payment ''k1'' (demo_uid 6) demo_start =
    (Inr \<lparr>ir_transaction = demo_row ''t1'' ''TXN-20260922-010101'' ''k1'' 1000 INITIATED 0 1 1000, ir_replayed = False\<rparr>, demo_created)"
  by (simp add: eval_simps demo_defs demo_created_def demo_sha_const [of "canonical_payment _"])

definition demo_pending :: db where
  "demo_pending = demo_db
     [demo_row ''t1'' ''TXN-20260922-010101'' ''k1'' 1000 PENDING 0 2 2000]
     [demo_hist ''t1'' None INITIATED ''api:payments'' 1000,
       demo_hist ''t1'' (Some INITIATED) PENDING ''api:transactions'' 2000]
     []
     []
     [] 3"

lemma run_pending:
  "transition ''e2000'' ''x2000'' 2000 ''TXN-20260922-010101'' (demo_to PENDING) 1 demo_created =
    (Inr (demo_row ''t1'' ''TXN-20260922-010101'' ''k1'' 1000 PENDING 0 2 2000), demo_pending)"
  by (simp add: eval_simps demo_defs demo_created_def demo_pending_def)

definition demo_settled :: db where
  "demo_settled = demo_db
     [demo_row ''t1'' ''TXN-20260922-010101'' ''k1'' 1000 SUCCEEDED 0 3 3000]
     [demo_hist ''t1'' None INITIATED ''api:payments'' 1000,
       demo_hist ''t1'' (Some INITIATED) PENDING ''api:transactions'' 2000,
       demo_hist ''t1'' (Some PENDING) SUCCEEDED ''api:transactions'' 3000]
     [demo_entry ''e3000'' ''Paiement TXN-20260922-010101'' ''t1'' 3 3000]
     [posting ''e3000'' (demo_uid 2) DEBIT 10000 ''XOF'',
       posting ''e3000'' (demo_uid 4) CREDIT 9850 ''XOF'',
       posting ''e3000'' (demo_uid 5) CREDIT 150 ''XOF'']
     [] 4"

lemma run_settled:
  "transition ''e3000'' ''x3000'' 3000 ''TXN-20260922-010101'' (demo_to SUCCEEDED) 2 demo_pending =
    (Inr (demo_row ''t1'' ''TXN-20260922-010101'' ''k1'' 1000 SUCCEEDED 0 3 3000), demo_settled)"
  by (simp add: eval_simps demo_defs demo_pending_def demo_settled_def)

definition demo_refund_created :: db where
  "demo_refund_created = demo_db
     [demo_row ''t1'' ''TXN-20260922-010101'' ''k1'' 1000 SUCCEEDED 0 3 3000,
       demo_refund_row INITIATED 1 4000]
     [demo_hist ''t1'' None INITIATED ''api:payments'' 1000,
       demo_hist ''t1'' (Some INITIATED) PENDING ''api:transactions'' 2000,
       demo_hist ''t1'' (Some PENDING) SUCCEEDED ''api:transactions'' 3000,
       demo_hist ''t2'' None INITIATED ''api:payments'' 4000]
     [demo_entry ''e3000'' ''Paiement TXN-20260922-010101'' ''t1'' 3 3000]
     [posting ''e3000'' (demo_uid 2) DEBIT 10000 ''XOF'',
       posting ''e3000'' (demo_uid 4) CREDIT 9850 ''XOF'',
       posting ''e3000'' (demo_uid 5) CREDIT 150 ''XOF'']
     [] 5"

lemma run_refund_created:
  "create_refund demo_sha demo_config (demo_inputs ''t2'' 2 4000) ''TXN-20260922-010101'' demo_refund ''k2'' (demo_uid 6) demo_settled =
    (Inr \<lparr>ir_transaction = demo_refund_row INITIATED 1 4000, ir_replayed = False\<rparr>, demo_refund_created)"
  by (simp add: eval_simps demo_defs demo_settled_def demo_refund_created_def demo_sha_const [of "canonical_refund _ _"])

definition demo_refund_pending :: db where
  "demo_refund_pending = demo_db
     [demo_row ''t1'' ''TXN-20260922-010101'' ''k1'' 1000 SUCCEEDED 0 3 3000,
       demo_refund_row PENDING 2 5000]
     [demo_hist ''t1'' None INITIATED ''api:payments'' 1000,
       demo_hist ''t1'' (Some INITIATED) PENDING ''api:transactions'' 2000,
       demo_hist ''t1'' (Some PENDING) SUCCEEDED ''api:transactions'' 3000,
       demo_hist ''t2'' None INITIATED ''api:payments'' 4000,
       demo_hist ''t2'' (Some INITIATED) PENDING ''api:transactions'' 5000]
     [demo_entry ''e3000'' ''Paiement TXN-20260922-010101'' ''t1'' 3 3000]
     [posting ''e3000'' (demo_uid 2) DEBIT 10000 ''XOF'',
       posting ''e3000'' (demo_uid 4) CREDIT 9850 ''XOF'',
       posting ''e3000'' (demo_uid 5) CREDIT 150 ''XOF'']
     [] 6"

lemma run_refund_pending:
  "transition ''e5000'' ''x5000'' 5000 ''TXN-20260922-020202'' (demo_to PENDING) 1 demo_refund_created =
    (Inr (demo_refund_row PENDING 2 5000), demo_refund_pending)"
  by (simp add: eval_simps demo_defs demo_refund_created_def demo_refund_pending_def)

definition demo_refunded :: db where
  "demo_refunded = demo_db
     [demo_row ''t1'' ''TXN-20260922-010101'' ''k1'' 1000 PARTIALLY_REFUNDED 4000 4 6000,
       demo_refund_row SUCCEEDED 3 6000]
     [demo_hist ''t1'' None INITIATED ''api:payments'' 1000,
       demo_hist ''t1'' (Some INITIATED) PENDING ''api:transactions'' 2000,
       demo_hist ''t1'' (Some PENDING) SUCCEEDED ''api:transactions'' 3000,
       demo_hist ''t2'' None INITIATED ''api:payments'' 4000,
       demo_hist ''t2'' (Some INITIATED) PENDING ''api:transactions'' 5000,
       demo_hist ''t2'' (Some PENDING) SUCCEEDED ''api:transactions'' 6000,
       demo_hist ''t1'' (Some SUCCEEDED) PARTIALLY_REFUNDED ''api:transactions'' 6000]
     [demo_entry ''e3000'' ''Paiement TXN-20260922-010101'' ''t1'' 3 3000,
       demo_entry ''e6000'' ''Remboursement TXN-20260922-020202'' ''t2'' 6 6000]
     [posting ''e3000'' (demo_uid 2) DEBIT 10000 ''XOF'',
       posting ''e3000'' (demo_uid 4) CREDIT 9850 ''XOF'',
       posting ''e3000'' (demo_uid 5) CREDIT 150 ''XOF'',
       posting ''e6000'' (demo_uid 4) DEBIT 4000 ''XOF'',
       posting ''e6000'' (demo_uid 2) CREDIT 4000 ''XOF'']
     [] 7"

lemma run_refunded:
  "transition ''e6000'' ''x6000'' 6000 ''TXN-20260922-020202'' (demo_to SUCCEEDED) 2 demo_refund_pending =
    (Inr (demo_refund_row SUCCEEDED 3 6000), demo_refunded)"
  by (simp add: eval_simps demo_defs demo_refund_pending_def demo_refunded_def)

definition demo_disputed :: db where
  "demo_disputed = demo_db
     [demo_row ''t1'' ''TXN-20260922-010101'' ''k1'' 1000 DISPUTED 4000 5 7000,
       demo_refund_row SUCCEEDED 3 6000]
     [demo_hist ''t1'' None INITIATED ''api:payments'' 1000,
       demo_hist ''t1'' (Some INITIATED) PENDING ''api:transactions'' 2000,
       demo_hist ''t1'' (Some PENDING) SUCCEEDED ''api:transactions'' 3000,
       demo_hist ''t2'' None INITIATED ''api:payments'' 4000,
       demo_hist ''t2'' (Some INITIATED) PENDING ''api:transactions'' 5000,
       demo_hist ''t2'' (Some PENDING) SUCCEEDED ''api:transactions'' 6000,
       demo_hist ''t1'' (Some SUCCEEDED) PARTIALLY_REFUNDED ''api:transactions'' 6000,
       demo_hist ''t1'' (Some PARTIALLY_REFUNDED) DISPUTED ''api:transactions'' 7000]
     [demo_entry ''e3000'' ''Paiement TXN-20260922-010101'' ''t1'' 3 3000,
       demo_entry ''e6000'' ''Remboursement TXN-20260922-020202'' ''t2'' 6 6000]
     [posting ''e3000'' (demo_uid 2) DEBIT 10000 ''XOF'',
       posting ''e3000'' (demo_uid 4) CREDIT 9850 ''XOF'',
       posting ''e3000'' (demo_uid 5) CREDIT 150 ''XOF'',
       posting ''e6000'' (demo_uid 4) DEBIT 4000 ''XOF'',
       posting ''e6000'' (demo_uid 2) CREDIT 4000 ''XOF'']
     [] 8"

lemma run_disputed:
  "transition ''e7000'' ''x7000'' 7000 ''TXN-20260922-010101'' (demo_to DISPUTED) 4 demo_refunded =
    (Inr (demo_row ''t1'' ''TXN-20260922-010101'' ''k1'' 1000 DISPUTED 4000 5 7000), demo_disputed)"
  by (simp add: eval_simps demo_defs demo_refunded_def demo_disputed_def)

definition demo_reversed :: db where
  "demo_reversed = demo_db
     [demo_row ''t1'' ''TXN-20260922-010101'' ''k1'' 1000 REVERSED 10000 7 8000,
       demo_refund_row SUCCEEDED 3 6000]
     [demo_hist ''t1'' None INITIATED ''api:payments'' 1000,
       demo_hist ''t1'' (Some INITIATED) PENDING ''api:transactions'' 2000,
       demo_hist ''t1'' (Some PENDING) SUCCEEDED ''api:transactions'' 3000,
       demo_hist ''t2'' None INITIATED ''api:payments'' 4000,
       demo_hist ''t2'' (Some INITIATED) PENDING ''api:transactions'' 5000,
       demo_hist ''t2'' (Some PENDING) SUCCEEDED ''api:transactions'' 6000,
       demo_hist ''t1'' (Some SUCCEEDED) PARTIALLY_REFUNDED ''api:transactions'' 6000,
       demo_hist ''t1'' (Some PARTIALLY_REFUNDED) DISPUTED ''api:transactions'' 7000,
       demo_hist ''t1'' (Some DISPUTED) REVERSED ''api:transactions'' 8000]
     [demo_entry ''e3000'' ''Paiement TXN-20260922-010101'' ''t1'' 3 3000,
       demo_entry ''e6000'' ''Remboursement TXN-20260922-020202'' ''t2'' 6 6000,
       demo_entry ''e8000'' ''Litige perdu TXN-20260922-010101'' ''t1'' 8 8000]
     [posting ''e3000'' (demo_uid 2) DEBIT 10000 ''XOF'',
       posting ''e3000'' (demo_uid 4) CREDIT 9850 ''XOF'',
       posting ''e3000'' (demo_uid 5) CREDIT 150 ''XOF'',
       posting ''e6000'' (demo_uid 4) DEBIT 4000 ''XOF'',
       posting ''e6000'' (demo_uid 2) CREDIT 4000 ''XOF'',
       posting ''e8000'' (demo_uid 4) DEBIT 6000 ''XOF'',
       posting ''e8000'' (demo_uid 2) CREDIT 6000 ''XOF'']
     [] 9"

lemma run_reversed:
  "transition ''e8000'' ''x8000'' 8000 ''TXN-20260922-010101'' (demo_to REVERSED) 5 demo_disputed =
    (Inr (demo_row ''t1'' ''TXN-20260922-010101'' ''k1'' 1000 REVERSED 10000 7 8000), demo_reversed)"
  by (simp add: eval_simps demo_defs demo_disputed_def demo_reversed_def)

definition demo_second :: db where
  "demo_second = demo_db
     [demo_row ''t1'' ''TXN-20260922-010101'' ''k1'' 1000 REVERSED 10000 7 8000,
       demo_refund_row SUCCEEDED 3 6000,
       demo_row ''t3'' ''TXN-20260922-030303'' ''k3'' 20000 INITIATED 0 1 20000]
     [demo_hist ''t1'' None INITIATED ''api:payments'' 1000,
       demo_hist ''t1'' (Some INITIATED) PENDING ''api:transactions'' 2000,
       demo_hist ''t1'' (Some PENDING) SUCCEEDED ''api:transactions'' 3000,
       demo_hist ''t2'' None INITIATED ''api:payments'' 4000,
       demo_hist ''t2'' (Some INITIATED) PENDING ''api:transactions'' 5000,
       demo_hist ''t2'' (Some PENDING) SUCCEEDED ''api:transactions'' 6000,
       demo_hist ''t1'' (Some SUCCEEDED) PARTIALLY_REFUNDED ''api:transactions'' 6000,
       demo_hist ''t1'' (Some PARTIALLY_REFUNDED) DISPUTED ''api:transactions'' 7000,
       demo_hist ''t1'' (Some DISPUTED) REVERSED ''api:transactions'' 8000,
       demo_hist ''t3'' None INITIATED ''api:payments'' 20000]
     [demo_entry ''e3000'' ''Paiement TXN-20260922-010101'' ''t1'' 3 3000,
       demo_entry ''e6000'' ''Remboursement TXN-20260922-020202'' ''t2'' 6 6000,
       demo_entry ''e8000'' ''Litige perdu TXN-20260922-010101'' ''t1'' 8 8000]
     [posting ''e3000'' (demo_uid 2) DEBIT 10000 ''XOF'',
       posting ''e3000'' (demo_uid 4) CREDIT 9850 ''XOF'',
       posting ''e3000'' (demo_uid 5) CREDIT 150 ''XOF'',
       posting ''e6000'' (demo_uid 4) DEBIT 4000 ''XOF'',
       posting ''e6000'' (demo_uid 2) CREDIT 4000 ''XOF'',
       posting ''e8000'' (demo_uid 4) DEBIT 6000 ''XOF'',
       posting ''e8000'' (demo_uid 2) CREDIT 6000 ''XOF'']
     [] 10"

lemma run_second:
  "create_payment demo_sha demo_config (demo_inputs ''t3'' 3 20000) demo_payment ''k3'' (demo_uid 6) demo_reversed =
    (Inr \<lparr>ir_transaction = demo_row ''t3'' ''TXN-20260922-030303'' ''k3'' 20000 INITIATED 0 1 20000, ir_replayed = False\<rparr>, demo_second)"
  by (simp add: eval_simps demo_defs demo_reversed_def demo_second_def demo_sha_const [of "canonical_payment _"])

definition demo_second_pending :: db where
  "demo_second_pending = demo_db
     [demo_row ''t1'' ''TXN-20260922-010101'' ''k1'' 1000 REVERSED 10000 7 8000,
       demo_refund_row SUCCEEDED 3 6000,
       demo_row ''t3'' ''TXN-20260922-030303'' ''k3'' 20000 PENDING 0 2 21000]
     [demo_hist ''t1'' None INITIATED ''api:payments'' 1000,
       demo_hist ''t1'' (Some INITIATED) PENDING ''api:transactions'' 2000,
       demo_hist ''t1'' (Some PENDING) SUCCEEDED ''api:transactions'' 3000,
       demo_hist ''t2'' None INITIATED ''api:payments'' 4000,
       demo_hist ''t2'' (Some INITIATED) PENDING ''api:transactions'' 5000,
       demo_hist ''t2'' (Some PENDING) SUCCEEDED ''api:transactions'' 6000,
       demo_hist ''t1'' (Some SUCCEEDED) PARTIALLY_REFUNDED ''api:transactions'' 6000,
       demo_hist ''t1'' (Some PARTIALLY_REFUNDED) DISPUTED ''api:transactions'' 7000,
       demo_hist ''t1'' (Some DISPUTED) REVERSED ''api:transactions'' 8000,
       demo_hist ''t3'' None INITIATED ''api:payments'' 20000,
       demo_hist ''t3'' (Some INITIATED) PENDING ''api:transactions'' 21000]
     [demo_entry ''e3000'' ''Paiement TXN-20260922-010101'' ''t1'' 3 3000,
       demo_entry ''e6000'' ''Remboursement TXN-20260922-020202'' ''t2'' 6 6000,
       demo_entry ''e8000'' ''Litige perdu TXN-20260922-010101'' ''t1'' 8 8000]
     [posting ''e3000'' (demo_uid 2) DEBIT 10000 ''XOF'',
       posting ''e3000'' (demo_uid 4) CREDIT 9850 ''XOF'',
       posting ''e3000'' (demo_uid 5) CREDIT 150 ''XOF'',
       posting ''e6000'' (demo_uid 4) DEBIT 4000 ''XOF'',
       posting ''e6000'' (demo_uid 2) CREDIT 4000 ''XOF'',
       posting ''e8000'' (demo_uid 4) DEBIT 6000 ''XOF'',
       posting ''e8000'' (demo_uid 2) CREDIT 6000 ''XOF'']
     [] 11"

lemma run_second_pending:
  "transition ''e21000'' ''x21000'' 21000 ''TXN-20260922-030303'' (demo_to PENDING) 1 demo_second =
    (Inr (demo_row ''t3'' ''TXN-20260922-030303'' ''k3'' 20000 PENDING 0 2 21000), demo_second_pending)"
  by (simp add: eval_simps demo_defs demo_second_def demo_second_pending_def)

definition demo_expired :: db where
  "demo_expired = demo_db
     [demo_row ''t1'' ''TXN-20260922-010101'' ''k1'' 1000 REVERSED 10000 7 8000,
       demo_refund_row SUCCEEDED 3 6000,
       demo_row ''t3'' ''TXN-20260922-030303'' ''k3'' 20000 EXPIRED 0 3 1000000]
     [demo_hist ''t1'' None INITIATED ''api:payments'' 1000,
       demo_hist ''t1'' (Some INITIATED) PENDING ''api:transactions'' 2000,
       demo_hist ''t1'' (Some PENDING) SUCCEEDED ''api:transactions'' 3000,
       demo_hist ''t2'' None INITIATED ''api:payments'' 4000,
       demo_hist ''t2'' (Some INITIATED) PENDING ''api:transactions'' 5000,
       demo_hist ''t2'' (Some PENDING) SUCCEEDED ''api:transactions'' 6000,
       demo_hist ''t1'' (Some SUCCEEDED) PARTIALLY_REFUNDED ''api:transactions'' 6000,
       demo_hist ''t1'' (Some PARTIALLY_REFUNDED) DISPUTED ''api:transactions'' 7000,
       demo_hist ''t1'' (Some DISPUTED) REVERSED ''api:transactions'' 8000,
       demo_hist ''t3'' None INITIATED ''api:payments'' 20000,
       demo_hist ''t3'' (Some INITIATED) PENDING ''api:transactions'' 21000,
       (demo_hist ''t3'' (Some PENDING) EXPIRED ''expiration-job'' 1000000)\<lparr>h_reason := ac_reason expiration_actor\<rparr>]
     [demo_entry ''e3000'' ''Paiement TXN-20260922-010101'' ''t1'' 3 3000,
       demo_entry ''e6000'' ''Remboursement TXN-20260922-020202'' ''t2'' 6 6000,
       demo_entry ''e8000'' ''Litige perdu TXN-20260922-010101'' ''t1'' 8 8000]
     [posting ''e3000'' (demo_uid 2) DEBIT 10000 ''XOF'',
       posting ''e3000'' (demo_uid 4) CREDIT 9850 ''XOF'',
       posting ''e3000'' (demo_uid 5) CREDIT 150 ''XOF'',
       posting ''e6000'' (demo_uid 4) DEBIT 4000 ''XOF'',
       posting ''e6000'' (demo_uid 2) CREDIT 4000 ''XOF'',
       posting ''e8000'' (demo_uid 4) DEBIT 6000 ''XOF'',
       posting ''e8000'' (demo_uid 2) CREDIT 6000 ''XOF'']
     [] 12"

lemma run_expired:
  "expire_one_batch 1000000 1000000 (\<lambda>_. False) demo_second_pending =
    (Inr 1, demo_expired)"
  by (simp add: eval_simps demo_defs demo_second_pending_def demo_expired_def)

definition demo_late :: db where
  "demo_late = demo_db
     [demo_row ''t1'' ''TXN-20260922-010101'' ''k1'' 1000 REVERSED 10000 7 8000,
       demo_refund_row SUCCEEDED 3 6000,
       demo_row ''t3'' ''TXN-20260922-030303'' ''k3'' 20000 EXPIRED 0 3 1000000]
     [demo_hist ''t1'' None INITIATED ''api:payments'' 1000,
       demo_hist ''t1'' (Some INITIATED) PENDING ''api:transactions'' 2000,
       demo_hist ''t1'' (Some PENDING) SUCCEEDED ''api:transactions'' 3000,
       demo_hist ''t2'' None INITIATED ''api:payments'' 4000,
       demo_hist ''t2'' (Some INITIATED) PENDING ''api:transactions'' 5000,
       demo_hist ''t2'' (Some PENDING) SUCCEEDED ''api:transactions'' 6000,
       demo_hist ''t1'' (Some SUCCEEDED) PARTIALLY_REFUNDED ''api:transactions'' 6000,
       demo_hist ''t1'' (Some PARTIALLY_REFUNDED) DISPUTED ''api:transactions'' 7000,
       demo_hist ''t1'' (Some DISPUTED) REVERSED ''api:transactions'' 8000,
       demo_hist ''t3'' None INITIATED ''api:payments'' 20000,
       demo_hist ''t3'' (Some INITIATED) PENDING ''api:transactions'' 21000,
       (demo_hist ''t3'' (Some PENDING) EXPIRED ''expiration-job'' 1000000)\<lparr>h_reason := ac_reason expiration_actor\<rparr>]
     [demo_entry ''e3000'' ''Paiement TXN-20260922-010101'' ''t1'' 3 3000,
       demo_entry ''e6000'' ''Remboursement TXN-20260922-020202'' ''t2'' 6 6000,
       demo_entry ''e8000'' ''Litige perdu TXN-20260922-010101'' ''t1'' 8 8000]
     [posting ''e3000'' (demo_uid 2) DEBIT 10000 ''XOF'',
       posting ''e3000'' (demo_uid 4) CREDIT 9850 ''XOF'',
       posting ''e3000'' (demo_uid 5) CREDIT 150 ''XOF'',
       posting ''e6000'' (demo_uid 4) DEBIT 4000 ''XOF'',
       posting ''e6000'' (demo_uid 2) CREDIT 4000 ''XOF'',
       posting ''e8000'' (demo_uid 4) DEBIT 6000 ''XOF'',
       posting ''e8000'' (demo_uid 2) CREDIT 6000 ''XOF'']
     [\<lparr>x_id = ''x1100000'', x_kind = LATE_ACKNOWLEDGMENT, x_transaction_id = Some ''t3'',
         x_reported_status = Some SUCCEEDED, x_provider_reference = None, x_detail = None, x_detected_at = 1100000,
         x_resolved_at = None, x_resolved_by = None, x_resolution = None\<rparr>] 13"

lemma run_late:
  "transition ''e1100000'' ''x1100000'' 1100000 ''TXN-20260922-030303'' (demo_to SUCCEEDED) 3 demo_expired =
    (Inl (Reconciliation_Required ''TXN-20260922-030303'' ''x1100000''), demo_late)"
  by (simp add: eval_simps demo_defs demo_expired_def demo_late_def)

section \<open>Other courses of that day\<close>

text \<open>The payment is disputed while its refund of 4000 is pending, then the refund is confirmed.\<close>

definition demo_large_refund :: "uuid \<Rightarrow> string \<Rightarrow> string \<Rightarrow> timestamp \<Rightarrow> transaction_status \<Rightarrow> int \<Rightarrow> timestamp \<Rightarrow> transaction" where
  "demo_large_refund i ref key created st version updated =
    (demo_row i ref key created st 0 version updated)
      \<lparr>t_type := REFUND, t_amount := 6000, t_parent_transaction_id := Some ''t1''\<rparr>"

definition demo_large :: create_refund_dto where
  "demo_large = \<lparr>cr_amount = ''6000'', cr_reason = None\<rparr>"

definition demo_dollars :: create_payment_dto where
  "demo_dollars = demo_payment\<lparr>cp_currency := ''USD''\<rparr>"

lemma demo_more_digits [simp]: "BigInt_of ''6000'' = Inr 6000" "is_currency ''USD''"
  by (simp_all add: BigInt_of_def string_to_bigint_def js_trim_def is_js_space_def radix_number_def
      radix_value_def char_code_def is_digit_def is_currency_def is_upper_def)

lemma demo_reference_4 [simp]:
  "generateTransactionReference ''2026-09-22T10:00:00.000Z'' [4, 4, 4, 4] = ''TXN-20260922-040404''"
  by (simp add: generateTransactionReference_def to_upper_def hex_byte_def is_lower_def char_code_def)

definition demo_open_dispute :: db where
  "demo_open_dispute = demo_db
     [demo_row ''t1'' ''TXN-20260922-010101'' ''k1'' 1000 DISPUTED 0 4 5500,
       demo_refund_row PENDING 2 5000]
     [demo_hist ''t1'' None INITIATED ''api:payments'' 1000,
       demo_hist ''t1'' (Some INITIATED) PENDING ''api:transactions'' 2000,
       demo_hist ''t1'' (Some PENDING) SUCCEEDED ''api:transactions'' 3000,
       demo_hist ''t2'' None INITIATED ''api:payments'' 4000,
       demo_hist ''t2'' (Some INITIATED) PENDING ''api:transactions'' 5000,
       demo_hist ''t1'' (Some SUCCEEDED) DISPUTED ''api:transactions'' 5500]
     [demo_entry ''e3000'' ''Paiement TXN-20260922-010101'' ''t1'' 3 3000]
     [posting ''e3000'' (demo_uid 2) DEBIT 10000 ''XOF'',
       posting ''e3000'' (demo_uid 4) CREDIT 9850 ''XOF'',
       posting ''e3000'' (demo_uid 5) CREDIT 150 ''XOF'']
     [] 7"

lemma run_open_dispute:
  "transition ''e5500'' ''x5500'' 5500 ''TXN-20260922-010101'' (demo_to DISPUTED) 3 demo_refund_pending =
    (Inr (demo_row ''t1'' ''TXN-20260922-010101'' ''k1'' 1000 DISPUTED 0 4 5500), demo_open_dispute)"
  by (simp add: eval_simps demo_defs demo_large_def demo_refund_pending_def demo_open_dispute_def)

definition demo_dispute_ended :: db where
  "demo_dispute_ended = demo_db
     [demo_row ''t1'' ''TXN-20260922-010101'' ''k1'' 1000 PARTIALLY_REFUNDED 4000 5 6000,
       demo_refund_row SUCCEEDED 3 6000]
     [demo_hist ''t1'' None INITIATED ''api:payments'' 1000,
       demo_hist ''t1'' (Some INITIATED) PENDING ''api:transactions'' 2000,
       demo_hist ''t1'' (Some PENDING) SUCCEEDED ''api:transactions'' 3000,
       demo_hist ''t2'' None INITIATED ''api:payments'' 4000,
       demo_hist ''t2'' (Some INITIATED) PENDING ''api:transactions'' 5000,
       demo_hist ''t1'' (Some SUCCEEDED) DISPUTED ''api:transactions'' 5500,
       demo_hist ''t2'' (Some PENDING) SUCCEEDED ''api:transactions'' 6000,
       demo_hist ''t1'' (Some DISPUTED) PARTIALLY_REFUNDED ''api:transactions'' 6000]
     [demo_entry ''e3000'' ''Paiement TXN-20260922-010101'' ''t1'' 3 3000,
       demo_entry ''e6000'' ''Remboursement TXN-20260922-020202'' ''t2'' 7 6000]
     [posting ''e3000'' (demo_uid 2) DEBIT 10000 ''XOF'',
       posting ''e3000'' (demo_uid 4) CREDIT 9850 ''XOF'',
       posting ''e3000'' (demo_uid 5) CREDIT 150 ''XOF'',
       posting ''e6000'' (demo_uid 4) DEBIT 4000 ''XOF'',
       posting ''e6000'' (demo_uid 2) CREDIT 4000 ''XOF'']
     [] 8"

lemma run_dispute_ended:
  "transition ''e6000'' ''x6000'' 6000 ''TXN-20260922-020202'' (demo_to SUCCEEDED) 2 demo_open_dispute =
    (Inr (demo_refund_row SUCCEEDED 3 6000), demo_dispute_ended)"
  by (simp add: eval_simps demo_defs demo_large_def demo_open_dispute_def demo_dispute_ended_def)

text \<open>Two refunds of 6000 are accepted on the payment of 10000; one is confirmed.\<close>

definition demo_large_created :: db where
  "demo_large_created = demo_db
     [demo_row ''t1'' ''TXN-20260922-010101'' ''k1'' 1000 SUCCEEDED 0 3 3000,
       demo_large_refund ''t3'' ''TXN-20260922-030303'' ''k3'' 4000 INITIATED 1 4000]
     [demo_hist ''t1'' None INITIATED ''api:payments'' 1000,
       demo_hist ''t1'' (Some INITIATED) PENDING ''api:transactions'' 2000,
       demo_hist ''t1'' (Some PENDING) SUCCEEDED ''api:transactions'' 3000,
       demo_hist ''t3'' None INITIATED ''api:payments'' 4000]
     [demo_entry ''e3000'' ''Paiement TXN-20260922-010101'' ''t1'' 3 3000]
     [posting ''e3000'' (demo_uid 2) DEBIT 10000 ''XOF'',
       posting ''e3000'' (demo_uid 4) CREDIT 9850 ''XOF'',
       posting ''e3000'' (demo_uid 5) CREDIT 150 ''XOF'']
     [] 5"

lemma run_large_created:
  "create_refund demo_sha demo_config (demo_inputs ''t3'' 3 4000) ''TXN-20260922-010101'' demo_large ''k3'' (demo_uid 6) demo_settled =
    (Inr \<lparr>ir_transaction = demo_large_refund ''t3'' ''TXN-20260922-030303'' ''k3'' 4000 INITIATED 1 4000, ir_replayed = False\<rparr>, demo_large_created)"
  by (simp add: eval_simps demo_defs demo_large_def demo_settled_def demo_large_created_def demo_large_refund_def demo_sha_const [of "canonical_refund _ _"])

definition demo_both_created :: db where
  "demo_both_created = demo_db
     [demo_row ''t1'' ''TXN-20260922-010101'' ''k1'' 1000 SUCCEEDED 0 3 3000,
       demo_large_refund ''t3'' ''TXN-20260922-030303'' ''k3'' 4000 INITIATED 1 4000,
       demo_large_refund ''t4'' ''TXN-20260922-040404'' ''k4'' 5000 INITIATED 1 5000]
     [demo_hist ''t1'' None INITIATED ''api:payments'' 1000,
       demo_hist ''t1'' (Some INITIATED) PENDING ''api:transactions'' 2000,
       demo_hist ''t1'' (Some PENDING) SUCCEEDED ''api:transactions'' 3000,
       demo_hist ''t3'' None INITIATED ''api:payments'' 4000,
       demo_hist ''t4'' None INITIATED ''api:payments'' 5000]
     [demo_entry ''e3000'' ''Paiement TXN-20260922-010101'' ''t1'' 3 3000]
     [posting ''e3000'' (demo_uid 2) DEBIT 10000 ''XOF'',
       posting ''e3000'' (demo_uid 4) CREDIT 9850 ''XOF'',
       posting ''e3000'' (demo_uid 5) CREDIT 150 ''XOF'']
     [] 6"

lemma run_both_created:
  "create_refund demo_sha demo_config (demo_inputs ''t4'' 4 5000) ''TXN-20260922-010101'' demo_large ''k4'' (demo_uid 6) demo_large_created =
    (Inr \<lparr>ir_transaction = demo_large_refund ''t4'' ''TXN-20260922-040404'' ''k4'' 5000 INITIATED 1 5000, ir_replayed = False\<rparr>, demo_both_created)"
  by (simp add: eval_simps demo_defs demo_large_def demo_large_created_def demo_both_created_def demo_large_refund_def demo_sha_const [of "canonical_refund _ _"])

definition demo_one_pending :: db where
  "demo_one_pending = demo_db
     [demo_row ''t1'' ''TXN-20260922-010101'' ''k1'' 1000 SUCCEEDED 0 3 3000,
       demo_large_refund ''t3'' ''TXN-20260922-030303'' ''k3'' 4000 PENDING 2 6000,
       demo_large_refund ''t4'' ''TXN-20260922-040404'' ''k4'' 5000 INITIATED 1 5000]
     [demo_hist ''t1'' None INITIATED ''api:payments'' 1000,
       demo_hist ''t1'' (Some INITIATED) PENDING ''api:transactions'' 2000,
       demo_hist ''t1'' (Some PENDING) SUCCEEDED ''api:transactions'' 3000,
       demo_hist ''t3'' None INITIATED ''api:payments'' 4000,
       demo_hist ''t4'' None INITIATED ''api:payments'' 5000,
       demo_hist ''t3'' (Some INITIATED) PENDING ''api:transactions'' 6000]
     [demo_entry ''e3000'' ''Paiement TXN-20260922-010101'' ''t1'' 3 3000]
     [posting ''e3000'' (demo_uid 2) DEBIT 10000 ''XOF'',
       posting ''e3000'' (demo_uid 4) CREDIT 9850 ''XOF'',
       posting ''e3000'' (demo_uid 5) CREDIT 150 ''XOF'']
     [] 7"

lemma run_one_pending:
  "transition ''e6'' ''x6'' 6000 ''TXN-20260922-030303'' (demo_to PENDING) 1 demo_both_created =
    (Inr (demo_large_refund ''t3'' ''TXN-20260922-030303'' ''k3'' 4000 PENDING 2 6000), demo_one_pending)"
  by (simp add: eval_simps demo_defs demo_large_def demo_both_created_def demo_one_pending_def demo_large_refund_def)

definition demo_both_pending :: db where
  "demo_both_pending = demo_db
     [demo_row ''t1'' ''TXN-20260922-010101'' ''k1'' 1000 SUCCEEDED 0 3 3000,
       demo_large_refund ''t3'' ''TXN-20260922-030303'' ''k3'' 4000 PENDING 2 6000,
       demo_large_refund ''t4'' ''TXN-20260922-040404'' ''k4'' 5000 PENDING 2 7000]
     [demo_hist ''t1'' None INITIATED ''api:payments'' 1000,
       demo_hist ''t1'' (Some INITIATED) PENDING ''api:transactions'' 2000,
       demo_hist ''t1'' (Some PENDING) SUCCEEDED ''api:transactions'' 3000,
       demo_hist ''t3'' None INITIATED ''api:payments'' 4000,
       demo_hist ''t4'' None INITIATED ''api:payments'' 5000,
       demo_hist ''t3'' (Some INITIATED) PENDING ''api:transactions'' 6000,
       demo_hist ''t4'' (Some INITIATED) PENDING ''api:transactions'' 7000]
     [demo_entry ''e3000'' ''Paiement TXN-20260922-010101'' ''t1'' 3 3000]
     [posting ''e3000'' (demo_uid 2) DEBIT 10000 ''XOF'',
       posting ''e3000'' (demo_uid 4) CREDIT 9850 ''XOF'',
       posting ''e3000'' (demo_uid 5) CREDIT 150 ''XOF'']
     [] 8"

lemma run_both_pending:
  "transition ''e7'' ''x7'' 7000 ''TXN-20260922-040404'' (demo_to PENDING) 1 demo_one_pending =
    (Inr (demo_large_refund ''t4'' ''TXN-20260922-040404'' ''k4'' 5000 PENDING 2 7000), demo_both_pending)"
  by (simp add: eval_simps demo_defs demo_large_def demo_one_pending_def demo_both_pending_def demo_large_refund_def)

definition demo_one_confirmed :: db where
  "demo_one_confirmed = demo_db
     [demo_row ''t1'' ''TXN-20260922-010101'' ''k1'' 1000 PARTIALLY_REFUNDED 6000 4 8000,
       demo_large_refund ''t3'' ''TXN-20260922-030303'' ''k3'' 4000 SUCCEEDED 3 8000,
       demo_large_refund ''t4'' ''TXN-20260922-040404'' ''k4'' 5000 PENDING 2 7000]
     [demo_hist ''t1'' None INITIATED ''api:payments'' 1000,
       demo_hist ''t1'' (Some INITIATED) PENDING ''api:transactions'' 2000,
       demo_hist ''t1'' (Some PENDING) SUCCEEDED ''api:transactions'' 3000,
       demo_hist ''t3'' None INITIATED ''api:payments'' 4000,
       demo_hist ''t4'' None INITIATED ''api:payments'' 5000,
       demo_hist ''t3'' (Some INITIATED) PENDING ''api:transactions'' 6000,
       demo_hist ''t4'' (Some INITIATED) PENDING ''api:transactions'' 7000,
       demo_hist ''t3'' (Some PENDING) SUCCEEDED ''api:transactions'' 8000,
       demo_hist ''t1'' (Some SUCCEEDED) PARTIALLY_REFUNDED ''api:transactions'' 8000]
     [demo_entry ''e3000'' ''Paiement TXN-20260922-010101'' ''t1'' 3 3000,
       demo_entry ''e8'' ''Remboursement TXN-20260922-030303'' ''t3'' 8 8000]
     [posting ''e3000'' (demo_uid 2) DEBIT 10000 ''XOF'',
       posting ''e3000'' (demo_uid 4) CREDIT 9850 ''XOF'',
       posting ''e3000'' (demo_uid 5) CREDIT 150 ''XOF'',
       posting ''e8'' (demo_uid 4) DEBIT 6000 ''XOF'',
       posting ''e8'' (demo_uid 2) CREDIT 6000 ''XOF'']
     [] 9"

lemma run_one_confirmed:
  "transition ''e8'' ''x8'' 8000 ''TXN-20260922-030303'' (demo_to SUCCEEDED) 2 demo_both_pending =
    (Inr (demo_large_refund ''t3'' ''TXN-20260922-030303'' ''k3'' 4000 SUCCEEDED 3 8000), demo_one_confirmed)"
  by (simp add: eval_simps demo_defs demo_large_def demo_both_pending_def demo_one_confirmed_def demo_large_refund_def)

text \<open>A payment in dollars is accepted.\<close>

definition demo_usd_created :: db where
  "demo_usd_created = demo_db
     [(demo_row ''t1'' ''TXN-20260922-010101'' ''k1'' 1000 INITIATED 0 1 1000)\<lparr>t_currency := ''USD''\<rparr>]
     [demo_hist ''t1'' None INITIATED ''api:payments'' 1000]
     []
     []
     [] 2"

lemma run_usd_created:
  "create_payment demo_sha demo_config (demo_inputs ''t1'' 1 1000) demo_dollars ''k1'' (demo_uid 6) demo_start =
    (Inr \<lparr>ir_transaction = (demo_row ''t1'' ''TXN-20260922-010101'' ''k1'' 1000 INITIATED 0 1 1000)\<lparr>t_currency := ''USD''\<rparr>, ir_replayed = False\<rparr>, demo_usd_created)"
  by (simp add: eval_simps demo_defs demo_large_def demo_usd_created_def demo_dollars_def demo_sha_const [of "canonical_payment _"])

definition demo_usd_pending :: db where
  "demo_usd_pending = demo_db
     [(demo_row ''t1'' ''TXN-20260922-010101'' ''k1'' 1000 PENDING 0 2 2000)\<lparr>t_currency := ''USD''\<rparr>]
     [demo_hist ''t1'' None INITIATED ''api:payments'' 1000,
       demo_hist ''t1'' (Some INITIATED) PENDING ''api:transactions'' 2000]
     []
     []
     [] 3"

lemma run_usd_pending:
  "transition ''e2000'' ''x2000'' 2000 ''TXN-20260922-010101'' (demo_to PENDING) 1 demo_usd_created =
    (Inr ((demo_row ''t1'' ''TXN-20260922-010101'' ''k1'' 1000 PENDING 0 2 2000)\<lparr>t_currency := ''USD''\<rparr>), demo_usd_pending)"
  by (simp add: eval_simps demo_defs demo_large_def demo_usd_created_def demo_usd_pending_def)

section \<open>The states are reachable\<close>

lemma reach_payment:
  "create_payment sha config inp dto key mid d = (r, d') \<Longrightarrow> reachable uid now d \<Longrightarrow> reachable uid now d'"
  by (metis reach_step step_payment snd_conv)

lemma reach_refund:
  "create_refund sha config inp ref dto key mid d = (r, d') \<Longrightarrow> reachable uid now d \<Longrightarrow> reachable uid now d'"
  by (metis reach_step step_refund snd_conv)

lemma reach_transition:
  "transition eid xid stamp ref dto v d = (r, d') \<Longrightarrow> reachable uid now d \<Longrightarrow> reachable uid now d'"
  by (metis reach_step step_transition snd_conv)

lemma reach_expire:
  "expire_one_batch clock stamp locked d = (r, d') \<Longrightarrow> reachable uid now d \<Longrightarrow> reachable uid now d'"
  by (metis reach_step step_expire snd_conv)

lemma reach_demo_start: "reachable demo_uid 0 demo_start"
  unfolding demo_start_def by (rule reach_initial)

lemmas reach_demo_created = reach_payment [OF run_created reach_demo_start]
lemmas reach_demo_pending = reach_transition [OF run_pending reach_demo_created]
lemmas reach_demo_settled = reach_transition [OF run_settled reach_demo_pending]
lemmas reach_demo_refund_created = reach_refund [OF run_refund_created reach_demo_settled]
lemmas reach_demo_refund_pending = reach_transition [OF run_refund_pending reach_demo_refund_created]
lemmas reach_demo_refunded = reach_transition [OF run_refunded reach_demo_refund_pending]
lemmas reach_demo_disputed = reach_transition [OF run_disputed reach_demo_refunded]
lemmas reach_demo_reversed = reach_transition [OF run_reversed reach_demo_disputed]
lemmas reach_demo_second = reach_payment [OF run_second reach_demo_reversed]
lemmas reach_demo_second_pending = reach_transition [OF run_second_pending reach_demo_second]
lemmas reach_demo_expired = reach_expire [OF run_expired reach_demo_second_pending]
lemmas reach_demo_late = reach_transition [OF run_late reach_demo_expired]

lemmas reach_demo_open_dispute = reach_transition [OF run_open_dispute reach_demo_refund_pending]
lemmas reach_demo_dispute_ended = reach_transition [OF run_dispute_ended reach_demo_open_dispute]
lemmas reach_demo_large_created = reach_refund [OF run_large_created reach_demo_settled]
lemmas reach_demo_both_created = reach_refund [OF run_both_created reach_demo_large_created]
lemmas reach_demo_one_pending = reach_transition [OF run_one_pending reach_demo_both_created]
lemmas reach_demo_both_pending = reach_transition [OF run_both_pending reach_demo_one_pending]
lemmas reach_demo_one_confirmed = reach_transition [OF run_one_confirmed reach_demo_both_pending]
lemmas reach_demo_usd_created = reach_payment [OF run_usd_created reach_demo_start]
lemmas reach_demo_usd_pending = reach_transition [OF run_usd_pending reach_demo_usd_created]

end
