(* ===== verification/Lifecycle.thy ===== *)
theory Lifecycle
  imports Demo_Run
begin

text \<open>
  What one call does: the outcomes of \<open>transition\<close>, the lines each settlement books, the creation
  of payments and refunds. Theory System says what holds in every state; here each theorem describes
  the effect of an operation on a branch, errors included.
\<close>

section \<open>Helpers\<close>

lemma sql_transaction_run:
  "sql_transaction who now body d =
    (case body \<lparr>s_tx_id = next_tx_id d, s_now = now, s_actor = who\<rparr> d of
       Inl e \<Rightarrow> (Inl e, d)
     | Inr (x, d1) \<Rightarrow> (case deferred_checks d1 of
           Inl e \<Rightarrow> (Inl e, d)
         | Inr _ \<Rightarrow> (Inr x, d1\<lparr>next_tx_id := Suc (next_tx_id d), deferred := []\<rparr>)))"
  by (auto simp: sql_transaction_def Let_def andThen_def split: sum.splits prod.splits)

text \<open>A successful \<open>transition\<close> ran the branch that updates the row.\<close>

lemma transition_Inr:
  assumes "transition eid xid now ref dto v d = (Inr t, d')"
  obtains row u d1 d2 d3 where
    "lookup_by t_reference ref (transactions d) = Some row" "t_version row = v"
    "\<not> (t_status row = EXPIRED \<and> ts_status dto = SUCCEEDED)"
    "update_transaction \<lparr>s_tx_id = next_tx_id d, s_now = now, s_actor = Some (transition_actor dto)\<rparr> (t_id row)
       (\<lambda>t. t\<lparr>t_status := ts_status dto\<rparr>) d = Inr (u, d1)"
    "(if ts_status dto = SUCCEEDED \<and> t_status row = PENDING
      then (if t_type row = PAYMENT
            then bookPaymentSuccess \<lparr>s_tx_id = next_tx_id d, s_now = now, s_actor = Some (transition_actor dto)\<rparr> eid u d1
            else bookRefundSuccess \<lparr>s_tx_id = next_tx_id d, s_now = now, s_actor = Some (transition_actor dto)\<rparr> eid u d1)
      else Inr d1) = Inr d2"
    "(if ts_status dto = REVERSED \<and> t_status row = DISPUTED
      then bookDisputeReversal \<lparr>s_tx_id = next_tx_id d, s_now = now, s_actor = Some (transition_actor dto)\<rparr> eid u d2
      else Inr (u, d2)) = Inr (t, d3)"
    "deferred_checks d3 = Inr ()" "d' = d3\<lparr>next_tx_id := Suc (next_tx_id d), deferred := []\<rparr>"
proof -
  have "sql_transaction (Some (transition_actor dto)) now (transition_body eid xid ref dto v) d = (Inr (Updated t), d')"
    using assms unfolding transition_def withActor_def
    by (simp split: prod.splits sum.splits transition_outcome.splits)
  then obtain d3 where run: "transition_body eid xid ref dto v
      \<lparr>s_tx_id = next_tx_id d, s_now = now, s_actor = Some (transition_actor dto)\<rparr> d = Inr (Updated t, d3)"
    "deferred_checks d3 = Inr ()" "d' = d3\<lparr>next_tx_id := Suc (next_tx_id d), deferred := []\<rparr>"
    by (rule sql_transaction_Inr)
  from run(1) show thesis
  proof (cases rule: transition_body_Inr)
    case (late row exn)
    then show thesis by simp
  next
    case (updated row u d1 d2 u')
    then show thesis using run(2,3) by (intro that [of row u d1 d2 d3]) simp_all
  qed
qed

lemma written_lines_entry:
  "list_all2 (writes_line accs eid cur) ls ps \<Longrightarrow> \<forall>p \<in> set ps. p_entry_id p = eid \<and> p_currency p = cur"
  by (induction rule: list_all2_induct) (auto simp: writes_line_def posting_def)

lemma books_entry_effect:
  assumes "books_entry d1 eid tid cur ls d2" "ls \<noteq> []"
  shows "\<exists>e ps. entries d2 = entries d1 @ [e] \<and> postings d2 = postings d1 @ ps \<and> ps \<noteq> []
       \<and> e_id e = eid \<and> e_transaction_id e = Some tid \<and> (\<forall>p \<in> set ps. p_entry_id p = eid)"
proof -
  obtain e ps where e: "d2 = d1\<lparr>entries := entries d1 @ [e], postings := postings d1 @ ps,
        deferred := deferred d1 @ eid # map p_entry_id ps\<rparr>" "e_id e = eid" "e_transaction_id e = Some tid"
    "list_all2 (writes_line (accounts d1) eid cur) ls ps"
    using assms(1) by (auto simp: books_entry_def)
  have "ps \<noteq> []" using e(4) assms(2) by auto
  then show ?thesis using e(1-3) written_lines_entry [OF e(4)] by auto
qed

section \<open>transition: refusals\<close>

text \<open>
  A transition with a stale version (\<open>If-Match\<close> does not name the current version) is refused
  with 412 and changes nothing.
\<close>

theorem stale_version_refused:
  assumes "lookup_by t_reference ref (transactions d) = Some row" "t_version row \<noteq> v"
  shows "\<exists>msg. transition eid xid now ref dto v d = (Inl (Http_Exception 412 msg), d)"
  using assms by (simp add: transition_def withActor_def sql_transaction_run transition_body_def)

theorem stale_version_refused_witness:
  "\<exists>msg. transition ''e'' ''x'' 9000 ''TXN-20260922-010101'' (demo_to SUCCEEDED) 1 demo_pending
     = (Inl (Http_Exception 412 msg), demo_pending)"
  by (rule stale_version_refused [where row = "demo_row ''t1'' ''TXN-20260922-010101'' ''k1'' 1000 PENDING 0 2 2000"])
     (simp_all add: demo_pending_def demo_db_def lookup_by_def demo_row_def)

lemma transition_Inl:
  assumes "transition eid xid now ref dto v d = (Inl e, d')"
  shows "d' = d \<or> (\<exists>row x. lookup_by t_reference ref (transactions d) = Some row \<and> t_status row = EXPIRED
    \<and> ts_status dto = SUCCEEDED \<and> e = Reconciliation_Required ref xid
    \<and> d' = d\<lparr>exceptions := exceptions d @ [x], next_tx_id := Suc (next_tx_id d), deferred := []\<rparr>
    \<and> x_id x = xid \<and> x_kind x = LATE_ACKNOWLEDGMENT \<and> x_resolved_at x = None)"
proof -
  obtain r where r: "sql_transaction (Some (transition_actor dto)) now (transition_body eid xid ref dto v) d = (r, d')"
    using transition_db [of eid xid now ref dto v d] assms by (metis snd_conv prod.collapse)
  show ?thesis
  proof (cases r)
    case (Inl e')
    then show ?thesis using r sql_transaction_Inl by blast
  next
    case (Inr outcome)
    then obtain exn where out: "outcome = Reconciliation exn" and e: "e = Reconciliation_Required ref exn"
      using r assms by (cases outcome) (simp_all add: transition_def withActor_def)
    obtain d3 where run: "transition_body eid xid ref dto v
      \<lparr>s_tx_id = next_tx_id d, s_now = now, s_actor = Some (transition_actor dto)\<rparr> d = Inr (outcome, d3)"
      "d' = d3\<lparr>next_tx_id := Suc (next_tx_id d), deferred := []\<rparr>"
      using r Inr by (auto elim: sql_transaction_Inr)
    from run(1) show ?thesis
    proof (cases rule: transition_body_Inr)
      case (late row x)
      have "d3 = d\<lparr>exceptions := exceptions d @ [x]\<rparr>" "x_id x = xid" "x_kind x = LATE_ACKNOWLEDGMENT" "x_resolved_at x = None"
        using insert_exception_InrD [OF late(6)] by auto
      then show ?thesis using run(2) late(1,3,4,5) out e by auto
    next
      case (updated row u d1 d2 u')
      then show ?thesis using out by simp
    qed
  qed
qed

text \<open>
  A transition that fails leaves the database as it was (the SQL transaction is rolled back),
  with one deliberate exception: a late acknowledgment is answered with 409 and recorded, and then
  the transaction, its history and the ledger are as they were.
\<close>

theorem failed_transition_changes_nothing:
  assumes "transition eid xid now ref dto v d = (Inl e, d')"
  shows "d' = d \<or> (e = Reconciliation_Required ref xid
    \<and> transactions d' = transactions d \<and> history d' = history d \<and> entries d' = entries d
    \<and> postings d' = postings d \<and> accounts d' = accounts d
    \<and> (\<exists>x. exceptions d' = exceptions d @ [x] \<and> x_id x = xid \<and> x_kind x = LATE_ACKNOWLEDGMENT \<and> x_resolved_at x = None))"
  using transition_Inl [OF assms] by auto

theorem failed_transition_changes_nothing_witness:
  "transactions demo_late = transactions demo_expired \<and> postings demo_late = postings demo_expired
   \<and> length (exceptions demo_late) = 1"
proof -
  have "demo_late \<noteq> demo_expired" by (simp add: demo_late_def demo_expired_def demo_db_def demo_start_def initial_db_def)
  then show ?thesis
    using failed_transition_changes_nothing [OF run_late] by (auto simp: demo_expired_def demo_db_def demo_start_def initial_db_def)
qed

text \<open>
  C19: A late acknowledgment (SUCCEEDED for a transaction that has EXPIRED) is never booked: it
  becomes one open reconciliation exception, with the status and reference the operator claims, and
  the caller is told 409.
\<close>

theorem late_acknowledgment_recorded:
  assumes "lookup_by t_reference ref (transactions d) = Some row" "t_status row = EXPIRED" "t_version row = v"
    "ts_status dto = SUCCEEDED" "deferred d = []" "xid \<notin> x_id ` set (exceptions d)"
    "\<forall>r. ts_provider_reference dto = Some r \<longrightarrow> length r \<le> 100"
  shows "transition eid xid now ref dto v d =
    (Inl (Reconciliation_Required ref xid),
     d\<lparr>exceptions := exceptions d @
         [\<lparr>x_id = xid, x_kind = LATE_ACKNOWLEDGMENT, x_transaction_id = Some (t_id row),
           x_reported_status = Some SUCCEEDED, x_provider_reference = ts_provider_reference dto, x_detail = None,
           x_detected_at = now, x_resolved_at = None, x_resolved_by = None, x_resolution = None\<rparr>],
       next_tx_id := Suc (next_tx_id d), deferred := []\<rparr>)"
proof -
  let ?x = "\<lparr>x_id = xid, x_kind = LATE_ACKNOWLEDGMENT, x_transaction_id = Some (t_id row),
           x_reported_status = Some SUCCEEDED, x_provider_reference = ts_provider_reference dto, x_detail = None,
           x_detected_at = now, x_resolved_at = None, x_resolved_by = None, x_resolution = None\<rparr>"
  have "t_id row \<in> t_id ` set (transactions d)" using lookup_by_in [OF assms(1)] by simp
  then have "insert_exception ?x d = Inr (?x, d\<lparr>exceptions := exceptions d @ [?x]\<rparr>)"
    using assms(6,7)
    by (simp add: insert_exception_def check_all.simps exception_ranges_def exception_checks_def split: option.splits)
  then show ?thesis
    using assms(1-5)
    by (simp add: transition_def withActor_def sql_transaction_run transition_body_def deferred_checks_def)
qed

theorem late_acknowledgment_recorded_witness:
  "fst (transition ''e1'' ''x1'' 1100000 ''TXN-20260922-030303''
      \<lparr>ts_status = SUCCEEDED, ts_reason = None, ts_provider_reference = Some ''OM-998877''\<rparr> 3 demo_expired)
    = Inl (Reconciliation_Required ''TXN-20260922-030303'' ''x1'')"
  by (subst late_acknowledgment_recorded [where row = "demo_row ''t3'' ''TXN-20260922-030303'' ''k3'' 20000 EXPIRED 0 3 1000000"])
     (simp_all add: demo_expired_def demo_defs lookup_by_def)

section \<open>transition: the money\<close>

text \<open>Each of the three bookings writes one entry of the transaction and its lines.\<close>

definition writes_entry :: "uuid \<Rightarrow> uuid \<Rightarrow> db \<Rightarrow> db \<Rightarrow> bool" where
  "writes_entry eid tid d d' \<longleftrightarrow>
    (\<exists>e ps. entries d' = entries d @ [e] \<and> postings d' = postings d @ ps \<and> ps \<noteq> []
      \<and> e_id e = eid \<and> e_transaction_id e = Some tid \<and> (\<forall>p \<in> set ps. p_entry_id p = eid))"

lemma update_keeps_ledger:
  "update_transaction s i f d = Inr (r, d') \<Longrightarrow> entries d' = entries d \<and> postings d' = postings d"
  by (rule conjI; rule update_transaction_facts; assumption)

lemma payment_writes_entry: "bookPaymentSuccess s eid t d = Inr d' \<Longrightarrow> writes_entry eid (t_id t) d d'"
proof (rule bookPaymentSuccess_books)
  fix m assume "books_entry d eid (t_id t) (t_currency t) (payment_lines (t, m)) d'"
  from books_entry_effect [OF this] show ?thesis by (auto simp: writes_entry_def payment_lines_def)
qed

lemma refund_writes_entry:
  assumes "bookRefundSuccess s eid t d = Inr d'"
  shows "writes_entry eid (t_id t) d d'"
  using assms
proof (rule bookRefundSuccess_books, goal_cases)
  case (1 parent parent' m d1)
  from books_entry_effect [OF 1(6)] update_keeps_ledger [OF 1(4)] show ?case
    by (auto simp: writes_entry_def payback_lines_def)
qed

lemma dispute_writes_entry:
  assumes "bookDisputeReversal s eid t d = Inr (r, d')"
  shows "writes_entry eid (t_id t) d d'"
  using assms
proof (rule bookDisputeReversal_books, goal_cases)
  case (1 m d1)
  from books_entry_effect [OF 1(4)] update_keeps_ledger [OF 1(2)] show ?case
    by (auto simp: writes_entry_def payback_lines_def)
qed

text \<open>
  A transition moves money exactly when it confirms a pending transaction or loses a dispute;
  then it writes one journal entry of the transaction. Every other successful transition (a dispute
  won, a failure, a repeated status) leaves the ledger alone.
\<close>

theorem transition_books_once:
  assumes "transition eid xid now ref dto v d = (Inr t, d')"
  shows "\<exists>row. lookup_by t_reference ref (transactions d) = Some row \<and>
    (if ts_status dto = SUCCEEDED \<and> t_status row = PENDING \<or> ts_status dto = REVERSED \<and> t_status row = DISPUTED
     then \<exists>e ps. entries d' = entries d @ [e] \<and> postings d' = postings d @ ps \<and> ps \<noteq> []
       \<and> e_id e = eid \<and> e_transaction_id e = Some (t_id row) \<and> (\<forall>p \<in> set ps. p_entry_id p = eid)
     else entries d' = entries d \<and> postings d' = postings d)"
proof -
  from assms show ?thesis
  proof (rule transition_Inr, goal_cases)
    case (1 row u d1 d2 d3)
    have d1: "entries d1 = entries d" "postings d1 = postings d" "t_id u = t_id row"
      by (rule update_transaction_facts [OF 1(4)], simp)+
    consider (payment) "ts_status dto = SUCCEEDED" "t_status row = PENDING" "t_type row = PAYMENT"
      | (refund) "ts_status dto = SUCCEEDED" "t_status row = PENDING" "t_type row \<noteq> PAYMENT"
      | (lost) "ts_status dto = REVERSED" "t_status row = DISPUTED"
      | (other) "\<not> (ts_status dto = SUCCEEDED \<and> t_status row = PENDING)"
          "\<not> (ts_status dto = REVERSED \<and> t_status row = DISPUTED)" by blast
    then show ?case
    proof cases
      case payment
      then have "writes_entry eid (t_id u) d1 d2" using 1(5) payment_writes_entry by simp
      then show ?thesis using 1(1,6,8) payment d1 by (auto simp: writes_entry_def)
    next
      case refund
      then have "writes_entry eid (t_id u) d1 d2" using 1(5) refund_writes_entry by simp
      then show ?thesis using 1(1,6,8) refund d1 by (auto simp: writes_entry_def)
    next
      case lost
      then have "writes_entry eid (t_id u) d1 d3" using 1(5,6) dispute_writes_entry by simp
      then show ?thesis using 1(1,8) lost d1 by (auto simp: writes_entry_def)
    next
      case other
      then have "d2 = d1" "d3 = d2" using 1(5,6) by (simp_all split: if_splits)
      then show ?thesis using 1(1,8) other d1 by auto
    qed
  qed
qed

theorem transition_books_once_witness:
  "length (entries demo_settled) = Suc (length (entries demo_pending))
   \<and> entries demo_disputed = entries demo_refunded"
proof -
  have "lookup_by t_reference ''TXN-20260922-010101'' (transactions demo_pending)
      = Some (demo_row ''t1'' ''TXN-20260922-010101'' ''k1'' 1000 PENDING 0 2 2000)"
    "lookup_by t_reference ''TXN-20260922-010101'' (transactions demo_refunded)
      = Some (demo_row ''t1'' ''TXN-20260922-010101'' ''k1'' 1000 PARTIALLY_REFUNDED 4000 4 6000)"
    by (simp_all add: demo_pending_def demo_refunded_def demo_db_def lookup_by_def demo_row_def)
  then show ?thesis
    using transition_books_once [OF run_settled] transition_books_once [OF run_disputed]
    by (auto simp: demo_to_def demo_row_def)
qed

lemma row_by_id:
  assumes "keys_ok d" "lookup_by t_reference ref (transactions d) = Some row"
  shows "lookup_by t_id (t_id row) (transactions d) = Some row"
  using lookup_by_distinct [OF keys_okD(1) [OF assms(1)] lookup_by_in [OF assms(2)]] .

text \<open>The row a status change writes, and the tables it leaves alone.\<close>

lemma status_change_row:
  assumes "keys_ok d" "lookup_by t_reference ref (transactions d) = Some row"
    "update_transaction s (t_id row) (\<lambda>t. t\<lparr>t_status := st\<rparr>) d = Inr (u, d1)"
  shows "u = row\<lparr>t_status := st, t_version := t_version row + 1, t_updated_at := s_now s\<rparr>"
    "transactions d1 = replace_by t_id (t_id row) u (transactions d)"
    "accounts d1 = accounts d" "merchants d1 = merchants d" "postings d1 = postings d" "entries d1 = entries d"
  by (rule update_transaction_facts [OF assms(3)], use row_by_id [OF assms(1,2)] in simp)+

lemma reachable_parts:
  assumes "inj uid" "reachable uid n0 d"
  shows "keys_ok d" "rows_ok d" "refund_parents_ok d" "refs_ok d" "ledger_ok d"
  using reachable_system_ok [OF assms(2,1)] by (simp_all add: system_ok_def tables_ok_def accounting_ok_def)

lemma parent_differs:
  assumes "inj uid" "reachable uid n0 d" "row \<in> set (transactions d)" "t_type row = REFUND"
    "t_parent_transaction_id row = Some (t_id q)" "q \<in> set (transactions d)"
  shows "q \<noteq> row" "t_type q = PAYMENT"
proof -
  note parts = reachable_parts [OF assms(1,2)]
  obtain p where p: "p \<in> set (transactions d)" "t_id p = t_id q" "t_type p = PAYMENT"
    using parts(3) assms(3-5) unfolding refund_parents_ok_def by auto
  then have "p = q" using keys_okD(1) [OF parts(1)] assms(6) by (simp add: distinct_map inj_on_def)
  then show "q \<noteq> row" "t_type q = PAYMENT" using p(3) assms(4) by auto
qed

text \<open>
  Confirming a pending payment debits the operator's clearing account by the amount, credits the
  merchant's payable account by the amount less the commission, and the fees account by the
  commission when there is one; the accounts are those with the codes the naming rules give.
\<close>

theorem confirmed_payment_lines:
  assumes "inj uid" "reachable uid n0 d" "transition eid xid now ref dto v d = (Inr t, d')"
    "lookup_by t_reference ref (transactions d) = Some row"
    "t_type row = PAYMENT" "t_status row = PENDING" "ts_status dto = SUCCEEDED"
  shows "\<exists>m ps. lookup_by m_id (t_merchant_id row) (merchants d) = Some m \<and> postings d' = postings d @ ps
    \<and> list_all2 (writes_line (accounts d) eid (t_currency row))
        ([(clearingCode (t_provider row), DEBIT, t_amount row),
          (merchantPayableAccountCode (m_code m), CREDIT, t_amount row - computeCommission (t_amount row))]
         @ (if 0 < computeCommission (t_amount row)
            then [(FEES_CODE, CREDIT, computeCommission (t_amount row))] else [])) ps
    \<and> t = row\<lparr>t_status := SUCCEEDED, t_version := t_version row + 1, t_updated_at := now\<rparr>"
  using assms(3)
proof (rule transition_Inr, goal_cases)
  case (1 row' u d1 d2 d3)
  have row: "row' = row" using 1(1) assms(4) by simp
  note change = status_change_row [OF reachable_parts(1) [OF assms(1,2)] assms(4) 1(4) [unfolded row assms(7)]]
  have book: "bookPaymentSuccess \<lparr>s_tx_id = next_tx_id d, s_now = now, s_actor = Some (transition_actor dto)\<rparr> eid u d1 = Inr d2"
    and d3: "d3 = d2" "t = u" using 1(5,6) row assms(5-7) by simp_all
  from book show ?case
  proof (rule bookPaymentSuccess_books)
    fix m assume m: "lookup_by m_id (t_merchant_id u) (merchants d1) = Some m"
      and "books_entry d1 eid (t_id u) (t_currency u) (payment_lines (u, m)) d2"
    then obtain ps where "postings d2 = postings d1 @ ps"
      "list_all2 (writes_line (accounts d1) eid (t_currency u)) (payment_lines (u, m)) ps"
      by (auto simp: books_entry_def)
    then show ?thesis
      using m 1(8) d3 change by (intro exI [of _ m] exI [of _ ps]) (auto simp: payment_lines_def)
  qed
qed

theorem confirmed_payment_lines_witness:
  "\<exists>m ps. lookup_by m_id (demo_uid 6) (merchants demo_pending) = Some m
    \<and> postings demo_settled = postings demo_pending @ ps
    \<and> list_all2 (writes_line (accounts demo_pending) ''e3000'' ''XOF'')
        [(''provider:wave:clearing'', DEBIT, 10000), (''merchant:'' @ m_code m @ '':payable'', CREDIT, 9850),
         (''revenue:fees'', CREDIT, 150)] ps"
proof -
  let ?row = "demo_row ''t1'' ''TXN-20260922-010101'' ''k1'' 1000 PENDING 0 2 2000"
  have row: "lookup_by t_reference ''TXN-20260922-010101'' (transactions demo_pending) = Some ?row"
    by (simp add: demo_pending_def demo_db_def lookup_by_def demo_row_def)
  show ?thesis
    using confirmed_payment_lines [OF inj_demo_uid reach_demo_pending run_settled row]
    by (auto simp: demo_row_def demo_to_def clearingCode_simps computeCommission_def bigint_div_def
        merchantPayableAccountCode_def FEES_CODE_def)
qed

text \<open>
  Confirming a pending refund raises the payment's refunded amount by it, never beyond the
  payment's amount, makes the payment REFUNDED when nothing is left and PARTIALLY_REFUNDED
  otherwise, and moves the refund's amount back from the merchant's payable account to the
  operator's clearing account. The commission is not given back.
\<close>

theorem confirmed_refund_effect:
  assumes "inj uid" "reachable uid n0 d" "transition eid xid now ref dto v d = (Inr t, d')"
    "lookup_by t_reference ref (transactions d) = Some row"
    "t_type row = REFUND" "t_status row = PENDING" "ts_status dto = SUCCEEDED"
  shows "\<exists>q m ps. lookup_by t_id (the (t_parent_transaction_id row)) (transactions d) = Some q
    \<and> t_refunded_amount q + t_amount row \<le> t_amount q
    \<and> lookup_by t_id (the (t_parent_transaction_id row)) (transactions d') =
        Some (q\<lparr>t_refunded_amount := t_refunded_amount q + t_amount row,
                t_status := (if t_refunded_amount q + t_amount row = t_amount q then REFUNDED else PARTIALLY_REFUNDED),
                t_version := t_version q + 1, t_updated_at := now\<rparr>)
    \<and> lookup_by m_id (t_merchant_id row) (merchants d) = Some m
    \<and> postings d' = postings d @ ps
    \<and> list_all2 (writes_line (accounts d) eid (t_currency row))
        [(merchantPayableAccountCode (m_code m), DEBIT, t_amount row),
         (clearingCode (t_provider row), CREDIT, t_amount row)] ps"
  using assms(3)
proof (rule transition_Inr, goal_cases)
  case (1 row' u d1 d2 d3)
  note parts = reachable_parts [OF assms(1,2)]
  have row: "row' = row" using 1(1) assms(4) by simp
  note change = status_change_row [OF parts(1) assms(4) 1(4) [unfolded row assms(7)]]
  have book: "bookRefundSuccess \<lparr>s_tx_id = next_tx_id d, s_now = now, s_actor = Some (transition_actor dto)\<rparr> eid u d1 = Inr d2"
    and d3: "d3 = d2" using 1(5,6) row assms(5-7) by simp_all
  have row_found: "lookup_by t_id (t_id row) (transactions d) = Some row" by (rule row_by_id [OF parts(1) assms(4)])
  from book show ?case
  proof (rule bookRefundSuccess_books, goal_cases)
    case (1 q q' m d2')
    have pid: "the (t_parent_transaction_id row) = t_id q" using 1(1) change(1) by simp
    have "t_id q \<noteq> t_id row"
    proof
      assume "t_id q = t_id row"
      then obtain p where "p \<in> set (transactions d)" "t_id p = t_id row" "t_type p = PAYMENT"
        using parts(3) lookup_by_in [OF assms(4)] assms(5) 1(1) change(1) unfolding refund_parents_ok_def by force
      then show False using unique_row [OF keys_okD(1) [OF parts(1)] row_found] assms(5) by force
    qed
    then have q: "lookup_by t_id (t_id q) (transactions d) = Some q"
      using 1(2) change(1,2) tx_table.lookup_updated [of u "t_id row" d row "t_id q"] row_found by simp
    have q': "transactions d2' = replace_by t_id (t_id q) q' (transactions d1)" "accounts d2' = accounts d1"
      "merchants d2' = merchants d1" "postings d2' = postings d1" "t_id q' = t_id q"
      "q' = q\<lparr>t_refunded_amount := t_refunded_amount q + t_amount u,
               t_status := (if t_refunded_amount q + t_amount u = t_amount q then REFUNDED else PARTIALLY_REFUNDED),
               t_version := t_version q + 1, t_updated_at := now\<rparr>"
      by (rule update_transaction_facts [OF 1(4)], use 1(2) in simp)+
    have "lookup_by t_id (t_id q) (transactions d2') = Some q'"
      using tx_table.lookup_updated [of q' "t_id q" d1 q "t_id q"] q'(1,5) 1(2) by simp
    moreover obtain ps where "postings d2 = postings d2' @ ps"
      "list_all2 (writes_line (accounts d2') eid (t_currency u)) (payback_lines ((u, m), t_amount u)) ps"
      "transactions d2 = transactions d2'"
      using 1(6) by (auto simp: books_entry_def)
    ultimately show ?case
      using 1(3,5) q q' pid \<open>d' = _\<close> d3 change
      by (intro exI [of _ q] exI [of _ m] exI [of _ ps]) (auto simp: payback_lines_def)
  qed
qed

theorem confirmed_refund_effect_witness:
  "\<exists>q. lookup_by t_id ''t1'' (transactions demo_refunded) = Some q
     \<and> t_refunded_amount q = 4000 \<and> t_status q = PARTIALLY_REFUNDED"
proof -
  have row: "lookup_by t_reference ''TXN-20260922-020202'' (transactions demo_refund_pending)
      = Some (demo_refund_row PENDING 2 5000)"
    "lookup_by t_id ''t1'' (transactions demo_refund_pending)
      = Some (demo_row ''t1'' ''TXN-20260922-010101'' ''k1'' 1000 SUCCEEDED 0 3 3000)"
    by (simp_all add: demo_refund_pending_def demo_db_def lookup_by_def demo_row_def demo_refund_row_def)
  show ?thesis
    using confirmed_refund_effect [OF inj_demo_uid reach_demo_refund_pending run_refunded row(1)] row(2)
    by (auto simp: demo_row_def demo_refund_row_def demo_to_def)
qed

text \<open>
  A lost dispute (DISPUTED to REVERSED) takes back from the merchant exactly what was not
  refunded yet, to the operator's clearing account, and the payment then counts as refunded in full.
\<close>

theorem lost_dispute_effect:
  assumes "inj uid" "reachable uid n0 d" "transition eid xid now ref dto v d = (Inr t, d')"
    "lookup_by t_reference ref (transactions d) = Some row" "t_status row = DISPUTED" "ts_status dto = REVERSED"
  shows "t_refunded_amount row < t_amount row
    \<and> t = row\<lparr>t_status := REVERSED, t_refunded_amount := t_amount row, t_version := t_version row + 2, t_updated_at := now\<rparr>
    \<and> (\<exists>m ps. lookup_by m_id (t_merchant_id row) (merchants d) = Some m \<and> postings d' = postings d @ ps
         \<and> list_all2 (writes_line (accounts d) eid (t_currency row))
             [(merchantPayableAccountCode (m_code m), DEBIT, t_amount row - t_refunded_amount row),
              (clearingCode (t_provider row), CREDIT, t_amount row - t_refunded_amount row)] ps)"
  using assms(3)
proof (rule transition_Inr, goal_cases)
  case (1 row' u d1 d2 d3)
  note parts = reachable_parts [OF assms(1,2)]
  have row: "row' = row" using 1(1) assms(4) by simp
  note change = status_change_row [OF parts(1) assms(4) 1(4) [unfolded row assms(6)]]
  have book: "bookDisputeReversal \<lparr>s_tx_id = next_tx_id d, s_now = now, s_actor = Some (transition_actor dto)\<rparr> eid u d1 = Inr (t, d3)"
    using 1(5,6) row assms(5,6) by simp
  have row_found: "lookup_by t_id (t_id row) (transactions d) = Some row" by (rule row_by_id [OF parts(1) assms(4)])
  have u_found: "lookup_by t_id (t_id u) (transactions d1) = Some u"
    using change(1,2) tx_table.lookup_updated [of u "t_id row" d row "t_id row"] row_found by simp
  from book show ?case
  proof (rule bookDisputeReversal_books, goal_cases)
    case (1 m d2')
    have t: "t = u\<lparr>t_refunded_amount := t_amount u, t_version := t_version u + 1, t_updated_at := now\<rparr>"
      "accounts d2' = accounts d1" "merchants d2' = merchants d1" "postings d2' = postings d1"
      by (rule update_transaction_facts [OF 1(2)], use u_found in simp)+
    obtain ps where "postings d3 = postings d2' @ ps"
      "list_all2 (writes_line (accounts d2') eid (t_currency u)) (payback_lines ((u, m), t_amount u - t_refunded_amount u)) ps"
      using 1(4) by (auto simp: books_entry_def)
    then show ?case
      using 1(1,3) t \<open>d' = _\<close> change
      by (intro conjI exI [of _ m] exI [of _ ps]) (auto simp: payback_lines_def)
  qed
qed

theorem lost_dispute_effect_witness:
  "t_refunded_amount (demo_row ''t1'' ''TXN-20260922-010101'' ''k1'' 1000 REVERSED 10000 7 8000) = 10000
   \<and> (\<exists>ps. postings demo_reversed = postings demo_disputed @ ps \<and> length ps = 2)"
proof -
  have row: "lookup_by t_reference ''TXN-20260922-010101'' (transactions demo_disputed)
      = Some (demo_row ''t1'' ''TXN-20260922-010101'' ''k1'' 1000 DISPUTED 4000 5 7000)"
    by (simp add: demo_disputed_def demo_db_def lookup_by_def demo_row_def)
  note effect = lost_dispute_effect [OF inj_demo_uid reach_demo_disputed run_reversed row]
  have "\<exists>ps. postings demo_reversed = postings demo_disputed @ ps \<and> length ps = 2"
    using effect by (fastforce simp: demo_row_def demo_to_def dest: list_all2_lengthD)
  then show ?thesis by (simp add: demo_row_def)
qed

section \<open>The amounts\<close>

text \<open>
  The commission is 1.5 percent of the amount, rounded down: it is never negative, always less
  than the amount, so the merchant is owed a positive sum, and it is zero exactly for amounts below
  67 (no third line is booked then).
\<close>

theorem commission_is_floor:
  assumes "0 < a"
  shows "1000 * computeCommission a \<le> 15 * a \<and> 15 * a < 1000 * (computeCommission a + 1)
    \<and> 0 \<le> computeCommission a \<and> computeCommission a < a \<and> (computeCommission a = 0 \<longleftrightarrow> a < 67)"
proof -
  define m where "m = a * 15 mod 1000"
  have "computeCommission a = a * 15 div 1000" using assms by (simp add: computeCommission_nonneg)
  then have "computeCommission a * 1000 + m = a * 15" unfolding m_def by (simp only: div_mult_mod_eq)
  moreover have "0 \<le> m" "m < 1000" by (simp_all add: m_def)
  ultimately have less: "15 * a < 1000 * (computeCommission a + 1) \<and> 1000 * computeCommission a \<le> 15 * a"
    by (simp add: algebra_simps)
  have "computeCommission a = 0 \<longleftrightarrow> a < 67"
  proof
    assume "computeCommission a = 0"
    then show "a < 67" using less by simp
  next
    assume "a < 67"
    then have "computeCommission a < 1" using less by linarith
    then show "computeCommission a = 0" using commission_bounds [OF assms] by simp
  qed
  then show ?thesis using less commission_bounds [OF assms] by blast
qed

theorem commission_is_floor_witness:
  "computeCommission 10000 = 150 \<and> computeCommission 66 = 0 \<and> computeCommission 67 < 67"
  using commission_is_floor [of 10000] commission_is_floor [of 66] commission_is_floor [of 67]
  by (simp add: computeCommission_def bigint_div_def)

text \<open>
  A refund that exceeds what is left of its payment is refused at confirmation: the booking
  fails with 422, and so the transition fails and changes nothing, even when several refunds were
  accepted while the payment still had room for each of them alone.
\<close>

theorem refund_overrun_refused:
  assumes "inj uid" "reachable uid n0 d" "lookup_by t_reference ref (transactions d) = Some row"
    "t_type row = REFUND" "t_status row = PENDING" "ts_status dto = SUCCEEDED"
    "q \<in> set (transactions d)" "t_parent_transaction_id row = Some (t_id q)"
    "t_amount q < t_refunded_amount q + t_amount row"
  shows "(\<exists>msg. bookRefundSuccess s eid row d = Inl (Http_Exception 422 msg))
    \<and> (\<exists>e. transition eid xid now ref dto v d = (Inl e, d))"
proof -
  note parts = reachable_parts [OF assms(1,2)]
  have q: "lookup_by t_id (t_id q) (transactions d) = Some q"
    by (rule lookup_by_distinct [OF keys_okD(1) [OF parts(1)] assms(7)])
  then have book: "\<exists>msg. bookRefundSuccess s eid row d = Inl (Http_Exception 422 msg)"
    using assms(8,9) by (simp add: bookRefundSuccess_def Let_def)
  have refused: "\<exists>e. transition eid xid now ref dto v d = (Inl e, d)"
  proof (cases "transition eid xid now ref dto v d")
    case (Pair r d')
    show ?thesis
    proof (cases r)
      case (Inl e)
      then show ?thesis using transition_Inl [OF Pair [unfolded Inl]] assms(3,5) Pair by auto
    next
      case (Inr t)
      from Pair [unfolded Inr] show ?thesis
      proof (rule transition_Inr, goal_cases)
        case (1 row' u d1 d2 d3)
        have row: "row' = row" using 1(1) assms(3) by simp
        note change = status_change_row [OF parts(1) assms(3) 1(4) [unfolded row assms(6)]]
        have "bookRefundSuccess \<lparr>s_tx_id = next_tx_id d, s_now = now, s_actor = Some (transition_actor dto)\<rparr> eid u d1 = Inr d2"
          using 1(5) row assms(4-6) by simp
        then show ?case
        proof (rule bookRefundSuccess_books, goal_cases)
          case (1 p p' m d2')
          have "q \<noteq> row" using parent_differs(1) [OF assms(1,2) lookup_by_in [OF assms(3)] assms(4,8,7)] .
          then have "t_id q \<noteq> t_id row"
            using unique_row [OF keys_okD(1) [OF parts(1)] row_by_id [OF parts(1) assms(3)] assms(7)] by blast
          then have "lookup_by t_id (t_id q) (transactions d1) = Some q"
            using tx_table.lookup_updated [of u "t_id row" d row "t_id q"] change(1,2) q
              row_by_id [OF parts(1) assms(3)] by simp
          then have "p = q" using 1(1,2) change(1) assms(8) by simp
          then show ?case using 1(3) assms(9) change(1) by simp
        qed
      qed
    qed
  qed
  then show ?thesis using book by blast
qed

theorem refund_overrun_refused_witness:
  "\<exists>e. transition ''e9'' ''x9'' 9000 ''TXN-20260922-040404'' (demo_to SUCCEEDED) 2 demo_one_confirmed
     = (Inl e, demo_one_confirmed)"
proof -
  let ?q = "demo_row ''t1'' ''TXN-20260922-010101'' ''k1'' 1000 PARTIALLY_REFUNDED 6000 4 8000"
  let ?row = "demo_large_refund ''t4'' ''TXN-20260922-040404'' ''k4'' 5000 PENDING 2 7000"
  have q: "lookup_by t_reference ''TXN-20260922-040404'' (transactions demo_one_confirmed) = Some ?row"
    "?q \<in> set (transactions demo_one_confirmed)" "t_parent_transaction_id ?row = Some (t_id ?q)"
    "t_amount ?q < t_refunded_amount ?q + t_amount ?row" "t_type ?row = REFUND" "t_status ?row = PENDING"
    "ts_status (demo_to SUCCEEDED) = SUCCEEDED"
    by (simp_all add: demo_one_confirmed_def demo_db_def lookup_by_def demo_row_def demo_large_refund_def demo_to_def)
  show ?thesis
    using refund_overrun_refused [OF inj_demo_uid reach_demo_one_confirmed q(1,5,6,7,2,3,4)] by blast
qed

text \<open>
  Confirming a refund while its payment is DISPUTED ends the dispute: the payment leaves
  DISPUTED for PARTIALLY_REFUNDED, although nobody ruled on the dispute. (A refund of all that is
  left cannot be confirmed then: the state machine has no transition from DISPUTED to REFUNDED.)
\<close>

theorem refund_ends_dispute:
  assumes "inj uid" "reachable uid n0 d" "transition eid xid now ref dto v d = (Inr t, d')"
    "lookup_by t_reference ref (transactions d) = Some row"
    "t_type row = REFUND" "t_status row = PENDING" "ts_status dto = SUCCEEDED"
    "q \<in> set (transactions d)" "t_parent_transaction_id row = Some (t_id q)" "t_status q = DISPUTED"
  shows "t_refunded_amount q + t_amount row < t_amount q
    \<and> (\<exists>q' \<in> set (transactions d'). t_id q' = t_id q \<and> t_status q' = PARTIALLY_REFUNDED
         \<and> t_refunded_amount q' = t_refunded_amount q + t_amount row)"
  using assms(3)
proof (rule transition_Inr, goal_cases)
  case (1 row' u d1 d2 d3)
  note parts = reachable_parts [OF assms(1,2)]
  have row: "row' = row" using 1(1) assms(4) by simp
  note change = status_change_row [OF parts(1) assms(4) 1(4) [unfolded row assms(7)]]
  have book: "bookRefundSuccess \<lparr>s_tx_id = next_tx_id d, s_now = now, s_actor = Some (transition_actor dto)\<rparr> eid u d1 = Inr d2"
    and d3: "d3 = d2" using 1(5,6) row assms(5-7) by simp_all
  have "q \<noteq> row" using parent_differs(1) [OF assms(1,2) lookup_by_in [OF assms(4)] assms(5,9,8)] .
  then have "t_id q \<noteq> t_id row"
    using unique_row [OF keys_okD(1) [OF parts(1)] row_by_id [OF parts(1) assms(4)] assms(8)] by blast
  then have found: "lookup_by t_id (t_id q) (transactions d1) = Some q"
    using tx_table.lookup_updated [of u "t_id row" d row "t_id q"] change(1,2)
      lookup_by_distinct [OF keys_okD(1) [OF parts(1)] assms(8)] row_by_id [OF parts(1) assms(4)] by simp
  from book show ?case
  proof (rule bookRefundSuccess_books, goal_cases)
    case (1 p q' m d2')
    have p: "p = q" using 1(1,2) change(1) assms(9) found by simp
    have q': "transactions d2' = replace_by t_id (t_id q) q' (transactions d1)" "t_id q' = t_id q"
      "q' = q\<lparr>t_refunded_amount := t_refunded_amount q + t_amount u,
               t_status := (if t_refunded_amount q + t_amount u = t_amount q then REFUNDED else PARTIALLY_REFUNDED),
               t_version := t_version q + 1, t_updated_at := now\<rparr>"
      and step: "t_status q' = DISPUTED \<or> allowed DISPUTED (t_status q')"
      by (rule update_transaction_facts [OF 1(4)], use p found assms(10) in simp)+
    have less: "t_refunded_amount q + t_amount u \<noteq> t_amount q"
      using step q'(3) by (auto simp: allowed_def status_transitions_def split: if_splits)
    have "q' \<in> set (transactions d2')"
      using q'(1) lookup_by_in [OF found] by (auto simp: replace_by_def intro: image_eqI [of _ _ q])
    then show ?case
      using less q'(2,3) 1(3) p change(1) \<open>d' = _\<close> d3 books_entry_keeps(1) [OF 1(6)]
      by (intro conjI bexI [of _ q']) auto
  qed
qed

theorem refund_ends_dispute_witness:
  "\<exists>q' \<in> set (transactions demo_dispute_ended). t_id q' = ''t1'' \<and> t_status q' = PARTIALLY_REFUNDED"
proof -
  let ?q = "demo_row ''t1'' ''TXN-20260922-010101'' ''k1'' 1000 DISPUTED 0 4 5500"
  let ?row = "demo_refund_row PENDING 2 5000"
  have q: "lookup_by t_reference ''TXN-20260922-020202'' (transactions demo_open_dispute) = Some ?row"
    "?q \<in> set (transactions demo_open_dispute)" "t_parent_transaction_id ?row = Some (t_id ?q)"
    "t_status ?q = DISPUTED" "t_type ?row = REFUND" "t_status ?row = PENDING"
    "ts_status (demo_to SUCCEEDED) = SUCCEEDED" "t_id ?q = ''t1''"
    by (simp_all add: demo_open_dispute_def demo_db_def lookup_by_def demo_row_def demo_refund_row_def demo_to_def)
  show ?thesis
    using refund_ends_dispute [OF inj_demo_uid reach_demo_open_dispute run_dispute_ended q(1,5,6,7,2,3,4)] q(8) by auto
qed

text \<open>
  A payment in a currency other than XOF can be created, but never confirmed: every account is
  kept in XOF, so the transition to SUCCEEDED always fails and changes nothing.
\<close>

theorem foreign_currency_never_settles:
  assumes "inj uid" "reachable uid n0 d" "lookup_by t_reference ref (transactions d) = Some row"
    "t_status row = PENDING" "t_currency row \<noteq> ''XOF''" "ts_status dto = SUCCEEDED" "t_type row = PAYMENT"
  shows "\<exists>e. transition eid xid now ref dto v d = (Inl e, d)"
proof (cases "transition eid xid now ref dto v d")
  case (Pair r d')
  note parts = reachable_parts [OF assms(1,2)]
  show ?thesis
  proof (cases r)
    case (Inl e)
    then show ?thesis using transition_Inl [OF Pair [unfolded Inl]] assms(3,4) Pair by auto
  next
    case (Inr t)
    have reach': "reachable uid n0 d'" by (rule reach_transition [OF Pair assms(2)])
    have xof: "\<forall>p \<in> set (postings d'). p_currency p = ''XOF''"
    proof
      fix p assume "p \<in> set (postings d')"
      then obtain a where "a \<in> set (accounts d')" "a_currency a = p_currency p"
        using reachable_parts(4) [OF assms(1) reach'] unfolding refs_ok_def by blast
      then show "p_currency p = ''XOF''"
        using reachable_system_ok [OF reach' assms(1)]
        by (auto simp: system_ok_def accounting_ok_def accounts_xof_def DEFAULT_CURRENCY_def)
    qed
    from Pair [unfolded Inr] show ?thesis
    proof (rule transition_Inr, goal_cases)
      case (1 row' u d1 d2 d3)
      have row: "row' = row" using 1(1) assms(3) by simp
      note change = status_change_row [OF parts(1) assms(3) 1(4) [unfolded row assms(6)]]
      have "bookPaymentSuccess \<lparr>s_tx_id = next_tx_id d, s_now = now, s_actor = Some (transition_actor dto)\<rparr> eid u d1 = Inr d2"
        and d3: "d3 = d2" using 1(5,6) row assms(4,6,7) by simp_all
      from this(1) show ?case
      proof (rule bookPaymentSuccess_books, goal_cases)
        case (1 m)
        then obtain ps where ps: "postings d2 = postings d1 @ ps"
          "list_all2 (writes_line (accounts d1) eid (t_currency u)) (payment_lines (u, m)) ps"
          by (auto simp: books_entry_def)
        moreover from this have "ps \<noteq> []" by (auto simp: payment_lines_def)
        ultimately obtain p where "p \<in> set ps" "p_currency p = t_currency u"
          using written_lines_entry [OF ps(2)] by (cases ps) auto
        then show ?case using xof ps(1) \<open>d' = _\<close> d3 change(1) assms(5) by auto
      qed
    qed
  qed
qed

theorem foreign_currency_never_settles_witness:
  "\<exists>e. transition ''e3'' ''x3'' 3000 ''TXN-20260922-010101'' (demo_to SUCCEEDED) 2 demo_usd_pending
     = (Inl e, demo_usd_pending)"
proof -
  let ?row = "(demo_row ''t1'' ''TXN-20260922-010101'' ''k1'' 1000 PENDING 0 2 2000)\<lparr>t_currency := ''USD''\<rparr>"
  have row: "lookup_by t_reference ''TXN-20260922-010101'' (transactions demo_usd_pending) = Some ?row"
    by (simp add: demo_usd_pending_def demo_db_def lookup_by_def demo_row_def)
  show ?thesis
    by (rule foreign_currency_never_settles [OF inj_demo_uid reach_demo_usd_pending row])
       (simp_all add: demo_row_def demo_to_def)
qed

end
