(* ===== verification/Bank.thy ===== *)
theory Bank
  imports Lifecycle
begin

text \<open>
  The specification of the money: a platform that knows no journal, only what each operator owes it,
  what it owes each merchant and the commissions it earned. Money moves in two ways, a settlement and
  a pay-back. The services with their double-entry ledger refine it: \<open>bank_of\<close> reads the balances of
  the ledger, and every service call is one move of the platform or none.
\<close>

section \<open>The specification\<close>

record bank =
  bk_operator_owes :: "provider \<Rightarrow> int"
  bk_owed_to :: "string \<Rightarrow> int"
  bk_earned :: int

datatype money_move = Settle provider string int | Pay_back provider string int

definition fee :: "int \<Rightarrow> int" where
  "fee a = a * 15 div 1000"

fun bank_move :: "money_move \<Rightarrow> bank \<Rightarrow> bank" where
  "bank_move (Settle p c a) b =
    \<lparr>bk_operator_owes = (bk_operator_owes b)(p := bk_operator_owes b p + a),
     bk_owed_to = (bk_owed_to b)(c := bk_owed_to b c + (a - fee a)),
     bk_earned = bk_earned b + fee a\<rparr>"
| "bank_move (Pay_back p c a) b =
    \<lparr>bk_operator_owes = (bk_operator_owes b)(p := bk_operator_owes b p - a),
     bk_owed_to = (bk_owed_to b)(c := bk_owed_to b c - a),
     bk_earned = bk_earned b\<rparr>"

fun moved :: "money_move \<Rightarrow> int" where
  "moved (Settle p c a) = a"
| "moved (Pay_back p c a) = a"

text \<open>A step of the specification: nothing, or a move of a positive amount.\<close>

inductive bank_step :: "bank \<Rightarrow> bank \<Rightarrow> bool" where
  bank_idle: "bank_step b b"
| bank_moves: "0 < moved m \<Longrightarrow> bank_step b (bank_move m b)"

definition empty_bank :: bank where
  "empty_bank = \<lparr>bk_operator_owes = (\<lambda>_. 0), bk_owed_to = (\<lambda>_. 0), bk_earned = 0\<rparr>"

section \<open>The abstraction\<close>

definition bank_of :: "db \<Rightarrow> bank" where
  "bank_of d =
    \<lparr>bk_operator_owes = (\<lambda>p. account_balance (clearingCode p) d),
     bk_owed_to = (\<lambda>c. - account_balance (merchantPayableAccountCode c) d),
     bk_earned = - account_balance FEES_CODE d\<rparr>"

definition code_of_merchant :: "uuid \<Rightarrow> db \<Rightarrow> string" where
  "code_of_merchant mid d = (case lookup_by m_id mid (merchants d) of None \<Rightarrow> [] | Some m \<Rightarrow> m_code m)"

text \<open>The moves of a status change of a transaction: at most one.\<close>

definition money_of :: "db \<Rightarrow> transaction \<Rightarrow> transaction_status \<Rightarrow> money_move list" where
  "money_of d row st =
    (let c = code_of_merchant (t_merchant_id row) d in
     if st = SUCCEEDED \<and> t_status row = PENDING
     then (if t_type row = PAYMENT then [Settle (t_provider row) c (t_amount row)]
           else [Pay_back (t_provider row) c (t_amount row)])
     else if st = REVERSED \<and> t_status row = DISPUTED
     then [Pay_back (t_provider row) c (t_amount row - t_refunded_amount row)]
     else [])"

lemma bank_of_cong: "(\<And>c. account_balance c d' = account_balance c d) \<Longrightarrow> bank_of d' = bank_of d"
  by (simp add: bank_of_def)

lemma bank_of_same: "accounts d' = accounts d \<Longrightarrow> postings d' = postings d \<Longrightarrow> bank_of d' = bank_of d"
  by (rule bank_of_cong) (rule account_balance_cong)

lemma bank_of_payment:
  assumes "0 < t_amount t" "\<And>c. account_balance c d' = account_balance c d + code_effect c (payment_lines (t, m))"
  shows "bank_of d' = bank_move (Settle (t_provider t) (m_code m) (t_amount t)) (bank_of d)"
  using assms by (auto simp: bank_of_def payment_effects fee_def computeCommission_nonneg fun_eq_iff)

lemma bank_of_payback:
  assumes "\<And>c. account_balance c d' = account_balance c d + code_effect c (payback_lines ((t, m), a))"
  shows "bank_of d' = bank_move (Pay_back (t_provider t) (m_code m) a) (bank_of d)"
  using assms by (auto simp: bank_of_def payback_effects fun_eq_iff)

section \<open>The bookings are moves\<close>

lemma payment_moves:
  assumes "bookPaymentSuccess s eid t d = Inr d'" "keys_ok d" "0 < t_amount t"
  shows "bank_of d' = bank_move (Settle (t_provider t) (code_of_merchant (t_merchant_id t) d) (t_amount t)) (bank_of d)"
  using assms(1)
proof (rule bookPaymentSuccess_books, goal_cases)
  case (1 m)
  show ?case
    using bank_of_payment [OF assms(3) account_balance_booking [OF 1(2) assms(2) 1(3)]] 1(1)
    by (simp add: code_of_merchant_def)
qed

lemma update_keeps_bank:
  assumes "update_transaction s i f d = Inr (r, d')" "keys_ok d"
  shows "bank_of d' = bank_of d" "keys_ok d'" "merchants d' = merchants d"
proof -
  have "accounts d' = accounts d" "postings d' = postings d" "merchants d' = merchants d"
    by (rule update_transaction_facts [OF assms(1)], assumption)+
  then show "bank_of d' = bank_of d" "merchants d' = merchants d" by (blast intro: bank_of_same)+
  show "keys_ok d'" by (rule keys_ok_stmt [OF upd_transaction [OF assms(1)] assms(2)])
qed

lemma refund_moves:
  assumes "bookRefundSuccess s eid t d = Inr d'" "keys_ok d"
  shows "bank_of d' = bank_move (Pay_back (t_provider t) (code_of_merchant (t_merchant_id t) d) (t_amount t)) (bank_of d)"
  using assms(1)
proof (rule bookRefundSuccess_books, goal_cases)
  case (1 parent parent' m d1)
  note keep = update_keeps_bank [OF 1(4) assms(2)]
  show ?case
    using bank_of_payback [OF account_balance_booking [OF 1(6) keep(2) 1(7)]] 1(5) keep
    by (simp add: code_of_merchant_def)
qed

lemma dispute_moves:
  assumes "bookDisputeReversal s eid t d = Inr (r, d')" "keys_ok d"
  shows "t_refunded_amount t < t_amount t"
    "bank_of d' = bank_move (Pay_back (t_provider t) (code_of_merchant (t_merchant_id t) d) (t_amount t - t_refunded_amount t)) (bank_of d)"
proof -
  from assms(1) have "t_refunded_amount t < t_amount t
    \<and> bank_of d' = bank_move (Pay_back (t_provider t) (code_of_merchant (t_merchant_id t) d) (t_amount t - t_refunded_amount t)) (bank_of d)"
  proof (rule bookDisputeReversal_books, goal_cases)
    case (1 m d1)
    note keep = update_keeps_bank [OF 1(2) assms(2)]
    show ?case
      using bank_of_payback [OF account_balance_booking [OF 1(4) keep(2) 1(5)]] 1(1,3) keep
      by (simp add: code_of_merchant_def)
  qed
  then show "t_refunded_amount t < t_amount t"
    "bank_of d' = bank_move (Pay_back (t_provider t) (code_of_merchant (t_merchant_id t) d) (t_amount t - t_refunded_amount t)) (bank_of d)"
    by blast+
qed

lemma transition_moves:
  assumes "keys_ok d" "rows_ok d" "transition eid xid now ref dto v d = (Inr t, d')"
  shows "\<exists>row. lookup_by t_reference ref (transactions d) = Some row
    \<and> bank_of d' = fold bank_move (money_of d row (ts_status dto)) (bank_of d)
    \<and> (\<forall>m \<in> set (money_of d row (ts_status dto)). 0 < moved m)"
  using assms(3)
proof (rule transition_Inr, goal_cases)
  case (1 row u d1 d2 d3)
  note change = status_change_row [OF assms(1) 1(1) 1(4)]
  note keep = update_keeps_bank [OF 1(4) assms(1)]
  have u: "t_provider u = t_provider row" "t_merchant_id u = t_merchant_id row" "t_amount u = t_amount row"
    "t_refunded_amount u = t_refunded_amount row" using change(1) by simp_all
  have code: "code_of_merchant i d1 = code_of_merchant i d" for i using keep(3) by (simp add: code_of_merchant_def)
  have "\<forall>c \<in> set (transaction_checks row). snd c" using assms(2) lookup_by_in [OF 1(1)] by (simp add: rows_ok_def)
  then have positive: "0 < t_amount row" by (rule checks_of_row)
  have d': "bank_of d' = bank_of d3" using 1(8) by (intro bank_of_same) simp_all
  consider (payment) "ts_status dto = SUCCEEDED" "t_status row = PENDING" "t_type row = PAYMENT"
    | (refund) "ts_status dto = SUCCEEDED" "t_status row = PENDING" "t_type row \<noteq> PAYMENT"
    | (lost) "ts_status dto = REVERSED" "t_status row = DISPUTED"
    | (other) "\<not> (ts_status dto = SUCCEEDED \<and> t_status row = PENDING)"
        "\<not> (ts_status dto = REVERSED \<and> t_status row = DISPUTED)" by blast
  then show ?case
  proof cases
    case payment
    then have "bank_of d3 = bank_move (Settle (t_provider row) (code_of_merchant (t_merchant_id row) d) (t_amount row)) (bank_of d)"
      using 1(5,6) payment_moves [OF _ keep(2)] u code positive keep(1) by auto
    then show ?thesis using 1(1) d' payment positive by (simp add: money_of_def Let_def)
  next
    case refund
    then have "bank_of d3 = bank_move (Pay_back (t_provider row) (code_of_merchant (t_merchant_id row) d) (t_amount row)) (bank_of d)"
      using 1(5,6) refund_moves [OF _ keep(2)] u code keep(1) by auto
    then show ?thesis using 1(1) d' refund positive by (simp add: money_of_def Let_def)
  next
    case lost
    then have "bookDisputeReversal \<lparr>s_tx_id = next_tx_id d, s_now = now, s_actor = Some (transition_actor dto)\<rparr> eid u d1 = Inr (t, d3)"
      using 1(5,6) by simp
    note moves = dispute_moves [OF this keep(2)]
    then show ?thesis using 1(1) d' lost u code keep(1) by (simp add: money_of_def Let_def)
  next
    case other
    then have "d3 = d1" using 1(5,6) by (simp split: if_splits)
    moreover have "money_of d row (ts_status dto) = []" using other by (auto simp: money_of_def Let_def)
    ultimately show ?thesis using 1(1) d' keep(1) by simp
  qed
qed

section \<open>The other services leave the money alone\<close>

definition idle :: "db \<Rightarrow> db \<Rightarrow> bool" where
  "idle d d' \<longleftrightarrow> accounts d' = accounts d \<and> postings d' = postings d \<and> merchants d' = merchants d"

lemma idle_bank: "idle d d' \<Longrightarrow> bank_of d' = bank_of d"
  unfolding idle_def by (blast intro: bank_of_same)

lemma idle_insert: "insert_transaction s t d = Inr (r, d') \<Longrightarrow> idle d d'"
  by (erule insert_transaction_InrD) (simp add: idle_def)

lemma idle_update: "update_transaction s i f d = Inr (r, d') \<Longrightarrow> idle d d'"
  by (erule update_transaction_facts) (simp add: idle_def)

lemma idle_trans: "idle a b \<Longrightarrow> idle b c \<Longrightarrow> idle a c"
  by (simp add: idle_def)

lemma idle_statements:
  "insert_api_key k d = Inr (rk, d') \<Longrightarrow> idle d d'"
  "update_api_key i fk d = Inr (rk, d') \<Longrightarrow> idle d d'"
  "insert_exception x d = Inr (rx, d') \<Longrightarrow> idle d d'"
  "update_exception i fx d = Inr (rx, d') \<Longrightarrow> idle d d'"
  "insert_load s started d = Inr (rl, d') \<Longrightarrow> idle d d'"
  unfolding idle_def
  by (auto dest!: insert_api_key_InrD update_api_key_InrD insert_exception_InrD update_exception_InrD insert_load_InrD)

lemma idle_sql_transaction:
  assumes "\<And>s x d1. body s d = Inr (x, d1) \<Longrightarrow> idle d d1"
  shows "idle d (snd (sql_transaction who now body d))"
proof (cases "body \<lparr>s_tx_id = next_tx_id d, s_now = now, s_actor = who\<rparr> d")
  case (Inl e)
  then show ?thesis by (simp add: sql_transaction_run idle_def)
next
  case (Inr xd)
  then show ?thesis
    using assms [of _ "fst xd" "snd xd"] by (auto simp: sql_transaction_run idle_def split: prod.split sum.split)
qed

lemma idle_expire_rows: "expire_rows s ids d = Inr d' \<Longrightarrow> idle d d'"
  unfolding expire_rows_def
proof (rule fold_result_invariant [where P = "idle d"])
  fix i d1 d2
  assume "idle d d1" "andThen (update_transaction s i (\<lambda>t. t\<lparr>t_status := EXPIRED\<rparr>) d1) (\<lambda>(_, d'). Inr d') = Inr d2"
  then show "idle d d2" by (auto simp: result_simps dest!: idle_update intro: idle_trans)
qed (simp_all add: idle_def)

text \<open>A new merchant opens an account with nothing on it.\<close>

lemma merchant_bank:
  assumes "create_merchant_body mid aid dto s d = Inr (m, d')" "refs_ok d"
  shows "bank_of d' = bank_of d"
proof (rule bank_of_cong)
  fix c
  obtain a where a: "accounts d' = accounts d @ [a]" "postings d' = postings d" "a_id a \<notin> a_id ` set (accounts d)"
    "a_code a \<notin> a_code ` set (accounts d)"
    using assms(1) by (auto simp: create_merchant_body_def result_simps dest!: insert_merchant_InrD insert_account_InrD)
  have "filter (\<lambda>p. p_account_id p = a_id a) (postings d) = []"
    using assms(2) a(3) unfolding refs_ok_def filter_empty_conv by (metis image_eqI)
  then have "account_net (a_id a) (postings d) = 0" by (simp add: account_net_def)
  then show "account_balance c d' = account_balance c d"
    using a by (cases "lookup_by a_code c (accounts d)") (auto simp: account_balance_def table_simps)
qed

text \<open>Every step is a new merchant, a status change, or idle.\<close>

lemma step_idle:
  assumes "service_step d d'"
  obtains
    (merchant) mid aid now dto where "d' = snd (create_merchant mid aid now dto d)"
  | (status) eid xid now ref dto version where "d' = snd (transition eid xid now ref dto version d)"
  | (other) "idle d d'"
  using assms
proof cases
  case (step_payment sha config inp pdto key merchant_id)
  have "idle d d'"
    unfolding step_payment create_payment_def idempotent_db
    by (rule idle_sql_transaction) (auto simp: create_payment_body_def result_simps intro: idle_insert)
  then show thesis by (rule other)
next
  case (step_refund sha config inp ref rdto key merchant_id)
  have "idle d (snd (sql_transaction who now (create_refund_body sha config inp ref parent rdto key) d))" for who now parent
    by (rule idle_sql_transaction) (auto simp: create_refund_body_def result_simps intro: idle_insert)
  then have "idle d d'"
    unfolding step_refund create_refund_def
    by (simp add: idempotent_db idle_def split: sum.split)
  then show thesis by (rule other)
next
  case (step_expire clock now locked)
  have "idle d d'"
    unfolding step_expire expire_one_batch_def withActor_def
    by (rule idle_sql_transaction)
      (auto simp: expire_one_batch_body_def Let_def result_simps idle_def split: if_splits dest!: idle_expire_rows)
  then show thesis by (rule other)
next
  case (step_api_key sha kid rnd given now kdto)
  have "idle d (snd (sql_transaction None now (create_key_body sha kid kdto rawKey) d))" for rawKey
    by (rule idle_sql_transaction) (auto simp: create_key_body_def intro: idle_statements)
  then have "idle d d'" using step_api_key create_api_key_db [of sha kid rnd given now kdto d] by (auto simp: idle_def)
  then show thesis by (rule other)
next
  case (step_revoke kid clock)
  have "idle d (snd (sql_transaction None clock (revoke_body kid clock) d))"
    by (rule idle_sql_transaction) (auto simp: revoke_body_def intro: idle_statements)
  then have "idle d d'" using step_revoke revoke_db [of kid clock d] by (auto simp: idle_def)
  then show thesis by (rule other)
next
  case (step_resolve xid clock resolution who)
  have "idle d (snd (sql_transaction None clock (resolve_body xid clock who resolution) d))"
    by (rule idle_sql_transaction) (auto simp: resolve_body_def intro: idle_statements)
  then have "idle d d'" using step_resolve resolve_db [of xid clock resolution who d] by (auto simp: idle_def)
  then show thesis by (rule other)
next
  case (step_report xid now inp')
  have "idle d (snd (sql_transaction None now (report_body xid inp') d))"
    by (rule idle_sql_transaction) (auto simp: report_body_def intro: idle_statements)
  then have "idle d d'" using step_report report_db [of xid now inp' d] by (auto simp: idle_def)
  then show thesis by (rule other)
next
  case (step_load started now)
  have "idle d d'"
    unfolding step_load create_dataset_load_def by (rule idle_sql_transaction) (rule idle_statements)
  then show thesis by (rule other)
qed (blast intro: merchant status)+

lemma step_bank:
  assumes "service_step d d'" "keys_ok d" "rows_ok d" "refs_ok d"
  shows "bank_step (bank_of d) (bank_of d')"
  using assms(1)
proof (cases rule: step_idle)
  case (merchant mid aid now dto)
  have "bank_of d' = bank_of d"
  proof (cases "create_merchant_body mid aid dto \<lparr>s_tx_id = next_tx_id d, s_now = now, s_actor = None\<rparr> d")
    case (Inl e)
    then show ?thesis using merchant by (simp add: create_merchant_def sql_transaction_run)
  next
    case (Inr md)
    then have same: "bank_of (snd md) = bank_of d" using merchant_bank [of mid aid dto _ d "fst md" "snd md"] assms(4) by simp
    have "bank_of ((snd md)\<lparr>next_tx_id := n, deferred := q\<rparr>) = bank_of (snd md)" for n q
      by (rule bank_of_same) simp_all
    then show ?thesis
      using merchant Inr same by (auto simp: create_merchant_def sql_transaction_run split: prod.split sum.split)
  qed
  then show ?thesis by (simp add: bank_idle)
next
  case (status eid xid now ref tdto version)
  obtain r where run: "transition eid xid now ref tdto version d = (r, d')" using status by (metis prod.collapse)
  show ?thesis
  proof (cases r)
    case (Inl e)
    have "idle d d'" using transition_Inl [OF run [unfolded Inl]] by (auto simp: idle_def)
    then show ?thesis by (simp add: idle_bank bank_idle)
  next
    case (Inr t)
    from transition_moves [OF assms(2,3) run [unfolded Inr]] obtain row where
      "bank_of d' = fold bank_move (money_of d row (ts_status tdto)) (bank_of d)"
      "\<forall>m \<in> set (money_of d row (ts_status tdto)). 0 < moved m" by blast
    moreover have "money_of d row (ts_status tdto) = [] \<or> (\<exists>m. money_of d row (ts_status tdto) = [m])"
      by (simp add: money_of_def Let_def)
    ultimately show ?thesis by (auto simp: bank_idle bank_moves simp del: bank_move.simps)
  qed
qed (simp add: idle_bank bank_idle)

section \<open>The refinement\<close>

lemma initial_bank: "bank_of (initial_db uid now) = empty_bank"
proof -
  have "account_balance c (initial_db uid now) = 0" for c
    by (simp add: account_balance_def account_net_def initial_db_def split: option.split)
  then show ?thesis by (simp add: bank_of_def empty_bank_def)
qed

lemma bank_run: "reachable uid n0 d \<Longrightarrow> inj uid \<Longrightarrow> rtranclp bank_step empty_bank (bank_of d)"
proof (induction rule: reachable.induct)
  case reach_initial
  then show ?case by (simp add: initial_bank)
next
  case (reach_step d d')
  note parts = reachable_parts [OF reach_step.prems reach_step.hyps(1)]
  show ?case
    using step_bank [OF reach_step.hyps(2) parts(1,2,4)] reach_step by (simp add: rtranclp.rtrancl_into_rtrancl)
qed

text \<open>
  C3: A status change refines the specification: one that succeeds has on the balances of the ledger
  exactly the effect of the moves that \<open>money_of\<close> reads off the row and the new status (a settlement, a
  pay-back or nothing), one that fails has none.
\<close>

theorem transition_refines_bank:
  assumes "inj uid" "reachable uid n0 d" "transition eid xid now ref dto v d = (r, d')"
  shows "case r of
      Inl e \<Rightarrow> bank_of d' = bank_of d
    | Inr t \<Rightarrow> \<exists>row. lookup_by t_reference ref (transactions d) = Some row
        \<and> bank_of d' = fold bank_move (money_of d row (ts_status dto)) (bank_of d)"
proof (cases r)
  case (Inl e)
  have "idle d d'" using transition_Inl [OF assms(3) [unfolded Inl]] by (auto simp: idle_def)
  then show ?thesis using Inl by (simp add: idle_bank)
next
  case (Inr t)
  then show ?thesis
    using transition_moves [OF reachable_parts(1,2) [OF assms(1,2)] assms(3) [unfolded Inr]] by auto
qed

theorem transition_refines_bank_witness:
  "bank_of demo_settled = bank_move (Settle WAVE ''demo'' 10000) (bank_of demo_pending)"
proof -
  have row: "lookup_by t_reference ''TXN-20260922-010101'' (transactions demo_pending)
      = Some (demo_row ''t1'' ''TXN-20260922-010101'' ''k1'' 1000 PENDING 0 2 2000)"
    by (simp add: demo_pending_def demo_db_def lookup_by_def demo_row_def)
  have "money_of demo_pending (demo_row ''t1'' ''TXN-20260922-010101'' ''k1'' 1000 PENDING 0 2 2000) SUCCEEDED
      = [Settle WAVE ''demo'' 10000]"
    by (simp add: money_of_def demo_row_def code_of_merchant_def lookup_by_def demo_pending_def demo_db_def demo_start_def initial_db_def)
  then show ?thesis
    using transition_refines_bank [OF inj_demo_uid reach_demo_pending run_settled] row by (simp add: demo_to_def)
qed

text \<open>
  C4: The system refines the specification: every step of a service, from any reachable state, is a
  step of the platform without a journal, so the balances of every reachable state are those of a run
  of it from nothing.
\<close>

theorem services_refine_bank:
  assumes "inj uid" "reachable uid n0 d" "service_step d d'"
  shows "bank_step (bank_of d) (bank_of d') \<and> rtranclp bank_step empty_bank (bank_of d')"
  using step_bank [OF assms(3) reachable_parts(1,2,4) [OF assms(1,2)]] bank_run [OF reach_step [OF assms(2,3)] assms(1)]
  by blast

theorem services_refine_bank_witness:
  "bank_step (bank_of demo_refund_pending) (bank_of demo_refunded)
    \<and> bk_operator_owes (bank_of demo_refunded) WAVE = 6000 \<and> bk_operator_owes (bank_of demo_refund_pending) WAVE = 10000"
proof -
  have "service_step demo_refund_pending demo_refunded" using step_transition run_refunded by (metis snd_conv)
  from services_refine_bank [OF inj_demo_uid reach_demo_refund_pending this]
  have "bank_step (bank_of demo_refund_pending) (bank_of demo_refunded)" by blast
  moreover have "bk_operator_owes (bank_of demo_refunded) WAVE = 6000" "bk_operator_owes (bank_of demo_refund_pending) WAVE = 10000"
    by (simp_all add: bank_of_def account_balance_def account_net_def net_debit_def signed_amount_def is_debit_def clearingCode_simps
        demo_refunded_def demo_refund_pending_def demo_db_def demo_start_def initial_db_def chart_account_def lookup_by_def posting_def)
  ultimately show ?thesis by blast
qed

end
