(* ===== verification/Sweep.thy ===== *)
theory Sweep
  imports Lifecycle
begin

text \<open>
  The expiration sweep: what a batch does to the table, that the loop ends with every overdue row
  expired, and that it touches nothing else. The widths of the columns are an invariant here: an
  UPDATE of the status cannot fail on them, and goes through when the state machine and the CHECKs allow it.
\<close>

section \<open>Column widths\<close>

definition ranges_ok :: "db \<Rightarrow> bool" where
  "ranges_ok d \<longleftrightarrow> (\<forall>t \<in> set (transactions d). \<forall>c \<in> set (transaction_ranges t). snd c)"

lemma ranges_of_update:
  assumes "update_transaction s i f d = Inr (r, d')"
  shows "\<forall>c \<in> set (transaction_ranges r). snd c"
  using assms unfolding update_transaction_def Let_def
  by (auto simp: result_simps transactions_before_update_def transaction_ranges_def split: option.splits if_splits)

lemma ranges_of_insert:
  assumes "insert_transaction s t d = Inr (r, d')"
  shows "\<forall>c \<in> set (transaction_ranges r). snd c"
proof -
  have width: "\<forall>c \<in> set (transaction_ranges t). snd c"
    using assms unfolding insert_transaction_def by (auto simp: result_simps)
  from assms show ?thesis
  proof (rule insert_transaction_InrD, goal_cases)
    case (1 h)
    show ?case using width 1(4,5,7,8,12-14,16,17) by (simp add: transaction_ranges_def in_int8_def in_int4_def)
  qed
qed

lemma ranges_ok_stmt:
  assumes "stmt s d d'" "ranges_ok d"
  shows "ranges_ok d'"
  using assms(1)
proof cases
  case (ins_transaction t r)
  have "transactions d' = transactions d @ [r]"
    using ins_transaction by (rule insert_transaction_InrD) simp
  then show ?thesis using ranges_of_insert [OF ins_transaction] assms(2) by (auto simp: ranges_ok_def)
next
  case (upd_transaction i f r)
  have "transactions d' = replace_by t_id i r (transactions d)"
    using update_transaction_facts [OF upd_transaction] by metis
  then show ?thesis
    using ranges_of_update [OF upd_transaction] assms(2) by (auto simp: ranges_ok_def dest!: in_set_replace_by)
qed (use assms(2) in \<open>auto simp: ranges_ok_def insert_load_def Let_def dest!: insert_account_InrD insert_entry_InrD
    insert_posting_InrD insert_merchant_InrD insert_exception_InrD update_exception_InrD insert_api_key_InrD
    update_api_key_InrD\<close>)

interpretation ranges: sql_invariant ranges_ok
  by unfold_locales (rule ranges_ok_stmt, assumption+, simp add: ranges_ok_def)

lemma step_ranges: "service_step d d' \<Longrightarrow> ranges_ok d \<Longrightarrow> ranges_ok d'"
  using step_transaction [of d d'] ranges.evolution.transaction_evolves sql_body.body_stmts
  unfolding service_transaction_def by (metis (no_types, lifting))

lemma reachable_ranges: "reachable uid now d \<Longrightarrow> ranges_ok d"
proof (induction rule: reachable.induct)
  case reach_initial
  then show ?case by (simp add: ranges_ok_def initial_db_def)
next
  case (reach_step d d')
  then show ?case using step_ranges by blast
qed

section \<open>One row, one batch\<close>

definition expired_row :: "timestamp \<Rightarrow> transaction \<Rightarrow> transaction" where
  "expired_row stamp t = t\<lparr>t_status := EXPIRED, t_version := t_version t + 1, t_updated_at := stamp\<rparr>"

lemma expired_row_id [simp]: "t_id (expired_row stamp t) = t_id t"
  by (simp add: expired_row_def)

lemma expired_row_not_overdue [simp]: "\<not> overdue now (expired_row stamp t)"
  by (simp add: expired_row_def overdue_def)

definition expire_ids :: "timestamp \<Rightarrow> uuid list \<Rightarrow> transaction list \<Rightarrow> transaction list" where
  "expire_ids stamp ids ts = map (\<lambda>t. if t_id t \<in> set ids then expired_row stamp t else t) ts"

lemma replace_expired:
  assumes "distinct (map t_id ts)" "lookup_by t_id i ts = Some t"
  shows "replace_by t_id i (expired_row stamp t) ts = expire_ids stamp [i] ts"
proof -
  have "t_id x = i \<Longrightarrow> x \<in> set ts \<Longrightarrow> x = t" for x using unique_row [OF assms] by blast
  then show ?thesis by (auto simp: replace_by_def expire_ids_def)
qed

lemma expire_ids_Cons:
  "expire_ids stamp ids (expire_ids stamp [i] ts) = expire_ids stamp (i # ids) ts" if "i \<notin> set ids"
  using that by (auto simp: expire_ids_def)

lemma ids_of_expire_ids [simp]: "map t_id (expire_ids stamp ids ts) = map t_id ts"
  by (simp add: expire_ids_def)

lemma expire_update_effect:
  assumes "update_transaction s i (\<lambda>t. t\<lparr>t_status := EXPIRED\<rparr>) d = Inr (r, d')" "distinct (map t_id (transactions d))"
  shows "\<exists>hs. d' = d\<lparr>transactions := expire_ids (s_now s) [i] (transactions d), history := history d @ hs\<rparr>"
  using assms(1)
proof (rule update_transaction_InrD, goal_cases)
  case (1 old hs)
  have "r = expired_row (s_now s) old" using 1(2) by (simp add: expired_row_def)
  then show ?case using 1(1,8) replace_expired [OF assms(2)] by auto
qed

lemma expire_rows_effect:
  assumes "expire_rows s ids d = Inr d'" "distinct ids" "distinct (map t_id (transactions d))"
  shows "\<exists>hs. d' = d\<lparr>transactions := expire_ids (s_now s) ids (transactions d), history := history d @ hs\<rparr>"
  using assms unfolding expire_rows_def
proof (induction ids arbitrary: d)
  case Nil
  then show ?case by (intro exI [of _ "[]"]) (simp add: expire_ids_def)
next
  case (Cons i ids)
  obtain r d1 where d1: "update_transaction s i (\<lambda>t. t\<lparr>t_status := EXPIRED\<rparr>) d = Inr (r, d1)"
    "fold_result (\<lambda>tid d. andThen (update_transaction s tid (\<lambda>t. t\<lparr>t_status := EXPIRED\<rparr>) d)
      (\<lambda>(_, d'). Inr d')) ids d1 = Inr d'"
    using Cons.prems(1) by (auto simp: result_simps)
  obtain hs where hs: "d1 = d\<lparr>transactions := expire_ids (s_now s) [i] (transactions d), history := history d @ hs\<rparr>"
    using expire_update_effect [OF d1(1) Cons.prems(3)] by blast
  obtain ks where "d' = d1\<lparr>transactions := expire_ids (s_now s) ids (transactions d1), history := history d1 @ ks\<rparr>"
    using Cons.IH [OF d1(2)] Cons.prems(2,3) hs by auto
  then have "d' = d\<lparr>transactions := expire_ids (s_now s) (i # ids) (transactions d), history := history d @ (hs @ ks)\<rparr>"
    using hs expire_ids_Cons Cons.prems(2) by simp
  then show ?case by blast
qed

section \<open>An UPDATE that goes through\<close>

text \<open>The actor of the session fits its columns of the history.\<close>

definition declared_actor :: "session \<Rightarrow> bool" where
  "declared_actor s \<longleftrightarrow> (\<exists>a. s_actor s = Some a \<and> length (ac_id a) \<le> 100
     \<and> (case setting_reason a of None \<Rightarrow> True | Some r \<Rightarrow> length r \<le> 500))"

text \<open>The CHECK constraints that speak of the status, for a row that otherwise keeps its columns.\<close>

definition status_fits :: "transaction \<Rightarrow> transaction_status \<Rightarrow> bool" where
  "status_fits t st \<longleftrightarrow> (t_type t = REFUND \<longrightarrow> st \<in> set settled_statuses)
   \<and> (st \<in> set settled_statuses \<longrightarrow> t_refunded_amount t = 0)
   \<and> (st = PARTIALLY_REFUNDED \<longrightarrow> 0 < t_refunded_amount t \<and> t_refunded_amount t < t_amount t)
   \<and> (st = REFUNDED \<longrightarrow> t_refunded_amount t = t_amount t)"

lemma status_checks:
  assumes "\<forall>c \<in> set (transaction_checks t). snd c"
  shows "(\<forall>c \<in> set (transaction_checks (t\<lparr>t_status := st\<rparr>)). snd c) \<longleftrightarrow> status_fits t st"
  by (cases "t_type t"; cases "t_expires_at t") (use assms in \<open>simp_all add: transaction_checks_def status_fits_def\<close>)

lemma status_fits_same: "\<forall>c \<in> set (transaction_checks t). snd c \<Longrightarrow> status_fits t (t_status t)"
  using status_checks [of t "t_status t"] by simp

lemma update_succeeds:
  assumes "lookup_by t_id i (transactions d) = Some t" "f t = t\<lparr>t_status := st, t_refunded_amount := n\<rparr>"
    "st = t_status t \<or> allowed (t_status t) st" "t_refunded_amount t \<le> n" "in_int8 n" "t_version t < 2147483647"
    "\<forall>c \<in> set (transaction_ranges t). snd c"
    "\<forall>c \<in> set (transaction_checks (t\<lparr>t_status := st, t_refunded_amount := n\<rparr>)). snd c"
    "st \<noteq> t_status t \<longrightarrow> declared_actor s"
  shows "\<exists>hs. update_transaction s i f d
    = Inr (t\<lparr>t_status := st, t_refunded_amount := n, t_version := t_version t + 1, t_updated_at := s_now s\<rparr>,
        d\<lparr>transactions := replace_by t_id i
            (t\<lparr>t_status := st, t_refunded_amount := n, t_version := t_version t + 1, t_updated_at := s_now s\<rparr>) (transactions d),
          history := history d @ hs\<rparr>) \<and> (st = t_status t \<longrightarrow> hs = [])"
proof -
  let ?new = "t\<lparr>t_status := st, t_refunded_amount := n\<rparr>"
  let ?u = "t\<lparr>t_status := st, t_refunded_amount := n, t_version := t_version t + 1, t_updated_at := s_now s\<rparr>"
  let ?d = "d\<lparr>transactions := replace_by t_id i ?u (transactions d)\<rparr>"
  have ranges: "check_all (transaction_ranges ?new) = Inr ()"
    using assms(5,7) by (simp add: result_simps transaction_ranges_def)
  have before: "transactions_before_update s t ?new = Inr ?u"
    using assms(3,4,6,7)
    by (auto simp: transactions_before_update_def check_all.simps frozen_columns_kept_def in_int4_def transaction_ranges_def)
  have checks: "check_all (transaction_checks ?u) = Inr ()"
    using assms(8) by (simp add: result_simps transaction_checks_def split: option.splits)
  show ?thesis
  proof (cases "st = t_status t")
    case True
    then show ?thesis
      using ranges before checks assms(1,2) by (intro exI [of _ "[]"]) (simp add: update_transaction_def Let_def)
  next
    case False
    then obtain h where "record_status s (Some (t_status t)) ?u ?d = Inr (?d\<lparr>history := history d @ [h]\<rparr>)"
      using assms(9) that by (auto simp: declared_actor_def record_status_def check_all.simps)
    then show ?thesis
      using ranges before checks assms(1,2) False by (intro exI [of _ "[h]"]) (simp add: update_transaction_def Let_def)
  qed
qed

text \<open>A change of the status alone.\<close>

lemma status_update_succeeds:
  assumes "lookup_by t_id i (transactions d) = Some t" "t_version t < 2147483647"
    "\<forall>c \<in> set (transaction_checks t). snd c" "\<forall>c \<in> set (transaction_ranges t). snd c"
    "st = t_status t \<or> allowed (t_status t) st \<and> status_fits t st" "st \<noteq> t_status t \<longrightarrow> declared_actor s"
  shows "\<exists>hs. update_transaction s i (\<lambda>t. t\<lparr>t_status := st\<rparr>) d
    = Inr (t\<lparr>t_status := st, t_version := t_version t + 1, t_updated_at := s_now s\<rparr>,
        d\<lparr>transactions := replace_by t_id i (t\<lparr>t_status := st, t_version := t_version t + 1, t_updated_at := s_now s\<rparr>) (transactions d),
          history := history d @ hs\<rparr>) \<and> (st = t_status t \<longrightarrow> hs = [])"
proof -
  have "status_fits t st" using assms(3,5) status_fits_same by auto
  then have checks: "\<forall>c \<in> set (transaction_checks (t\<lparr>t_status := st, t_refunded_amount := t_refunded_amount t\<rparr>)). snd c"
    using status_checks [OF assms(3)] by simp
  have int8: "in_int8 (t_refunded_amount t)" using assms(4) by (simp add: transaction_ranges_def)
  have step: "st = t_status t \<or> allowed (t_status t) st" using assms(5) by blast
  from update_succeeds [OF assms(1) _ step order_refl int8 assms(2,4) checks assms(6), of "\<lambda>t. t\<lparr>t_status := st\<rparr>"]
  show ?thesis by simp
qed

text \<open>A PENDING row whose columns are in range can always be expired.\<close>

definition can_expire :: "db \<Rightarrow> uuid \<Rightarrow> bool" where
  "can_expire d i \<longleftrightarrow> (\<exists>t. lookup_by t_id i (transactions d) = Some t \<and> t_status t = PENDING
     \<and> t_version t < 2147483647 \<and> (\<forall>c \<in> set (transaction_checks t). snd c) \<and> (\<forall>c \<in> set (transaction_ranges t). snd c))"

lemma expire_update_succeeds:
  assumes "can_expire d i" "s_actor s = Some expiration_actor"
  shows "\<exists>r d'. update_transaction s i (\<lambda>t. t\<lparr>t_status := EXPIRED\<rparr>) d = Inr (r, d')"
proof -
  obtain t where t: "lookup_by t_id i (transactions d) = Some t" "t_status t = PENDING" "t_version t < 2147483647"
    "\<forall>c \<in> set (transaction_checks t). snd c" "\<forall>c \<in> set (transaction_ranges t). snd c"
    using assms(1) by (auto simp: can_expire_def)
  have "declared_actor s"
    using assms(2) by (simp add: declared_actor_def expiration_actor_def setting_reason_def nullif_empty_def)
  moreover have "allowed (t_status t) EXPIRED" "status_fits t EXPIRED"
    using t(2) checks_of_row(7) [OF t(4)] by (simp_all add: allowed_def status_transitions_def status_fits_def settled_statuses_def)
  ultimately show ?thesis using status_update_succeeds [OF t(1,3-5), of EXPIRED s] by blast
qed

lemma expire_rows_succeed:
  assumes "\<forall>i \<in> set ids. can_expire d i" "distinct ids" "distinct (map t_id (transactions d))"
    "s_actor s = Some expiration_actor"
  shows "\<exists>d'. expire_rows s ids d = Inr d'"
  using assms unfolding expire_rows_def
proof (induction ids arbitrary: d)
  case Nil
  then show ?case by simp
next
  case (Cons i ids)
  obtain r d1 where d1: "update_transaction s i (\<lambda>t. t\<lparr>t_status := EXPIRED\<rparr>) d = Inr (r, d1)"
    using expire_update_succeeds Cons.prems by (metis list.set_intros(1))
  obtain hs where hs: "d1 = d\<lparr>transactions := expire_ids (s_now s) [i] (transactions d), history := history d @ hs\<rparr>"
    using expire_update_effect [OF d1 Cons.prems(3)] by blast
  have "can_expire d1 j" if j: "j \<in> set ids" for j
  proof -
    have "j \<noteq> i" using j Cons.prems(2) by auto
    then have "lookup_by t_id j (expire_ids (s_now s) [i] ts) = lookup_by t_id j ts" for ts
      by (induction ts) (auto simp: expire_ids_def table_simps)
    then show ?thesis using Cons.prems(1) j hs by (simp add: can_expire_def)
  qed
  then show ?case using Cons.IH [of d1] Cons.prems(2-4) d1 hs by simp
qed

section \<open>A batch\<close>

lemma select_overdue_ids:
  assumes "distinct (map t_id (transactions d))"
  shows "distinct (select_overdue now locked d)"
proof -
  let ?rows = "filter (\<lambda>t. overdue now t \<and> \<not> locked (t_id t)) (transactions d)"
  have "mset (map t_id (sort_key expiry_of ?rows)) = mset (map t_id ?rows)" by simp
  moreover have "distinct (map t_id ?rows)" using assms by (rule distinct_map_filter)
  ultimately have "distinct (map t_id (sort_key expiry_of ?rows))" using mset_eq_imp_distinct_iff by blast
  then have "distinct (take EXPIRATION_BATCH_SIZE (map t_id (sort_key expiry_of ?rows)))" by (rule distinct_take)
  then show ?thesis by (simp only: select_overdue_def take_map)
qed

lemma select_overdue_in:
  "i \<in> set (select_overdue now locked d) \<Longrightarrow> \<exists>t \<in> set (transactions d). t_id t = i \<and> overdue now t \<and> \<not> locked i"
  by (auto simp: select_overdue_def dest!: in_set_takeD)

lemma sort_key_empty: "sort_key f xs = [] \<longleftrightarrow> xs = []"
  using length_sort [of f xs] by (metis length_0_conv)

lemma select_overdue_empty:
  "select_overdue now locked d = [] \<longleftrightarrow> (\<forall>t \<in> set (transactions d). overdue now t \<longrightarrow> locked (t_id t))"
  unfolding select_overdue_def map_is_Nil_conv take_eq_Nil sort_key_empty filter_empty_conv EXPIRATION_BATCH_SIZE_def
  by auto

text \<open>A committed batch expired the selected rows and nothing else.\<close>

lemma batch_effect:
  assumes "expire_one_batch clock stamp locked d = (Inr n, d')" "distinct (map t_id (transactions d))"
  shows "n = length (select_overdue clock locked d)
    \<and> transactions d' = expire_ids stamp (select_overdue clock locked d) (transactions d)
    \<and> entries d' = entries d \<and> postings d' = postings d"
proof -
  let ?s = "\<lparr>s_tx_id = next_tx_id d, s_now = stamp, s_actor = Some expiration_actor\<rparr>"
  let ?ids = "select_overdue clock locked d"
  obtain d1 where d1: "expire_one_batch_body clock locked ?s d = Inr (n, d1)"
    "d' = d1\<lparr>next_tx_id := Suc (next_tx_id d), deferred := []\<rparr>"
    using assms(1) unfolding expire_one_batch_def withActor_def by (auto elim: sql_transaction_Inr)
  show ?thesis
  proof (cases "?ids = []")
    case True
    then show ?thesis using d1 by (simp add: expire_one_batch_body_def expire_ids_def)
  next
    case False
    then have "expire_rows ?s ?ids d = Inr d1" "n = length ?ids"
      using d1(1) by (auto simp: expire_one_batch_body_def Let_def result_simps)
    then show ?thesis
      using expire_rows_effect [OF _ select_overdue_ids [OF assms(2)] assms(2), of ?s clock locked d1] d1(2) by auto
  qed
qed

lemma batch_succeeds:
  assumes "system_ok d" "ranges_ok d" "\<forall>t \<in> set (transactions d). overdue clock t \<longrightarrow> t_version t < 2147483647"
  shows "\<exists>n d'. expire_one_batch clock stamp locked d = (Inr n, d')"
proof -
  let ?s = "\<lparr>s_tx_id = next_tx_id d, s_now = stamp, s_actor = Some expiration_actor\<rparr>"
  let ?ids = "select_overdue clock locked d"
  have keys: "distinct (map t_id (transactions d))" and rows: "rows_ok d" and deferred: "deferred d = []"
    using assms(1) by (simp_all add: system_ok_def tables_ok_def keys_ok_def ledger_ok_def)
  have "can_expire d i" if i: "i \<in> set ?ids" for i
  proof -
    obtain t where t: "t \<in> set (transactions d)" "t_id t = i" "overdue clock t"
      using select_overdue_in [OF i] by blast
    moreover from this have "lookup_by t_id i (transactions d) = Some t" using lookup_by_distinct [OF keys] by blast
    ultimately show ?thesis
      using rows assms(2,3) unfolding can_expire_def rows_ok_def ranges_ok_def by (auto simp: overdue_def)
  qed
  then obtain d1 where "expire_rows ?s ?ids d = Inr d1"
    using expire_rows_succeed [OF _ select_overdue_ids [OF keys] keys, of clock locked ?s] by auto
  moreover from this obtain hs where "d1 = d\<lparr>transactions := expire_ids stamp ?ids (transactions d), history := history d @ hs\<rparr>"
    using expire_rows_effect [OF _ select_overdue_ids [OF keys] keys, of ?s clock locked] by auto
  ultimately show ?thesis
    using deferred
    by (cases "?ids = []")
      (simp_all add: expire_one_batch_def withActor_def sql_transaction_run expire_one_batch_body_def deferred_checks_def Let_def)
qed

lemma rows_after_batch:
  assumes "distinct (map t_id ts)" "distinct ids" "\<forall>i \<in> set ids. \<exists>t \<in> set ts. t_id t = i \<and> P t"
    and gone: "\<And>t. \<not> P (expired_row stamp t)"
  shows "length (filter P ts) = length ids + length (filter P (expire_ids stamp ids ts))"
proof -
  let ?in = "filter (\<lambda>t. t_id t \<in> set ids) (filter P ts)"
  have "distinct (map t_id ?in)" using assms(1) by (intro distinct_map_filter)
  moreover have "set (map t_id ?in) = set ids" using assms(3) by auto
  ultimately have in_ids: "length ?in = length ids"
    using assms(2) by (metis distinct_card length_map)
  have "filter P (expire_ids stamp ids ts) = filter (\<lambda>t. t_id t \<notin> set ids) (filter P ts)"
    unfolding expire_ids_def using gone by (induction ts) auto
  then show ?thesis using in_ids sum_length_filter_compl [of "\<lambda>t. t_id t \<in> set ids" "filter P ts"] by simp
qed

section \<open>The loop\<close>

text \<open>\<open>swept\<close>: an overdue row has been expired by some batch, any other row is as it was.\<close>

definition swept :: "timestamp \<Rightarrow> transaction \<Rightarrow> transaction \<Rightarrow> bool" where
  "swept now t t' \<longleftrightarrow> (if overdue now t then \<exists>stamp. t' = expired_row stamp t else t' = t)"

lemma swept_batch:
  assumes "distinct (map t_id ts)" "\<forall>i \<in> set ids. \<exists>t \<in> set ts. t_id t = i \<and> overdue now t"
    "list_all2 (swept now) (expire_ids stamp ids ts) ts'"
  shows "list_all2 (swept now) ts ts'"
proof -
  have own: "overdue now t" if "t \<in> set ts" "t_id t \<in> set ids" for t
    using assms(1,2) that by (auto simp: distinct_map inj_on_def)
  have "list_all2 (\<lambda>t. swept now (if t_id t \<in> set ids then expired_row stamp t else t)) ts ts'"
    using assms(3) by (simp add: expire_ids_def list.rel_map)
  then show ?thesis
    by (rule list.rel_mono_strong) (use own in \<open>auto simp: swept_def split: if_splits\<close>)
qed

lemma loop_sweeps:
  assumes "system_ok d" "ranges_ok d" "\<forall>t \<in> set (transactions d). overdue now t \<longrightarrow> t_version t < 2147483647"
  shows "\<exists>d'. expire_loop (\<lambda>_. now) stamps (\<lambda>_ _. False) i tot d
      = (Inr (tot + length (filter (overdue now) (transactions d))), d')
    \<and> list_all2 (swept now) (transactions d) (transactions d') \<and> entries d' = entries d \<and> postings d' = postings d"
  using assms
proof (induction "pending_rows d" arbitrary: d i tot rule: less_induct)
  case less
  let ?ids = "select_overdue now (\<lambda>_. False) d"
  have keys: "distinct (map t_id (transactions d))" using less.prems(1) by (simp add: system_ok_def tables_ok_def keys_ok_def)
  obtain n d1 where batch: "expire_one_batch now (stamps i) (\<lambda>_. False) d = (Inr n, d1)"
    using batch_succeeds [OF less.prems] by blast
  note effect = batch_effect [OF batch keys]
  have step: "service_step d d1" using step_expire batch by (metis snd_conv)
  have ids: "\<forall>i \<in> set ?ids. \<exists>t \<in> set (transactions d). t_id t = i \<and> overdue now t"
    using select_overdue_in by blast
  show ?case
  proof (cases "n = 0")
    case True
    then have "\<forall>t \<in> set (transactions d). \<not> overdue now t" using effect select_overdue_empty by fastforce
    moreover from this have "filter (overdue now) (transactions d) = []" by (simp add: filter_empty_conv)
    moreover have "list_all2 (swept now) (transactions d) (transactions d)"
      using calculation(1) by (simp add: list.rel_refl_strong swept_def)
    ultimately show ?thesis
      using True effect batch by (subst expire_loop.simps) (simp add: expire_ids_def)
  next
    case False
    have "\<forall>t \<in> set (transactions d1). overdue now t \<longrightarrow> t_version t < 2147483647"
      using less.prems(3) effect by (auto simp: expire_ids_def split: if_splits)
    then obtain d' where d': "expire_loop (\<lambda>_. now) stamps (\<lambda>_ _. False) (Suc i) (tot + n) d1
        = (Inr (tot + n + length (filter (overdue now) (transactions d1))), d')"
      "list_all2 (swept now) (transactions d1) (transactions d')" "entries d' = entries d1" "postings d' = postings d1"
      using less.hyps [OF batch_makes_progress [OF batch False]] step_system_ok [OF step less.prems(1)]
        step_ranges [OF step less.prems(2)] by blast
    have "length (filter (overdue now) (transactions d)) = n + length (filter (overdue now) (transactions d1))"
      using rows_after_batch [OF keys select_overdue_ids [OF keys] ids, of "stamps i"] effect by simp
    moreover have "list_all2 (swept now) (transactions d) (transactions d')"
      using swept_batch [OF keys ids] d'(2) effect by simp
    ultimately show ?thesis using False batch d' effect by (subst expire_loop.simps) (simp add: add.assoc)
  qed
qed

lemma swept_not_overdue: "list_all2 (swept now) ts ts' \<Longrightarrow> filter (overdue now) ts' = []"
  by (induction rule: list_all2_induct) (auto simp: swept_def split: if_splits)

text \<open>
  C31: The sweep ends and is complete: with no rows locked by others it expires every overdue PENDING
  transaction, in batches, returns how many there were, leaves none, changes no other row and moves
  no money. (The version of a row that is at the end of its 32 bits could not be incremented.)
\<close>

theorem sweep_expires_all_overdue:
  assumes "inj uid" "reachable uid n0 d"
    "\<forall>t \<in> set (transactions d). overdue now t \<longrightarrow> t_version t < 2147483647"
  shows "\<exists>d'. expireOverduePending (\<lambda>_. now) stamps (\<lambda>_ _. False) d
      = (Inr (length (filter (overdue now) (transactions d))), d')
    \<and> list_all2 (swept now) (transactions d) (transactions d') \<and> filter (overdue now) (transactions d') = []
    \<and> entries d' = entries d \<and> postings d' = postings d"
  using loop_sweeps [OF reachable_system_ok [OF assms(2,1)] reachable_ranges [OF assms(2)] assms(3), of stamps 0 0]
    swept_not_overdue unfolding expireOverduePending_def by fastforce

theorem sweep_expires_all_overdue_witness:
  "\<exists>d'. expireOverduePending (\<lambda>_. 2000000) (\<lambda>_. 2000000) (\<lambda>_ _. False) demo_second_pending = (Inr 1, d')
    \<and> filter (overdue 2000000) (transactions d') = []"
proof -
  have one: "length (filter (overdue 2000000) (transactions demo_second_pending)) = 1"
    "\<forall>t \<in> set (transactions demo_second_pending). overdue 2000000 t \<longrightarrow> t_version t < 2147483647"
    by (simp_all add: demo_second_pending_def demo_db_def overdue_def demo_row_def demo_refund_row_def)
  show ?thesis
    using sweep_expires_all_overdue [OF inj_demo_uid reach_demo_second_pending one(2), of "\<lambda>_. 2000000"] one(1) by auto
qed

lemma loop_only_expires:
  assumes "distinct (map t_id (transactions d))"
    "expire_loop clock stamps locked i tot d = (r, d')"
  shows "(\<forall>t \<in> set (transactions d). \<exists>t' \<in> set (transactions d'). t' = t \<or>
      (\<exists>j stamp. overdue (clock j) t \<and> \<not> locked j (t_id t) \<and> t' = expired_row stamp t))
    \<and> length (transactions d') = length (transactions d) \<and> entries d' = entries d \<and> postings d' = postings d
    \<and> (\<forall>n. r = Inr n \<longrightarrow> n + pending_rows d' = tot + pending_rows d)"
  using assms
proof (induction clock stamps locked i tot d rule: expire_loop.induct)
  case (1 clock stamps locked i tot d)
  note keys = "1.prems"(1)
  show ?case
  proof (cases "expire_one_batch (clock i) (stamps i) (locked i) d")
    case (Pair x d1)
    show ?thesis
    proof (cases x)
      case (Inl e)
      then have "d' = d" "r = Inl e"
        using "1.prems"(2) Pair sql_transaction_Inl [of _ _ _ d e d1]
        by (auto simp: expire_loop.simps [of clock stamps locked i] expire_one_batch_def withActor_def)
      then show ?thesis by auto
    next
      case (Inr n)
      let ?ids = "select_overdue (clock i) (locked i) d"
      note effect = batch_effect [OF Pair [unfolded Inr] keys]
      have pend: "pending_rows d = n + pending_rows d1"
      proof -
        have "\<forall>i \<in> set ?ids. \<exists>t \<in> set (transactions d). t_id t = i \<and> t_status t = PENDING"
          using select_overdue_in [of _ "clock i" "locked i" d] by (fastforce simp: overdue_def)
        then show ?thesis
          using rows_after_batch [OF keys select_overdue_ids [OF keys], of "clock i" "locked i" "\<lambda>t. t_status t = PENDING" "stamps i"]
            effect by (simp add: pending_rows_def expired_row_def)
      qed
      show ?thesis
      proof (cases "n = 0")
        case True
        then have "d' = d1" "r = Inr tot" "transactions d1 = transactions d"
          using "1.prems"(2) Pair Inr effect
          by (auto simp: expire_loop.simps [of clock stamps locked i] expire_ids_def)
        then show ?thesis using True pend effect by (simp, blast)
      next
        case False
        then have run: "expire_loop clock stamps locked (Suc i) (tot + n) d1 = (r, d')"
          using "1.prems"(2) Pair Inr by (simp add: expire_loop.simps [of clock stamps locked i])
        have "distinct (map t_id (transactions d1))" using keys effect by simp
        note IH = "1.IH" [OF Pair [symmetric] Inr _ this run]
        have "\<exists>t' \<in> set (transactions d'). t' = t \<or>
            (\<exists>j stamp. overdue (clock j) t \<and> \<not> locked j (t_id t) \<and> t' = expired_row stamp t)"
          if t: "t \<in> set (transactions d)" for t
        proof (cases "t_id t \<in> set ?ids")
          case True
          then have "overdue (clock i) t" "\<not> locked i (t_id t)"
            using select_overdue_in [OF True] t keys by (auto simp: distinct_map inj_on_def)
          moreover have "expired_row (stamps i) t \<in> set (transactions d1)"
            using effect t True by (auto simp: expire_ids_def)
          then have "expired_row (stamps i) t \<in> set (transactions d')" using IH False by auto
          ultimately show ?thesis by blast
        next
          case False
          then have "t \<in> set (transactions d1)" using effect t by (force simp: expire_ids_def)
          then show ?thesis using IH \<open>n \<noteq> 0\<close> by auto
        qed
        then show ?thesis using IH False pend effect by (simp add: expire_ids_def)
      qed
    qed
  qed
qed

text \<open>
  Whatever the clocks read, whatever rows others hold locked and even when a batch fails, the
  sweep ends (the loop is total), and every row is afterwards as it was, or was PENDING, overdue at
  the clock of some batch and not locked then, and is now EXPIRED; no row appears or disappears, no
  money moves, and the number returned is the number of rows that left PENDING.
\<close>

theorem sweep_only_expires_overdue:
  assumes "inj uid" "reachable uid n0 d" "expireOverduePending clock stamps locked d = (r, d')"
  shows "(\<forall>t \<in> set (transactions d). \<exists>t' \<in> set (transactions d'). t' = t \<or>
      (\<exists>j stamp. overdue (clock j) t \<and> \<not> locked j (t_id t) \<and> t' = expired_row stamp t))
    \<and> length (transactions d') = length (transactions d) \<and> entries d' = entries d \<and> postings d' = postings d
    \<and> (\<forall>n. r = Inr n \<longrightarrow> n + pending_rows d' = pending_rows d)"
proof -
  have "distinct (map t_id (transactions d))"
    using reachable_system_ok [OF assms(2,1)] by (simp add: system_ok_def tables_ok_def keys_ok_def)
  then show ?thesis
    using loop_only_expires [OF _ assms(3) [unfolded expireOverduePending_def]] by simp
qed

theorem sweep_only_expires_overdue_witness:
  "length (transactions (snd (expireOverduePending (\<lambda>_. 2000000) (\<lambda>_. 2000000) (\<lambda>_ i. i = ''t3'') demo_second_pending))) = 3"
  using sweep_only_expires_overdue [OF inj_demo_uid reach_demo_second_pending prod.collapse [symmetric]]
  by (simp add: demo_second_pending_def demo_db_def)

end
