(* ===== verification/Dates.thy ===== *)
theory Dates
  imports Prelude
begin

text \<open>
  The instants of the program as text: what the source uses of the \<open>Date\<close> of JavaScript,
  \<open>toISOString\<close> and \<open>new Date(text)\<close>, on the proleptic Gregorian calendar of ECMA-262. An instant is
  the number of milliseconds since the epoch. Text in no ISO format with a time zone is read by a
  parameter (the engine's own choice). Reading back what was written is the identity.
\<close>

section \<open>The calendar\<close>

definition MS_PER_DAY :: int where
  "MS_PER_DAY = 86400000"

definition day_from_year :: "int \<Rightarrow> int" where
  "day_from_year y = 365 * (y - 1970) + (y - 1969) div 4 - (y - 1901) div 100 + (y - 1601) div 400"

definition leap_year :: "int \<Rightarrow> bool" where
  "leap_year y \<longleftrightarrow> y mod 4 = 0 \<and> (y mod 100 \<noteq> 0 \<or> y mod 400 = 0)"

definition month_lengths :: "int \<Rightarrow> int list" where
  "month_lengths y = [31, if leap_year y then 29 else 28, 31, 30, 31, 30, 31, 31, 30, 31, 30, 31]"

text \<open>The year of a day: an estimate by the mean length of a year, corrected by at most one.\<close>

definition year_of_day :: "int \<Rightarrow> int" where
  "year_of_day n =
    (let y = 1970 + (400 * n) div 146097 in
     if n < day_from_year y then y - 1
     else if day_from_year (y + 1) \<le> n then y + 1
     else y)"

fun find_month :: "int list \<Rightarrow> nat \<Rightarrow> int \<Rightarrow> nat \<times> int" where
  "find_month [] m k = (m, k)"
| "find_month (l # ls) m k = (if k < l then (m, k) else find_month ls (Suc m) (k - l))"

text \<open>Year, month (from 0) and day of the month (from 0) of a day, and back.\<close>

definition civil_of_day :: "int \<Rightarrow> int \<times> nat \<times> int" where
  "civil_of_day n = (let y = year_of_day n in (y, find_month (month_lengths y) 0 (n - day_from_year y)))"

definition day_of_civil :: "int \<Rightarrow> nat \<Rightarrow> int \<Rightarrow> int" where
  "day_of_civil y m k = day_from_year y + sum_list (take m (month_lengths y)) + k"

lemma div_between:
  fixes z :: int
  assumes "0 < k"
  shows "k * (z div k) \<le> z" "z - k + 1 \<le> k * (z div k)"
  using assms pos_mod_bound [of k z] pos_mod_sign [of k z] mult_div_mod_eq [of k z] by linarith+

lemma div_next:
  fixes z :: int
  assumes "0 < k"
  shows "(z + 1) div k = z div k + (if k dvd z + 1 then 1 else 0)"
proof (cases "k dvd z + 1")
  case True
  then obtain q where q: "z + 1 = k * q" by auto
  then have "z div k = q - 1" using assms by (intro int_div_pos_eq [of z k "q - 1" "k - 1"]) (auto simp: algebra_simps)
  then show ?thesis using True q assms by simp
next
  case False
  then have "(z + 1) mod k \<noteq> 0" by (simp add: dvd_eq_mod_eq_0)
  then have "1 \<le> (z + 1) mod k" using pos_mod_sign [of k "z + 1"] assms by linarith
  moreover have "(1 + z) mod k < 1 + k" using pos_mod_bound [OF assms, of "1 + z"] by linarith
  ultimately have "z div k = (z + 1) div k"
    using assms mult_div_mod_eq [of k "z + 1"]
    by (intro int_div_pos_eq [of z k _ "(z + 1) mod k - 1"]) (simp_all add: algebra_simps)
  then show ?thesis using False by simp
qed

lemma february:
  assumes "P \<Longrightarrow> Q" "Q \<Longrightarrow> R" "L \<longleftrightarrow> R \<and> (\<not> Q \<or> P)"
  shows "(if L then 29 else 28) = (28::int) + (if R then 1 else 0) - (if Q then 1 else 0) + (if P then 1 else 0)"
  using assms by (cases P; cases Q; cases R) simp_all

lemma one_year_more:
  fixes y :: int
  shows "s = 365 + p - q + r \<Longrightarrow>
    365 * (y + 1 - 1970) + (a + p) - (b + q) + (c + r) = 365 * (y - 1970) + a - b + c + s"
  by simp

lemma day_from_year_step: "day_from_year (y + 1) = day_from_year y + sum_list (month_lengths y)"
proof -
  have shift: "k dvd y - a \<longleftrightarrow> k dvd y" if "k dvd a" for k a :: int
    using that by (metis dvd_add dvd_diff diff_add_cancel)
  have a: "(y + 1 - 1969) div 4 = (y - 1969) div 4 + (if 4 dvd y then 1 else 0)"
    using div_next [of 4 "y - 1969"] shift [of 4 1968] by (simp add: add.commute)
  have b: "(y + 1 - 1901) div 100 = (y - 1901) div 100 + (if 100 dvd y then 1 else 0)"
    using div_next [of 100 "y - 1901"] shift [of 100 1900] by (simp add: add.commute)
  have c: "(y + 1 - 1601) div 400 = (y - 1601) div 400 + (if 400 dvd y then 1 else 0)"
    using div_next [of 400 "y - 1601"] shift [of 400 1600] by (simp add: add.commute)
  have "400 dvd y \<Longrightarrow> 100 dvd y" "100 dvd y \<Longrightarrow> 4 dvd y"
    using dvd_trans [of 100 400 y] dvd_trans [of 4 100 y] by simp_all
  moreover have "leap_year y \<longleftrightarrow> 4 dvd y \<and> (\<not> 100 dvd y \<or> 400 dvd y)"
    by (simp only: leap_year_def dvd_eq_mod_eq_0)
  ultimately have "(if leap_year y then 29 else 28) = (28::int) + (if 4 dvd y then 1 else 0) - (if 100 dvd y then 1 else 0)
      + (if 400 dvd y then 1 else 0)" (is "?feb = _")
    by (rule february)
  moreover have "sum_list (month_lengths y) = 337 + ?feb" unfolding month_lengths_def by (simp only: sum_list.Cons sum_list.Nil)
  ultimately have "sum_list (month_lengths y) = 365 + (if 4 dvd y then 1 else 0) - (if 100 dvd y then 1 else 0)
      + (if 400 dvd y then 1 else 0)" by linarith
  then show ?thesis unfolding day_from_year_def a b c by (rule one_year_more)
qed

lemma day_from_year_between:
  "400 * day_from_year y \<le> 146097 * (y - 1970) + 589"
  "146097 * (y - 1970) - 506 \<le> 400 * day_from_year y"
proof -
  have "4 * ((y - 1969) div 4) \<le> y - 1969" "y - 1972 \<le> 4 * ((y - 1969) div 4)"
    using div_between [of 4 "y - 1969"] by simp_all
  moreover have "100 * ((y - 1901) div 100) \<le> y - 1901" "y - 2000 \<le> 100 * ((y - 1901) div 100)"
    using div_between [of 100 "y - 1901"] by simp_all
  moreover have "400 * ((y - 1601) div 400) \<le> y - 1601" "y - 2000 \<le> 400 * ((y - 1601) div 400)"
    using div_between [of 400 "y - 1601"] by simp_all
  ultimately show "400 * day_from_year y \<le> 146097 * (y - 1970) + 589"
    "146097 * (y - 1970) - 506 \<le> 400 * day_from_year y"
    unfolding day_from_year_def by simp_all
qed

lemma year_of_day: "day_from_year (year_of_day n) \<le> n \<and> n < day_from_year (year_of_day n + 1)"
proof -
  define y where "y = 1970 + (400 * n) div 146097"
  have "146097 * (y - 1970) \<le> 400 * n" "400 * n - 146097 < 146097 * (y - 1970)"
    using div_between [of 146097 "400 * n"] by (simp_all add: y_def)
  moreover have "year_of_day n = (if n < day_from_year y then y - 1 else if day_from_year (y + 1) \<le> n then y + 1 else y)"
    by (simp add: year_of_day_def y_def Let_def)
  moreover have "day_from_year (y - 1) \<le> n"
    using calculation(1,2) day_from_year_between(1) [of "y - 1"] by simp
  moreover have "n < day_from_year (y + 1 + 1)"
    using calculation(1,2) day_from_year_between(2) [of "y + 1 + 1"] by simp
  ultimately show ?thesis by auto
qed

lemma find_month_spec:
  assumes "0 \<le> k" "k < sum_list ls" "find_month ls m0 k = (m, r)"
  shows "m0 \<le> m \<and> m - m0 < length ls \<and> 0 \<le> r \<and> r < ls ! (m - m0) \<and> k = sum_list (take (m - m0) ls) + r"
  using assms
proof (induction ls arbitrary: m0 k)
  case (Cons l ls)
  show ?case
  proof (cases "k < l")
    case True
    then show ?thesis using Cons.prems by auto
  next
    case False
    then have "Suc m0 \<le> m \<and> m - Suc m0 < length ls \<and> 0 \<le> r \<and> r < ls ! (m - Suc m0)
        \<and> k - l = sum_list (take (m - Suc m0) ls) + r"
      using Cons.prems by (intro Cons.IH) auto
    moreover from this have "m - m0 = Suc (m - Suc m0)" by linarith
    ultimately show ?thesis by simp
  qed
qed simp

lemma civil_of_day_bounds:
  assumes "civil_of_day n = (y, m, k)"
  shows "m < 12" "0 \<le> k" "k < month_lengths y ! m" "day_of_civil y m k = n"
proof -
  have y: "y = year_of_day n" and fm: "find_month (month_lengths y) 0 (n - day_from_year y) = (m, k)"
    using assms by (auto simp: civil_of_day_def Let_def)
  have "0 \<le> n - day_from_year y" "n - day_from_year y < sum_list (month_lengths y)"
    using year_of_day [of n] day_from_year_step [of y] y by simp_all
  from find_month_spec [OF this fm]
  show "m < 12" "0 \<le> k" "k < month_lengths y ! m" "day_of_civil y m k = n"
    by (simp_all add: month_lengths_def day_of_civil_def)
qed

section \<open>toISOString\<close>

text \<open>Decimal text with leading zeros.\<close>

fun padded :: "nat \<Rightarrow> nat \<Rightarrow> string" where
  "padded 0 n = []"
| "padded (Suc w) n = padded w (n div 10) @ [digit_char (n mod 10)]"

definition year_text :: "int \<Rightarrow> string" where
  "year_text y =
    (if 0 \<le> y \<and> y \<le> 9999 then padded 4 (nat y)
     else (if y < 0 then CHR ''-'' else CHR ''+'') # padded 6 (nat \<bar>y\<bar>))"

definition time_text :: "nat \<Rightarrow> string" where
  "time_text ms =
    padded 2 (ms div 3600000) @ '':'' @ padded 2 (ms div 60000 mod 60) @ '':''
      @ padded 2 (ms div 1000 mod 60) @ ''.'' @ padded 3 (ms mod 1000)"

definition toISOString :: "int \<Rightarrow> string" where
  "toISOString t =
    (case civil_of_day (t div MS_PER_DAY) of
       (y, m, k) \<Rightarrow> year_text y @ ''-'' @ padded 2 (Suc m) @ ''-'' @ padded 2 (nat k + 1)
         @ ''T'' @ time_text (nat (t mod MS_PER_DAY)) @ ''Z'')"

text \<open>\<open>TimeClip\<close>: the instants a \<open>Date\<close> can hold.\<close>

definition MAX_TIME :: int where
  "MAX_TIME = 8640000000000000"

definition time_clip :: "int \<Rightarrow> int option" where
  "time_clip t = (if \<bar>t\<bar> \<le> MAX_TIME then Some t else None)"

section \<open>new Date(text)\<close>

definition take_digits :: "nat \<Rightarrow> string \<Rightarrow> (nat \<times> string) option" where
  "take_digits w s =
    (if w \<le> length s \<and> list_all is_digit (take w s) then Some (nat_of_digits (take w s), drop w s) else None)"

definition expect :: "char \<Rightarrow> string \<Rightarrow> string option" where
  "expect c s = (case s of [] \<Rightarrow> None | x # xs \<Rightarrow> if x = c then Some xs else None)"

text \<open>Four digits, or a sign and six digits (minus zero is refused).\<close>

definition parse_year :: "string \<Rightarrow> (int \<times> string) option" where
  "parse_year s =
    (case s of
       [] \<Rightarrow> None
     | c # cs \<Rightarrow>
        if c = CHR ''+'' then map_option (\<lambda>(n, rest). (int n, rest)) (take_digits 6 cs)
        else if c = CHR ''-'' then
          (case take_digits 6 cs of
             None \<Rightarrow> None
           | Some (n, rest) \<Rightarrow> if n = 0 then None else Some (- int n, rest))
        else map_option (\<lambda>(n, rest). (int n, rest)) (take_digits 4 s))"

text \<open>A separator and a number of so many digits.\<close>

definition parse_part :: "char \<Rightarrow> nat \<Rightarrow> string \<Rightarrow> (nat \<times> string) option" where
  "parse_part c w s = (case expect c s of None \<Rightarrow> None | Some rest \<Rightarrow> take_digits w rest)"

definition parse_part_or :: "nat \<Rightarrow> char \<Rightarrow> nat \<Rightarrow> string \<Rightarrow> nat \<times> string" where
  "parse_part_or n c w s = (case parse_part c w s of None \<Rightarrow> (n, s) | Some r \<Rightarrow> r)"

text \<open>Z, or a sign, hours and minutes: the offset in milliseconds.\<close>

definition parse_zone :: "string \<Rightarrow> int option" where
  "parse_zone s =
    (if s = ''Z'' then Some 0
     else (case s of
             [] \<Rightarrow> None
           | c # cs \<Rightarrow>
              if c = CHR ''+'' \<or> c = CHR ''-'' then
                (case take_digits 2 cs of
                   None \<Rightarrow> None
                 | Some (h, rest) \<Rightarrow>
                    (case parse_part (CHR '':'') 2 rest of
                       Some (m, []) \<Rightarrow>
                         if h < 24 \<and> m < 60
                         then Some ((if c = CHR ''-'' then -1 else 1) * (3600000 * int h + 60000 * int m)) else None
                     | _ \<Rightarrow> None))
              else None))"

text \<open>The time of day after the T: hours and minutes, then optional seconds and milliseconds, then a zone.\<close>

definition parse_time :: "string \<Rightarrow> int option" where
  "parse_time s =
    (case take_digits 2 s of
       None \<Rightarrow> None
     | Some (h, s1) \<Rightarrow>
        (case parse_part (CHR '':'') 2 s1 of
           None \<Rightarrow> None
         | Some (mi, s2) \<Rightarrow>
            (case parse_part (CHR '':'') 2 s2 of
               None \<Rightarrow>
                 if h < 24 \<and> mi < 60 then map_option (\<lambda>z. 3600000 * int h + 60000 * int mi - z) (parse_zone s2) else None
             | Some (sec, s3) \<Rightarrow>
                (case parse_part_or 0 (CHR ''.'') 3 s3 of
                   (ms, s4) \<Rightarrow>
                     if h < 24 \<and> mi < 60 \<and> sec < 60
                     then map_option (\<lambda>z. 3600000 * int h + 60000 * int mi + 1000 * int sec + int ms - z) (parse_zone s4)
                     else None))))"

definition iso_instant :: "string \<Rightarrow> int option" where
  "iso_instant s =
    (case parse_year s of
       None \<Rightarrow> None
     | Some (y, s1) \<Rightarrow>
        (case parse_part_or 1 (CHR ''-'') 2 s1 of
           (m, s2) \<Rightarrow>
             (case (if s2 = s1 then (1, s2) else parse_part_or 1 (CHR ''-'') 2 s2) of
                (k, s3) \<Rightarrow>
                  if 1 \<le> m \<and> m \<le> 12 \<and> 1 \<le> k \<and> int k \<le> month_lengths y ! (m - 1)
                  then map_option (\<lambda>ms. MS_PER_DAY * day_of_civil y (m - 1) (int k - 1) + ms)
                    (case expect (CHR ''T'') s3 of Some s4 \<Rightarrow> parse_time s4 | None \<Rightarrow> if s3 = [] then Some 0 else None)
                  else None)))"

text \<open>\<open>None\<close> is an invalid date. The engine's reading of any other text is the parameter.\<close>

definition new_Date :: "(string \<Rightarrow> int option) \<Rightarrow> string \<Rightarrow> int option" where
  "new_Date other s = (case iso_instant s of Some t \<Rightarrow> time_clip t | None \<Rightarrow> other s)"

section \<open>Reading back\<close>

lemma padded_props [simp]:
  "length (padded w n) = w" "list_all is_digit (padded w n)"
  by (induction w arbitrary: n) simp_all

lemma nat_of_digits_padded: "n < 10 ^ w \<Longrightarrow> nat_of_digits (padded w n) = n"
proof (induction w arbitrary: n)
  case 0
  then show ?case by (simp add: nat_of_digits_def)
next
  case (Suc w)
  then have "n div 10 < 10 ^ w" by auto
  then show ?case using Suc.IH by (simp add: nat_of_digits_append)
qed

lemma take_digits_padded: "n < 10 ^ w \<Longrightarrow> take_digits w (padded w n @ rest) = Some (n, rest)"
  by (simp add: take_digits_def nat_of_digits_padded del: padded.simps)

lemma parse_part_padded: "n < 10 ^ w \<Longrightarrow> parse_part c w (c # padded w n @ rest) = Some (n, rest)"
  by (simp add: parse_part_def expect_def take_digits_padded del: padded.simps)

lemma padded_Cons:
  assumes "0 < w"
  obtains c cs where "padded w n = c # cs" "is_digit c"
proof -
  have "length (padded w n) = w" "list_all is_digit (padded w n)" by simp_all
  then show thesis using assms that by (cases "padded w n") auto
qed

lemma parse_year_text:
  assumes "\<bar>y\<bar> < 1000000"
  shows "parse_year (year_text y @ rest) = Some (y, rest)"
proof (cases "0 \<le> y \<and> y \<le> 9999")
  case True
  obtain c cs where c: "padded 4 (nat y) = c # cs" "is_digit c" by (rule padded_Cons [of 4 "nat y"]) simp_all
  have "c \<noteq> CHR ''+''" "c \<noteq> CHR ''-''" using c(2) by (auto simp: is_digit_def char_code_def)
  moreover have "nat y < 10 ^ 4" using True by (simp add: nat_less_iff)
  then have "take_digits 4 (c # cs @ rest) = Some (nat y, rest)"
    using take_digits_padded [of "nat y" 4 rest] c(1) by simp
  ultimately show ?thesis using True c(1) by (simp add: parse_year_def year_text_def)
next
  case False
  have "nat \<bar>y\<bar> < 10 ^ 6" using assms by simp
  then have "take_digits 6 (padded 6 (nat \<bar>y\<bar>) @ rest) = Some (nat \<bar>y\<bar>, rest)" by (rule take_digits_padded)
  then show ?thesis using False by (auto simp: parse_year_def year_text_def)
qed

lemma time_fields:
  fixes ms :: nat
  shows "3600000 * (ms div 3600000) + 60000 * (ms div 60000 mod 60) + 1000 * (ms div 1000 mod 60) + ms mod 1000 = ms"
proof -
  have sec: "1000 * (ms div 1000) + ms mod 1000 = ms" by (rule mult_div_mod_eq)
  have mins: "60 * (ms div 60000) + ms div 1000 mod 60 = ms div 1000"
    using mult_div_mod_eq [of 60 "ms div 1000"] div_mult2_eq [of ms 1000 60] by simp
  have hours: "60 * (ms div 3600000) + ms div 60000 mod 60 = ms div 60000"
    using mult_div_mod_eq [of 60 "ms div 60000"] div_mult2_eq [of ms 60000 60] by simp
  define h mi sc where "h = ms div 3600000" "mi = ms div 60000 mod 60" "sc = ms div 1000 mod 60"
  define x y z where "x = ms div 60000" "y = ms div 1000" "z = ms mod 1000"
  note defs = this h_mi_sc_def
  show ?thesis using sec mins hours unfolding defs [symmetric] by linarith
qed

lemma parse_time_text:
  assumes "ms < 86400000"
  shows "parse_time (time_text ms @ ''Z'') = Some (int ms)"
proof -
  have "ms div 3600000 < 24" using assms by (simp add: less_mult_imp_div_less)
  then have "take_digits 2 (time_text ms @ ''Z'') = Some (ms div 3600000, CHR '':'' # padded 2 (ms div 60000 mod 60)
      @ CHR '':'' # padded 2 (ms div 1000 mod 60) @ CHR ''.'' # padded 3 (ms mod 1000) @ ''Z'')"
    by (simp add: time_text_def take_digits_padded del: padded.simps)
  moreover have "parse_part (CHR '':'') 2 (CHR '':'' # padded 2 (k mod 60) @ rest) = Some (k mod 60, rest)" for k rest
    by (rule parse_part_padded) (simp add: less_trans [OF mod_less_divisor])
  moreover have "parse_part (CHR ''.'') 3 (CHR ''.'' # padded 3 (k mod 1000) @ rest) = Some (k mod 1000, rest)" for k rest
    by (rule parse_part_padded) simp
  moreover have "3600000 * int (ms div 3600000) + 60000 * int (ms div 60000 mod 60) + 1000 * int (ms div 1000 mod 60)
      + int (ms mod 1000) = int ms"
    using time_fields [of ms] by linarith
  ultimately show ?thesis using \<open>ms div 3600000 < 24\<close>
    by (simp add: parse_time_def parse_part_or_def parse_zone_def del: padded.simps of_nat_mod of_nat_div)
qed

lemma civil_year_bound:
  assumes "\<bar>t\<bar> \<le> MAX_TIME"
  shows "\<bar>year_of_day (t div MS_PER_DAY)\<bar> < 1000000"
proof -
  define n y where "n = t div MS_PER_DAY" and "y = year_of_day n"
  have "\<bar>t\<bar> \<le> 8640000000000000" "86400000 * n \<le> t" "t - 86400000 + 1 \<le> 86400000 * n"
    using assms div_between [of MS_PER_DAY t] by (simp_all add: MAX_TIME_def MS_PER_DAY_def n_def)
  then have n: "n \<le> 100000001" "- 100000001 \<le> n" by linarith+
  have "day_from_year y \<le> n" "n < day_from_year (y + 1)" using year_of_day [of n] by (simp_all add: y_def)
  then have "146097 * y - 287811596 \<le> 400 * n" "400 * n < 146097 * y - 287664404"
    using day_from_year_between(2) [of y] day_from_year_between(1) [of "y + 1"] by (simp_all add: algebra_simps)
  then have "\<bar>y\<bar> < 1000000" using n by linarith
  then show ?thesis by (simp add: y_def n_def)
qed

lemma iso_instant_toISOString:
  assumes "\<bar>t\<bar> \<le> MAX_TIME"
  shows "iso_instant (toISOString t) = Some t"
proof -
  obtain y m k where c: "civil_of_day (t div MS_PER_DAY) = (y, m, k)" by (cases "civil_of_day (t div MS_PER_DAY)") auto
  note b = civil_of_day_bounds [OF c]
  let ?ms = "nat (t mod MS_PER_DAY)"
  have ms: "?ms < 86400000" "int ?ms = t mod MS_PER_DAY" by (simp_all add: MS_PER_DAY_def nat_less_iff)
  have y: "\<bar>y\<bar> < 1000000" using civil_year_bound [OF assms] c by (auto simp: civil_of_day_def Let_def)
  have "month_lengths y ! m \<le> 31" using b(1) by (auto simp: month_lengths_def less_Suc_eq numeral_eq_Suc)
  then have k: "nat k + 1 < 100" "1 \<le> nat k + 1" "int (nat k + 1) \<le> month_lengths y ! m" "int (nat k + 1) - 1 = k"
    using b(2,3) by linarith+
  have "parse_part (CHR ''-'') 2 (CHR ''-'' # padded 2 (Suc m) @ rest) = Some (Suc m, rest)" for rest
    using b(1) by (intro parse_part_padded) simp
  moreover have "parse_part (CHR ''-'') 2 (CHR ''-'' # padded 2 (nat k + 1) @ rest) = Some (nat k + 1, rest)" for rest
    using k(1) by (intro parse_part_padded) simp
  moreover have "parse_time (time_text ?ms @ ''Z'') = Some (t mod MS_PER_DAY)" using parse_time_text [OF ms(1)] ms(2) by simp
  moreover have "MS_PER_DAY * day_of_civil y m k + t mod MS_PER_DAY = t" using b(4) by simp
  moreover have "toISOString t = year_text y @ CHR ''-'' # padded 2 (Suc m) @ CHR ''-'' # padded 2 (nat k + 1) @ CHR ''T'' # time_text ?ms @ ''Z''"
    by (simp add: toISOString_def c del: padded.simps)
  ultimately show ?thesis
    using b(1) k(2-4) by (simp add: iso_instant_def parse_year_text [OF y] parse_part_or_def expect_def del: padded.simps)
qed

lemma new_Date_toISOString: "\<bar>t\<bar> \<le> MAX_TIME \<Longrightarrow> new_Date other (toISOString t) = Some t"
  by (simp add: new_Date_def iso_instant_toISOString time_clip_def)

end
