(* ===== verification/Listing.thy ===== *)
theory Listing
  imports Lifecycle Json Dates "HOL-Library.Product_Lexorder"
begin

text \<open>
  The list of transactions by pages: the opaque cursor of transactions/cursor.util.ts (JSON, UTF-8,
  base64url) and \<open>TransactionsService.list\<close>. The ways Node, the JavaScript engine and PostgreSQL
  read malformed base64url, dates in no ISO format and uuids are parameters. Paging through a table
  gives all of it, once, in order.
\<close>

section \<open>cursor.util.ts\<close>

record transaction_cursor =
  cu_created_at :: string
  cu_id :: string

text \<open>\<open>Buffer.from(text, "utf8")\<close> on code units below 256, and back where the bytes are such a text.\<close>

definition utf8_char :: "char \<Rightarrow> nat list" where
  "utf8_char c = (let n = char_code c in if n < 128 then [n] else [192 + n div 64, 128 + n mod 64])"

definition utf8_bytes :: "string \<Rightarrow> nat list" where
  "utf8_bytes s = concat (map utf8_char s)"

fun utf8_text :: "nat list \<Rightarrow> string option" where
  "utf8_text [] = Some []"
| "utf8_text (b # bs) =
    (if b < 128 then map_option (Cons (char_of b)) (utf8_text bs)
     else (case bs of
             [] \<Rightarrow> None
           | c # cs \<Rightarrow>
              if (b = 194 \<or> b = 195) \<and> 128 \<le> c \<and> c < 192
              then map_option (Cons (char_of (64 * (b - 192) + (c - 128)))) (utf8_text cs) else None))"

text \<open>\<open>toString("base64url")\<close>: no padding.\<close>

definition b64_char :: "nat \<Rightarrow> char" where
  "b64_char n =
    (if n < 26 then char_of (65 + n) else if n < 52 then char_of (71 + n)
     else if n < 62 then char_of (n - 4) else if n = 62 then CHR ''-'' else CHR ''_'')"

fun base64url :: "nat list \<Rightarrow> string" where
  "base64url [] = []"
| "base64url [a] = [b64_char (a div 4), b64_char (a mod 4 * 16)]"
| "base64url [a, b] = [b64_char (a div 4), b64_char (a mod 4 * 16 + b div 16), b64_char (b mod 16 * 4)]"
| "base64url (a # b # c # bs) =
    b64_char (a div 4) # b64_char (a mod 4 * 16 + b div 16) # b64_char (b mod 16 * 4 + c div 64) # b64_char (c mod 64)
      # base64url bs"

text \<open>\<open>Buffer.from(raw, "base64url")\<close> on well-formed text: either alphabet is read.\<close>

definition b64_value :: "char \<Rightarrow> nat option" where
  "b64_value c =
    (if is_upper c then Some (char_code c - 65)
     else if is_lower c then Some (char_code c - 71)
     else if is_digit c then Some (char_code c + 4)
     else if c = CHR ''-'' \<or> c = CHR ''+'' then Some 62
     else if c = CHR ''_'' \<or> c = CHR ''/'' then Some 63
     else None)"

fun bytes_of_sextets :: "nat list \<Rightarrow> nat list option" where
  "bytes_of_sextets [] = Some []"
| "bytes_of_sextets [x] = None"
| "bytes_of_sextets [x, y] = Some [4 * x + y div 16]"
| "bytes_of_sextets [x, y, z] = Some [4 * x + y div 16, 16 * (y mod 16) + z div 4]"
| "bytes_of_sextets (x # y # z # w # xs) =
    map_option (\<lambda>bs. (4 * x + y div 16) # (16 * (y mod 16) + z div 4) # (64 * (z mod 4) + w) # bs) (bytes_of_sextets xs)"

definition base64url_bytes :: "string \<Rightarrow> nat list option" where
  "base64url_bytes s = (case those (map b64_value s) of None \<Rightarrow> None | Some xs \<Rightarrow> bytes_of_sextets xs)"

definition encodeCursor :: "transaction_cursor \<Rightarrow> string" where
  "encodeCursor c = base64url (utf8_bytes (json_object [(''createdAt'', cu_created_at c), (''id'', cu_id c)]))"

text \<open>
  \<open>JSON.parse\<close> of the decoded text (\<open>None\<close>: it throws); what the tolerant decoders of Node make of
  any other text is the parameter \<open>lenient\<close>.
\<close>

definition cursor_value :: "(string \<Rightarrow> json option) \<Rightarrow> string \<Rightarrow> json option" where
  "cursor_value lenient raw =
    (case (case base64url_bytes raw of None \<Rightarrow> None | Some bs \<Rightarrow> utf8_text bs) of
       Some s \<Rightarrow> JSON_parse s
     | None \<Rightarrow> lenient raw)"

text \<open>Reading a member: the last of the members of that name.\<close>

definition json_member :: "string \<Rightarrow> json \<Rightarrow> json option" where
  "json_member k v = (case v of JObject ms \<Rightarrow> map_of (rev ms) k | _ \<Rightarrow> None)"

definition decodeCursor :: "(string \<Rightarrow> json option) \<Rightarrow> string \<Rightarrow> app_error + transaction_cursor" where
  "decodeCursor lenient raw =
    (case cursor_value lenient raw of
       None \<Rightarrow> Inl (Http_Exception 400 ''cursor invalide'')
     | Some v \<Rightarrow>
        (case (json_member ''createdAt'' v, json_member ''id'' v) of
           (Some (JString c), Some (JString i)) \<Rightarrow> Inr \<lparr>cu_created_at = c, cu_id = i\<rparr>
         | _ \<Rightarrow> Inl (Http_Exception 400 ''cursor invalide'')))"

section \<open>TransactionsService.list\<close>

record list_query =
  lq_status :: "transaction_status option"
  lq_provider :: "provider option"
  lq_date_from :: "string option"
  lq_date_to :: "string option"
  lq_cursor :: "string option"
  lq_limit :: "int option"

text \<open>The checks of list-transactions.query.dto.ts; the text of a date is checked by a parameter.\<close>

definition valid_list_query :: "(string \<Rightarrow> bool) \<Rightarrow> list_query \<Rightarrow> bool" where
  "valid_list_query is_iso8601 q \<longleftrightarrow>
    (case lq_date_from q of None \<Rightarrow> True | Some s \<Rightarrow> is_iso8601 s)
    \<and> (case lq_date_to q of None \<Rightarrow> True | Some s \<Rightarrow> is_iso8601 s)
    \<and> (case lq_limit q of None \<Rightarrow> True | Some n \<Rightarrow> 1 \<le> n \<and> n \<le> 100)"

definition DEFAULT_LIMIT :: int where
  "DEFAULT_LIMIT = 20"

text \<open>
  What the driver refuses when the query is sent: a \<open>Date\<close> that is invalid, a text that is no uuid.
\<close>

definition date_argument :: "(string \<Rightarrow> int option) \<Rightarrow> string option \<Rightarrow> app_error + int option" where
  "date_argument other s =
    (if truthy s
     then (case new_Date other (the s) of
             None \<Rightarrow> Inl (Js_Error ''Invalid Date'')
           | Some t \<Rightarrow> Inr (Some t))
     else Inr None)"

definition cursor_argument ::
    "(string \<Rightarrow> int option) \<Rightarrow> (string \<Rightarrow> uuid option) \<Rightarrow> transaction_cursor option \<Rightarrow> app_error + (int \<times> uuid) option" where
  "cursor_argument other uuid_of c =
    (case c of
       None \<Rightarrow> Inr None
     | Some cu \<Rightarrow>
        (case new_Date other (cu_created_at cu) of
           None \<Rightarrow> Inl (Js_Error ''Invalid Date'')
         | Some t \<Rightarrow>
            (case uuid_of (cu_id cu) of
               None \<Rightarrow> Inl (Js_Error ''Invalid uuid'')
             | Some u \<Rightarrow> Inr (Some (t, u)))))"

definition page_key :: "transaction \<Rightarrow> int \<times> uuid" where
  "page_key t = (t_created_at t, t_id t)"

text \<open>The filter of the request, without its cursor.\<close>

definition listed :: "uuid option \<Rightarrow> list_query \<Rightarrow> int option \<Rightarrow> int option \<Rightarrow> transaction \<Rightarrow> bool" where
  "listed merchantId q from_date to_date t \<longleftrightarrow>
    (\<not> truthy merchantId \<or> t_merchant_id t = the merchantId)
    \<and> (case lq_status q of None \<Rightarrow> True | Some s \<Rightarrow> t_status t = s)
    \<and> (case lq_provider q of None \<Rightarrow> True | Some p \<Rightarrow> t_provider t = p)
    \<and> (case from_date of None \<Rightarrow> True | Some lo \<Rightarrow> lo \<le> t_created_at t)
    \<and> (case to_date of None \<Rightarrow> True | Some hi \<Rightarrow> t_created_at t \<le> hi)"

text \<open>Strictly after the cursor, in the order createdAt DESC, id DESC.\<close>

definition after_cursor :: "(int \<times> uuid) option \<Rightarrow> transaction \<Rightarrow> bool" where
  "after_cursor c t =
    (case c of
       None \<Rightarrow> True
     | Some (at_time, u) \<Rightarrow> t_created_at t < at_time \<or> t_created_at t = at_time \<and> t_id t < u)"

definition newest_first :: "transaction list \<Rightarrow> transaction list" where
  "newest_first rows = rev (sort_key page_key rows)"

definition page_of :: "nat \<Rightarrow> transaction list \<Rightarrow> transaction list \<times> string option" where
  "page_of limit rows =
    (let hasMore = limit < length rows;
         page = (if hasMore then take limit rows else rows);
         nextCursor = (if hasMore \<and> page \<noteq> []
           then Some (encodeCursor \<lparr>cu_created_at = toISOString (t_created_at (last page)), cu_id = t_id (last page)\<rparr>)
           else None)
     in (page, nextCursor))"

definition list_transactions ::
    "(string \<Rightarrow> json option) \<Rightarrow> (string \<Rightarrow> int option) \<Rightarrow> (string \<Rightarrow> uuid option) \<Rightarrow> list_query \<Rightarrow> uuid option \<Rightarrow> db
      \<Rightarrow> app_error + transaction list \<times> string option" where
  "list_transactions lenient other uuid_of q merchantId d =
    (let limit = nat (case lq_limit q of None \<Rightarrow> DEFAULT_LIMIT | Some n \<Rightarrow> n) in
     andThen (if truthy (lq_cursor q) then andThen (decodeCursor lenient (the (lq_cursor q))) (\<lambda>c. Inr (Some c)) else Inr None)
       (\<lambda>cursor. andThen (date_argument other (lq_date_from q))
       (\<lambda>from_date. andThen (date_argument other (lq_date_to q))
       (\<lambda>to_date. andThen (cursor_argument other uuid_of cursor)
       (\<lambda>c. let rows = take (limit + 1)
              (newest_first (filter (\<lambda>t. listed merchantId q from_date to_date t \<and> after_cursor c t) (transactions d)))
            in Inr (page_of limit rows))))))"

section \<open>The cursor reads back\<close>

lemma b64_value_char: "n < 64 \<Longrightarrow> b64_value (b64_char n) = Some n"
  by (auto simp: b64_value_def b64_char_def is_upper_def is_lower_def is_digit_def char_code_def)

lemma sextets_of_bytes:
  fixes a b c :: nat
  assumes "a < 256" "b < 256" "c < 256"
  shows "a div 4 < 64" "a mod 4 * 16 < 64" "a mod 4 * 16 + b div 16 < 64" "b mod 16 * 4 + c div 64 < 64"
    "b mod 16 * 4 < 64" "c mod 64 < 64"
    "4 * (a div 4) + (a mod 4 * 16 + b div 16) div 16 = a"
    "16 * ((a mod 4 * 16 + b div 16) mod 16) + (b mod 16 * 4 + c div 64) div 4 = b"
    "64 * ((b mod 16 * 4 + c div 64) mod 4) + c mod 64 = c"
    "4 * (a div 4) + (a mod 4 * 16) div 16 = a"
    "16 * ((a mod 4 * 16 + b div 16) mod 16) + (b mod 16 * 4) div 4 = b"
proof -
  have small: "a div 4 < 64" "b div 16 < 16" "c div 64 < 4" using assms by (simp_all add: less_mult_imp_div_less)
  have m: "a mod 4 < 4" "b mod 16 < 16" "c mod 64 < 64" by simp_all
  show "a div 4 < 64" "c mod 64 < 64" using small m by simp_all
  show "a mod 4 * 16 < 64" "a mod 4 * 16 + b div 16 < 64" "b mod 16 * 4 + c div 64 < 64" "b mod 16 * 4 < 64"
    using small m by linarith+
  show "4 * (a div 4) + (a mod 4 * 16 + b div 16) div 16 = a"
    "16 * ((a mod 4 * 16 + b div 16) mod 16) + (b mod 16 * 4 + c div 64) div 4 = b"
    "64 * ((b mod 16 * 4 + c div 64) mod 4) + c mod 64 = c"
    "4 * (a div 4) + (a mod 4 * 16) div 16 = a"
    "16 * ((a mod 4 * 16 + b div 16) mod 16) + (b mod 16 * 4) div 4 = b"
    using small by simp_all
qed

lemma base64url_bytes_base64url:
  "\<forall>b \<in> set bs. b < 256 \<Longrightarrow> base64url_bytes (base64url bs) = Some bs"
proof (induction bs rule: base64url.induct)
  case 1
  then show ?case by (simp add: base64url_bytes_def)
next
  case (2 a)
  then show ?case using sextets_of_bytes [of a 0 0] by (simp add: base64url_bytes_def b64_value_char)
next
  case (3 a b)
  then show ?case using sextets_of_bytes [of a b 0] by (simp add: base64url_bytes_def b64_value_char)
next
  case (4 a b c bs)
  then obtain xs where "those (map b64_value (base64url bs)) = Some xs" "bytes_of_sextets xs = Some bs"
    by (auto simp: base64url_bytes_def split: option.splits)
  then show ?case using sextets_of_bytes [of a b c] 4(2) by (simp add: base64url_bytes_def b64_value_char)
qed

lemma utf8_bytes_small: "b \<in> set (utf8_bytes s) \<Longrightarrow> b < 256"
proof -
  have "b < 256" if "b \<in> set (utf8_char c)" for c
  proof -
    have "char_code c < 256" by (simp add: char_code_def)
    then have "char_code c div 64 < 4" by (simp add: less_mult_imp_div_less)
    moreover have "char_code c mod 64 < 64" by simp
    ultimately show ?thesis using that by (auto simp: utf8_char_def Let_def split: if_splits)
  qed
  then show "b \<in> set (utf8_bytes s) \<Longrightarrow> b < 256" by (auto simp: utf8_bytes_def)
qed

lemma utf8_text_bytes: "utf8_text (utf8_bytes s) = Some s"
proof (induction s)
  case Nil
  then show ?case by (simp add: utf8_bytes_def)
next
  case (Cons c s)
  have more: "utf8_bytes (c # s) = utf8_char c @ utf8_bytes s" by (simp add: utf8_bytes_def)
  show ?case
  proof (cases "char_code c < 128")
    case True
    then show ?thesis using Cons by (simp add: more utf8_char_def)
  next
    case False
    have "char_code c < 256" by (simp add: char_code_def)
    then have "char_code c div 64 = 2 \<or> char_code c div 64 = 3" using False by linarith
    moreover have "64 * (char_code c div 64) + char_code c mod 64 = char_code c" by simp
    ultimately show ?thesis using Cons False by (auto simp: more utf8_char_def Let_def)
  qed
qed

lemma decode_encode: "decodeCursor lenient (encodeCursor c) = Inr c"
proof -
  let ?text = "json_object [(''createdAt'', cu_created_at c), (''id'', cu_id c)]"
  have "base64url_bytes (encodeCursor c) = Some (utf8_bytes ?text)"
    unfolding encodeCursor_def using utf8_bytes_small by (intro base64url_bytes_base64url) blast
  then show ?thesis
    by (simp add: decodeCursor_def cursor_value_def utf8_text_bytes JSON_parse_object json_member_def)
qed

lemma encodeCursor_nonempty [simp]: "truthy (Some (encodeCursor c))"
proof -
  have "decodeCursor (\<lambda>s. None) [] \<noteq> Inr c"
    by (simp add: decodeCursor_def cursor_value_def base64url_bytes_def JSON_parse_def skip_ws_def)
  then have "encodeCursor c \<noteq> []" using decode_encode by metis
  then show ?thesis by (simp add: truthy_def)
qed

section \<open>The order of the pages\<close>

lemma after_cursor_key: "after_cursor (Some k) t \<longleftrightarrow> page_key t < k"
  by (cases k) (auto simp: after_cursor_def page_key_def less_prod_def)

lemma newest_first_filter: "newest_first (filter P rows) = filter P (newest_first rows)"
  by (simp add: newest_first_def filter_sort flip: rev_filter)

lemma set_newest_first [simp]: "set (newest_first rows) = set rows" and length_newest_first [simp]: "length (newest_first rows) = length rows"
  by (simp_all add: newest_first_def)

abbreviation older_after :: "transaction list \<Rightarrow> bool" where
  "older_after rows \<equiv> sorted_wrt (\<lambda>a b. page_key b < page_key a) rows"

lemma newest_first_sorted:
  assumes "distinct (map t_id rows)"
  shows "older_after (newest_first rows)"
proof -
  have "distinct (map page_key rows)"
    using assms by (auto simp: distinct_map inj_on_def page_key_def)
  then have "distinct (map page_key (sort_key page_key rows))" by (simp add: distinct_map)
  then have "sorted_wrt (<) (map page_key (sort_key page_key rows))" by (simp add: strict_sorted_iff)
  then show ?thesis by (simp add: newest_first_def sorted_wrt_rev sorted_wrt_map)
qed

lemma after_one_of_them:
  assumes "older_after (xs @ x # ys)"
  shows "filter (after_cursor (Some (page_key x))) (xs @ x # ys) = ys"
proof -
  have "filter (\<lambda>t. page_key t < page_key x) xs = []" "filter (\<lambda>t. page_key t < page_key x) ys = ys"
    using assms by (auto simp: sorted_wrt_append filter_empty_conv filter_id_conv)
  then show ?thesis unfolding after_cursor_key by simp
qed

section \<open>Paging through a table\<close>

text \<open>A client that asks for the first page and then follows \<open>nextCursor\<close>; the fuel bounds the number of pages.\<close>

fun all_pages ::
    "nat \<Rightarrow> (string \<Rightarrow> json option) \<Rightarrow> (string \<Rightarrow> int option) \<Rightarrow> (string \<Rightarrow> uuid option) \<Rightarrow> list_query \<Rightarrow> uuid option
      \<Rightarrow> db \<Rightarrow> (app_error + transaction list list) option" where
  "all_pages fuel lenient other uuid_of q merchantId d =
    (case list_transactions lenient other uuid_of q merchantId d of
       Inl e \<Rightarrow> Some (Inl e)
     | Inr (page, None) \<Rightarrow> Some (Inr [page])
     | Inr (page, Some c) \<Rightarrow>
        (case fuel of
           0 \<Rightarrow> None
         | Suc n \<Rightarrow>
            map_option (\<lambda>r. andThen r (\<lambda>ps. Inr (page # ps)))
              (all_pages n lenient other uuid_of (q\<lparr>lq_cursor := Some c\<rparr>) merchantId d)))"

declare all_pages.simps [simp del]

definition page_limit :: "list_query \<Rightarrow> nat" where
  "page_limit q = nat (case lq_limit q of None \<Rightarrow> DEFAULT_LIMIT | Some n \<Rightarrow> n)"

text \<open>What the cursor of a request selects.\<close>

definition cursor_selects ::
    "(string \<Rightarrow> json option) \<Rightarrow> (string \<Rightarrow> int option) \<Rightarrow> (string \<Rightarrow> uuid option) \<Rightarrow> string option
      \<Rightarrow> (int \<times> uuid) option \<Rightarrow> bool" where
  "cursor_selects lenient other uuid_of s c \<longleftrightarrow>
    andThen (if truthy s then andThen (decodeCursor lenient (the s)) (\<lambda>c. Inr (Some c)) else Inr None)
      (cursor_argument other uuid_of) = Inr c"

lemma list_transactions_Inr:
  assumes "date_argument other (lq_date_from q) = Inr lo" "date_argument other (lq_date_to q) = Inr hi"
    "cursor_selects lenient other uuid_of (lq_cursor q) c"
  shows "list_transactions lenient other uuid_of q merchantId d = Inr (page_of (page_limit q)
    (take (page_limit q + 1)
      (filter (after_cursor c) (newest_first (filter (listed merchantId q lo hi) (transactions d))))))"
proof -
  obtain cu where "(if truthy (lq_cursor q) then andThen (decodeCursor lenient (the (lq_cursor q))) (\<lambda>c. Inr (Some c)) else Inr None) = Inr cu"
    "cursor_argument other uuid_of cu = Inr c"
    using assms(3) unfolding cursor_selects_def andThen_eq_Inr by blast
  moreover have "newest_first (filter (\<lambda>t. listed merchantId q lo hi t \<and> after_cursor c t) (transactions d))
      = filter (after_cursor c) (newest_first (filter (listed merchantId q lo hi) (transactions d)))"
    by (simp add: newest_first_filter conj_commute)
  ultimately show ?thesis
    using assms(1,2) by (simp add: list_transactions_def page_limit_def Let_def)
qed

text \<open>The cursor the service made of a row reads back as the key of the row.\<close>

lemma next_cursor_selects:
  assumes "\<bar>t_created_at t\<bar> \<le> MAX_TIME" "uuid_of (t_id t) = Some (t_id t)"
  shows "cursor_selects lenient other uuid_of
    (Some (encodeCursor \<lparr>cu_created_at = toISOString (t_created_at t), cu_id = t_id t\<rparr>)) (Some (page_key t))"
  using assms by (simp add: cursor_selects_def decode_encode cursor_argument_def new_Date_toISOString page_key_def)

lemma listed_cursor [simp]: "listed merchantId (q\<lparr>lq_cursor := c\<rparr>) = listed merchantId q"
  by (rule ext, rule ext, rule ext) (simp add: listed_def)

lemma page_limit_cursor [simp]: "page_limit (q\<lparr>lq_cursor := c\<rparr>) = page_limit q"
  by (simp add: page_limit_def)

text \<open>The first page of what is left, and what is left after it.\<close>

lemma page_of_take:
  "page_of n (take (n + 1) zs) =
    (take n zs,
     if n < length zs \<and> n \<noteq> 0
     then Some (encodeCursor \<lparr>cu_created_at = toISOString (t_created_at (last (take n zs))), cu_id = t_id (last (take n zs))\<rparr>)
     else None)"
  by (auto simp: page_of_def Let_def min_def)

lemma take_last:
  assumes "n < length zs" "n \<noteq> 0"
  shows "take n zs = take (n - 1) zs @ [last (take n zs)]"
proof -
  have "take n zs = take (n - 1) zs @ [zs ! (n - 1)]"
    using assms by (metis Suc_diff_1 Suc_lessD neq0_conv take_Suc_conv_app_nth)
  then show ?thesis by simp
qed

lemma last_of_page:
  assumes "n < length zs" "n \<noteq> 0"
  shows "zs = take (n - 1) zs @ last (take n zs) # drop n zs"
  using take_last [OF assms] by (metis append_Cons append_Nil append_assoc append_take_drop_id)

lemma pages_of_suffix:
  assumes dates: "date_argument other (lq_date_from q) = Inr lo" "date_argument other (lq_date_to q) = Inr hi"
    and table: "newest_first (filter (listed merchantId q lo hi) (transactions d)) = xs @ zs"
    and selects: "cursor_selects lenient other uuid_of (lq_cursor q) c" "filter (after_cursor c) (xs @ zs) = zs"
    and rows: "older_after (xs @ zs)" "\<forall>t \<in> set (transactions d). \<bar>t_created_at t\<bar> \<le> MAX_TIME \<and> uuid_of (t_id t) = Some (t_id t)"
    and "0 < page_limit q" "length zs \<le> fuel"
  shows "\<exists>pages. all_pages fuel lenient other uuid_of q merchantId d = Some (Inr pages) \<and> concat pages = zs
    \<and> pages \<noteq> [] \<and> (\<forall>page \<in> set (butlast pages). length page = page_limit q)"
  using table selects dates rows assms(8,9)
proof (induction fuel arbitrary: xs zs c q)
  case (0 xs zs c q)
  then have "zs = []" by simp
  then show ?case
    using list_transactions_Inr [OF 0(4,5,2), of merchantId d] 0(1,3) by (subst all_pages.simps) (simp add: page_of_def)
next
  case (Suc fuel xs zs c q)
  let ?n = "page_limit q"
  have page: "list_transactions lenient other uuid_of q merchantId d = Inr (page_of ?n (take (?n + 1) zs))"
    using list_transactions_Inr [OF Suc.prems(4,5,2), of merchantId d] unfolding Suc.prems(1,3) .
  show ?case
  proof (cases "?n < length zs")
    case False
    then have "all_pages (Suc fuel) lenient other uuid_of q merchantId d = Some (Inr [zs])"
      by (subst all_pages.simps) (simp add: page [unfolded page_of_take])
    then show ?thesis by simp
  next
    case True
    let ?x = "last (take ?n zs)" and ?ys = "drop ?n zs"
    let ?cur = "encodeCursor \<lparr>cu_created_at = toISOString (t_created_at ?x), cu_id = t_id ?x\<rparr>"
    let ?q = "q\<lparr>lq_cursor := Some ?cur\<rparr>" and ?xs = "xs @ take (?n - 1) zs @ [?x]"
    have split: "xs @ zs = (xs @ take (?n - 1) zs) @ ?x # ?ys" using last_of_page [OF True] Suc.prems(8) by simp
    have joined: "?xs @ ?ys = xs @ zs" unfolding split by simp
    have "?x \<in> set (newest_first (filter (listed merchantId q lo hi) (transactions d)))"
      unfolding Suc.prems(1) split by simp
    then have x: "\<bar>t_created_at ?x\<bar> \<le> MAX_TIME" "uuid_of (t_id ?x) = Some (t_id ?x)" using Suc.prems(7) by auto
    have "\<exists>pages. all_pages fuel lenient other uuid_of ?q merchantId d = Some (Inr pages) \<and> concat pages = ?ys
        \<and> pages \<noteq> [] \<and> (\<forall>page \<in> set (butlast pages). length page = page_limit ?q)"
    proof (rule Suc.IH)
      show "newest_first (filter (listed merchantId ?q lo hi) (transactions d)) = ?xs @ ?ys"
        unfolding joined using Suc.prems(1) by simp
      show "cursor_selects lenient other uuid_of (lq_cursor ?q) (Some (page_key ?x))"
        using next_cursor_selects [of ?x uuid_of, OF x] by simp
      show "filter (after_cursor (Some (page_key ?x))) (?xs @ ?ys) = ?ys"
        unfolding joined using after_one_of_them [of "xs @ take (?n - 1) zs" ?x ?ys, folded split] Suc.prems(6) by blast
      show "older_after (?xs @ ?ys)" unfolding joined by (rule Suc.prems(6))
    qed (use Suc.prems in auto)
    then obtain pages where pages: "all_pages fuel lenient other uuid_of ?q merchantId d = Some (Inr pages)" "concat pages = ?ys"
      "pages \<noteq> []" "\<forall>page \<in> set (butlast pages). length page = ?n" by auto
    have "all_pages (Suc fuel) lenient other uuid_of q merchantId d = Some (Inr (take ?n zs # pages))"
      using True Suc.prems(8) pages(1) by (subst all_pages.simps) (simp add: page [unfolded page_of_take])
    moreover have "concat (take ?n zs # pages) = zs" using pages(2) by simp
    ultimately show ?thesis using pages(3,4) True by (intro exI [of _ "take ?n zs # pages"]) auto
  qed
qed

section \<open>Properties\<close>

text \<open>
  C40: A cursor is read back as it was written, whatever it holds, and its text is made of the letters,
  digits, hyphen and underscore of base64url, so that it needs no escaping in a query.
\<close>

theorem cursor_reads_back:
  "decodeCursor lenient (encodeCursor c) = Inr c
    \<and> list_all (\<lambda>x. is_upper x \<or> is_lower x \<or> is_digit x \<or> x = CHR ''-'' \<or> x = CHR ''_'') (encodeCursor c)"
proof -
  have "is_upper (b64_char n) \<or> is_lower (b64_char n) \<or> is_digit (b64_char n) \<or> b64_char n = CHR ''-'' \<or> b64_char n = CHR ''_''" for n
    by (auto simp: b64_char_def is_upper_def is_lower_def is_digit_def char_code_def)
  then have "list_all (\<lambda>x. is_upper x \<or> is_lower x \<or> is_digit x \<or> x = CHR ''-'' \<or> x = CHR ''_'') (base64url bs)" for bs
    by (induction bs rule: base64url.induct) simp_all
  then show ?thesis using decode_encode by (simp add: encodeCursor_def)
qed

text \<open>
  C25: Paging gives the whole list: a client that follows \<open>nextCursor\<close> from a first request comes to an
  end, every page but the last is full, and the pages one after the other are exactly the transactions of
  the filter, newest first, each of them once.
\<close>

theorem pages_make_the_list:
  assumes "inj uid" "reachable uid n0 d" "valid_list_query is_iso8601 q" "lq_cursor q = None"
    "date_argument other (lq_date_from q) = Inr lo" "date_argument other (lq_date_to q) = Inr hi"
    "\<And>t. t \<in> set (transactions d) \<Longrightarrow> \<bar>t_created_at t\<bar> \<le> MAX_TIME \<and> uuid_of (t_id t) = Some (t_id t)"
  shows "\<exists>pages. all_pages (length (transactions d)) lenient other uuid_of q merchantId d = Some (Inr pages)
    \<and> concat pages = newest_first (filter (listed merchantId q lo hi) (transactions d))
    \<and> older_after (concat pages)
    \<and> (\<forall>page \<in> set (butlast pages). length page = page_limit q)"
proof -
  let ?all = "newest_first (filter (listed merchantId q lo hi) (transactions d))"
  have "keys_ok d" using reachable_system_ok [OF assms(2,1)] by (simp add: system_ok_def tables_ok_def)
  then have "distinct (map t_id (transactions d))" by (simp add: keys_ok_def)
  then have sorted: "older_after ?all"
    by (intro newest_first_sorted) (auto simp: distinct_map intro: inj_on_subset)
  have selects: "cursor_selects lenient other uuid_of (lq_cursor q) None"
    using assms(4) by (simp add: cursor_selects_def truthy_def cursor_argument_def)
  have none: "filter (after_cursor None) ([] @ ?all) = ?all" by (simp add: after_cursor_def)
  have "0 < page_limit q"
    using assms(3) by (auto simp: valid_list_query_def page_limit_def DEFAULT_LIMIT_def split: option.splits)
  moreover have "length ?all \<le> length (transactions d)" by simp
  ultimately have "\<exists>pages. all_pages (length (transactions d)) lenient other uuid_of q merchantId d = Some (Inr pages)
      \<and> concat pages = ?all \<and> pages \<noteq> [] \<and> (\<forall>page \<in> set (butlast pages). length page = page_limit q)"
    using assms(7) sorted by (intro pages_of_suffix [OF assms(5,6) _ selects none]) simp_all
  then show ?thesis using sorted by auto
qed

definition demo_query :: list_query where
  "demo_query = \<lparr>lq_status = None, lq_provider = None, lq_date_from = None, lq_date_to = None,
     lq_cursor = None, lq_limit = Some 2\<rparr>"

theorem pages_make_the_list_witness:
  "\<exists>pages. all_pages 3 (\<lambda>s. None) (\<lambda>s. None) Some demo_query None demo_late = Some (Inr pages)
    \<and> map t_id (concat pages) = [''t3'', ''t2'', ''t1'']"
proof -
  have rows: "\<bar>t_created_at t\<bar> \<le> MAX_TIME \<and> Some (t_id t) = Some (t_id t)" if "t \<in> set (transactions demo_late)" for t
    using that by (auto simp: demo_late_def demo_db_def demo_row_def demo_refund_row_def MAX_TIME_def)
  have q: "valid_list_query (\<lambda>s. True) demo_query" "lq_cursor demo_query = None"
    "date_argument (\<lambda>s. None) (lq_date_from demo_query) = Inr None" "date_argument (\<lambda>s. None) (lq_date_to demo_query) = Inr None"
    by (simp_all add: valid_list_query_def demo_query_def date_argument_def truthy_def)
  have "map t_id (newest_first (filter (listed None demo_query None None) (transactions demo_late))) = [''t3'', ''t2'', ''t1'']"
    by (simp add: demo_late_def demo_db_def listed_def demo_query_def truthy_def newest_first_def page_key_def
        demo_row_def demo_refund_row_def less_eq_prod_def)
  moreover have "length (transactions demo_late) = 3" by (simp add: demo_late_def demo_db_def)
  ultimately show ?thesis
    using pages_make_the_list [of demo_uid 0 demo_late "\<lambda>s. True" demo_query "\<lambda>s. None" None None Some "\<lambda>s. None" None,
        OF inj_demo_uid reach_demo_late q rows]
    by auto
qed

lemma andThen_InrE: "andThen m f = Inr y \<Longrightarrow> (\<And>x. m = Inr x \<Longrightarrow> f x = Inr y \<Longrightarrow> P) \<Longrightarrow> P"
  by (auto simp: andThen_eq_Inr)

lemma list_transactions_InrE:
  assumes "list_transactions lenient other uuid_of q merchantId d = Inr r"
  obtains from_date to_date c where "cursor_selects lenient other uuid_of (lq_cursor q) c"
    "r = page_of (page_limit q) (take (page_limit q + 1)
      (newest_first (filter (\<lambda>t. listed merchantId q from_date to_date t \<and> after_cursor c t) (transactions d))))"
proof -
  obtain cu from_date to_date c where
    "(if truthy (lq_cursor q) then andThen (decodeCursor lenient (the (lq_cursor q))) (\<lambda>c. Inr (Some c)) else Inr None) = Inr cu"
    "cursor_argument other uuid_of cu = Inr c"
    "page_of (page_limit q) (take (page_limit q + 1)
      (newest_first (filter (\<lambda>t. listed merchantId q from_date to_date t \<and> after_cursor c t) (transactions d)))) = r"
    using assms unfolding list_transactions_def Let_def page_limit_def [symmetric]
    by (elim andThen_InrE) (rule that, assumption+, simp only: sum.inject)
  then show thesis by (intro that [of c from_date to_date]) (simp_all add: cursor_selects_def)
qed

lemma page_rows_after:
  assumes "list_transactions lenient other uuid_of q merchantId d = Inr (page, next)"
    "cursor_selects lenient other uuid_of (lq_cursor q) c" "t \<in> set page"
  shows "after_cursor c t \<and> t \<in> set (transactions d)"
proof -
  obtain from_date to_date c' where sel: "cursor_selects lenient other uuid_of (lq_cursor q) c'"
    and page: "(page, next) = page_of (page_limit q) (take (page_limit q + 1)
      (newest_first (filter (\<lambda>t. listed merchantId q from_date to_date t \<and> after_cursor c' t) (transactions d))))"
    using assms(1) by (rule list_transactions_InrE)
  have "c' = c" using assms(2) sel unfolding cursor_selects_def by simp
  have "page = take (page_limit q) (newest_first (filter (\<lambda>t. listed merchantId q from_date to_date t \<and> after_cursor c' t) (transactions d)))"
    using page unfolding page_of_take by simp
  then have "t \<in> set (newest_first (filter (\<lambda>t. listed merchantId q from_date to_date t \<and> after_cursor c' t) (transactions d)))"
    using assms(3) in_set_takeD by metis
  then show ?thesis using \<open>c' = c\<close> by simp
qed

text \<open>The last row of a page that has a next one, and the cursor made of it.\<close>

lemma page_with_next:
  assumes "list_transactions lenient other uuid_of q merchantId d = Inr (page, Some next)" "distinct (map t_id (transactions d))"
  obtains x where "x \<in> set (transactions d)" "\<And>t. t \<in> set page \<Longrightarrow> t \<in> set (transactions d) \<and> page_key x \<le> page_key t"
    "next = encodeCursor \<lparr>cu_created_at = toISOString (t_created_at x), cu_id = t_id x\<rparr>"
proof -
  obtain from_date to_date c where
    page: "(page, Some next) = page_of (page_limit q) (take (page_limit q + 1)
      (newest_first (filter (\<lambda>t. listed merchantId q from_date to_date t \<and> after_cursor c t) (transactions d))))"
    (is "_ = page_of ?n (take _ ?rows)")
    using assms(1) by (rule list_transactions_InrE)
  have n: "?n < length ?rows" "?n \<noteq> 0" "page = take ?n ?rows"
    "next = encodeCursor \<lparr>cu_created_at = toISOString (t_created_at (last (take ?n ?rows))), cu_id = t_id (last (take ?n ?rows))\<rparr>"
    using page unfolding page_of_take by (auto split: if_splits)
  have rows: "?rows = take (?n - 1) ?rows @ last page # drop ?n ?rows" using last_of_page [OF n(1,2)] n(3) by simp
  have "older_after ?rows"
    using assms(2) by (intro newest_first_sorted) (auto simp: distinct_map intro: inj_on_subset)
  then have "older_after (take (?n - 1) ?rows @ last page # drop ?n ?rows)" using rows by simp
  then have "page_key (last page) < page_key t" if "t \<in> set (take (?n - 1) ?rows)" for t
    using that by (auto simp: sorted_wrt_append)
  moreover have "page = take (?n - 1) ?rows @ [last page]"
    using take_last [OF n(1,2)] n(3) by simp
  ultimately have "page_key (last page) \<le> page_key t" if "t \<in> set page" for t
    using that by (metis UnE empty_iff insertE less_imp_le list.set order_refl set_append)
  moreover have "set page \<subseteq> set (transactions d)" using n(3) by (auto dest: in_set_takeD)
  moreover have "last page \<in> set page" using take_last [OF n(1,2)] n(3) by (metis in_set_conv_decomp)
  ultimately show thesis using n(3,4) by (intro that [of "last page"]) auto
qed

text \<open>
  Pages do not repeat a transaction, whatever is created or changed between the two requests: the
  page that follows a cursor in a later state shares no transaction with the page the cursor came from.
\<close>

theorem pages_never_repeat:
  assumes "inj uid" "reachable uid n0 d" "rtranclp service_step d d'"
    "list_transactions lenient other uuid_of q merchantId d = Inr (page, Some next)"
    "list_transactions lenient other uuid_of (q\<lparr>lq_cursor := Some next\<rparr>) merchantId d' = Inr (page', next')"
    "\<And>t. t \<in> set (transactions d) \<Longrightarrow> \<bar>t_created_at t\<bar> \<le> MAX_TIME \<and> uuid_of (t_id t) = Some (t_id t)"
  shows "t_id ` set page \<inter> t_id ` set page' = {}"
proof -
  have ok: "system_ok d" using reachable_system_ok [OF assms(2,1)] .
  then have "distinct (map t_id (transactions d))" by (simp add: system_ok_def tables_ok_def keys_ok_def)
  from page_with_next [OF assms(4) this] obtain x where x: "x \<in> set (transactions d)"
    "\<And>t. t \<in> set page \<Longrightarrow> t \<in> set (transactions d) \<and> page_key x \<le> page_key t"
    "next = encodeCursor \<lparr>cu_created_at = toISOString (t_created_at x), cu_id = t_id x\<rparr>" by blast
  have selects: "cursor_selects lenient other uuid_of (lq_cursor (q\<lparr>lq_cursor := Some next\<rparr>)) (Some (page_key x))"
    using next_cursor_selects [of x uuid_of] assms(6) [OF x(1)] by (simp add: x(3))
  have keys': "distinct (map t_id (transactions d'))"
    using steps_evolve [OF assms(3) ok] by (simp add: system_ok_def tables_ok_def keys_ok_def)
  have False if t: "t \<in> set page" "t' \<in> set page'" "t_id t = t_id t'" for t t'
  proof -
    have t'': "page_key t' < page_key x" "t' \<in> set (transactions d')"
      using page_rows_after [OF assms(5) selects t(2)] by (simp_all add: after_cursor_key)
    obtain u where u: "u \<in> set (transactions d')" "row_evolves t u"
      using row_later [OF assms(3) ok] x(2) [OF t(1)] by blast
    then have "page_key u = page_key t" by (simp add: row_evolves_def frozen_columns_kept_def page_key_def)
    moreover from this have "u = t'" using u(1) t''(2) t(3) keys' by (auto simp: page_key_def distinct_map inj_on_def)
    ultimately show False using t''(1) x(2) [OF t(1)] by (auto dest: leD)
  qed
  then show ?thesis by blast
qed

lemma truthy_nothing: "\<not> truthy None"
  by (simp add: truthy_def)

lemma demo_keys:
  "page_key (demo_row i ref key created st refunded version updated) = (created, i)"
  "page_key (demo_refund_row st version updated) = (4000, ''t2'')"
  "t_created_at (demo_refund_row st version updated) = 4000" "t_id (demo_refund_row st version updated) = ''t2''"
  "t_id (demo_row i ref key created st refunded version updated) = i"
  by (simp_all add: page_key_def demo_row_def demo_refund_row_def)

lemma demo_query_lists_all [simp]: "listed None demo_query None None t"
  by (simp add: listed_def demo_query_def truthy_def)

lemma demo_query_fields:
  "lq_cursor demo_query = None" "lq_date_from demo_query = None" "lq_date_to demo_query = None" "lq_limit demo_query = Some 2"
  by (simp_all add: demo_query_def)

theorem pages_never_repeat_witness:
  "\<exists>page next page'. list_transactions (\<lambda>s. None) (\<lambda>s. None) Some demo_query None demo_second_pending = Inr (page, Some next)
    \<and> list_transactions (\<lambda>s. None) (\<lambda>s. None) Some (demo_query\<lparr>lq_cursor := Some next\<rparr>) None demo_late = Inr (page', None)
    \<and> map t_id page = [''t3'', ''t2''] \<and> map t_id page' = [''t1''] \<and> t_id ` set page \<inter> t_id ` set page' = {}"
proof -
  let ?next = "encodeCursor \<lparr>cu_created_at = toISOString 4000, cu_id = ''t2''\<rparr>"
  let ?page = "[demo_row ''t3'' ''TXN-20260922-030303'' ''k3'' 20000 PENDING 0 2 21000, demo_refund_row SUCCEEDED 3 6000]"
  let ?page' = "[demo_row ''t1'' ''TXN-20260922-010101'' ''k1'' 1000 REVERSED 10000 7 8000]"
  have steps: "rtranclp service_step demo_second_pending demo_late"
  proof -
    have "service_step demo_second_pending demo_expired" using step_expire run_expired by (metis snd_conv)
    moreover have "service_step demo_expired demo_late" using step_transition run_late by (metis snd_conv)
    ultimately show ?thesis by (meson r_into_rtranclp rtranclp.rtrancl_into_rtrancl)
  qed
  have rows: "\<bar>t_created_at t\<bar> \<le> MAX_TIME \<and> Some (t_id t) = Some (t_id t)" if "t \<in> set (transactions demo_second_pending)" for t
    using that by (auto simp: demo_second_pending_def demo_db_def demo_row_def demo_refund_row_def MAX_TIME_def)
  have first: "list_transactions (\<lambda>s. None) (\<lambda>s. None) Some demo_query None demo_second_pending = Inr (?page, Some ?next)"
    by (simp add: list_transactions_def page_of_def newest_first_def demo_second_pending_def demo_db_def demo_query_fields
        date_argument_def cursor_argument_def after_cursor_def demo_keys less_eq_prod_def truthy_def)
  have cursor: "cursor_argument (\<lambda>s. None) Some (Some \<lparr>cu_created_at = toISOString 4000, cu_id = ''t2''\<rparr>) = Inr (Some (4000, ''t2''))"
    by (simp add: cursor_argument_def new_Date_toISOString MAX_TIME_def)
  have second: "list_transactions (\<lambda>s. None) (\<lambda>s. None) Some (demo_query\<lparr>lq_cursor := Some ?next\<rparr>) None demo_late = Inr (?page', None)"
    by (simp add: list_transactions_def decode_encode cursor page_of_def newest_first_def demo_late_def demo_db_def demo_query_fields
        date_argument_def after_cursor_key demo_keys less_prod_def less_eq_prod_def truthy_nothing)
  have "t_id ` set ?page \<inter> t_id ` set ?page' = {}"
    by (rule pages_never_repeat [OF inj_demo_uid reach_demo_second_pending steps first second rows])
  moreover have "map t_id ?page = [''t3'', ''t2'']" "map t_id ?page' = [''t1'']" by (simp_all add: demo_row_def demo_refund_row_def)
  ultimately show ?thesis using first second by (intro exI conjI)
qed

end
