(* ===== verification/Js_Number.thy ===== *)
theory Js_Number
  imports Prelude "HOL-Library.Log_Nat"
begin

text \<open>
  \<open>Number(text)\<close> of JavaScript: the numeric literals of ECMA-262 and the rounding of their value to a
  double. \<open>None\<close> is NaN or an infinity. A whole number below 2 ^ 53 reads back from its decimal text.
\<close>

section \<open>Rounding to a double\<close>

definition round_half_even :: "rat \<Rightarrow> int" where
  "round_half_even x =
    (let f = \<lfloor>x\<rfloor>; r = x - of_int f in
     if r < 1/2 \<or> r = 1/2 \<and> even f then f else f + 1)"

text \<open>The exponent of the leading binary digit of a positive number.\<close>

definition binary_exponent :: "rat \<Rightarrow> int" where
  "binary_exponent q =
    (let (n, d) = quotient_of q; k = bitlen n - bitlen d in
     if 2 powi k \<le> q then k else k - 1)"

text \<open>53 significant binary digits; from 2 ^ 1024 on the value is infinite.\<close>

definition round_to_double :: "rat \<Rightarrow> rat option" where
  "round_to_double q =
    (if q = 0 then Some 0
     else let ulp = 2 powi (binary_exponent \<bar>q\<bar> - 52);
              m = ulp * of_int (round_half_even (\<bar>q\<bar> / ulp))
          in if m < 2 ^ 1024 then Some (sgn q * m) else None)"

section \<open>Number(text)\<close>

definition split_digits :: "string \<Rightarrow> string \<times> string" where
  "split_digits s = (takeWhile is_digit s, dropWhile is_digit s)"

text \<open>The exponent part: absent, or e, an optional sign and digits up to the end.\<close>

definition exponent_of :: "string \<Rightarrow> int option" where
  "exponent_of s =
    (case s of
       [] \<Rightarrow> Some 0
     | c # cs \<Rightarrow>
        if c = CHR ''e'' \<or> c = CHR ''E'' then
          (let neg = (cs \<noteq> [] \<and> hd cs = CHR ''-'');
               ds = (if cs \<noteq> [] \<and> (hd cs = CHR ''-'' \<or> hd cs = CHR ''+'') then tl cs else cs)
           in if ds \<noteq> [] \<and> list_all is_digit ds
              then Some (if neg then - int (nat_of_digits ds) else int (nat_of_digits ds)) else None)
        else None)"

definition decimal_literal :: "string \<Rightarrow> rat option" where
  "decimal_literal s =
    (case split_digits s of
       (whole, s1) \<Rightarrow>
         (case (if s1 \<noteq> [] \<and> hd s1 = CHR ''.'' then split_digits (tl s1) else ([], s1)) of
            (fraction, s2) \<Rightarrow>
              if whole = [] \<and> fraction = [] then None
              else (case exponent_of s2 of
                      None \<Rightarrow> None
                    | Some e \<Rightarrow> Some (of_nat (nat_of_digits (whole @ fraction)) * 10 powi (e - int (length fraction))))))"

definition Number_of :: "string \<Rightarrow> rat option" where
  "Number_of s =
    (case js_trim s of
       [] \<Rightarrow> Some 0
     | c # cs \<Rightarrow>
        (case (if c = CHR ''+'' then decimal_literal cs
               else if c = CHR ''-'' then map_option uminus (decimal_literal cs)
               else if c = CHR ''0'' \<and> cs \<noteq> [] \<and> hd cs \<in> {CHR ''x'', CHR ''X''} then map_option of_int (radix_number 16 (tl cs))
               else if c = CHR ''0'' \<and> cs \<noteq> [] \<and> hd cs \<in> {CHR ''o'', CHR ''O''} then map_option of_int (radix_number 8 (tl cs))
               else if c = CHR ''0'' \<and> cs \<noteq> [] \<and> hd cs \<in> {CHR ''b'', CHR ''B''} then map_option of_int (radix_number 2 (tl cs))
               else decimal_literal (c # cs)) of
           None \<Rightarrow> None
         | Some q \<Rightarrow> round_to_double q))"

section \<open>Whole numbers\<close>

lemma round_half_even_int [simp]: "round_half_even (of_int n) = n"
  by (simp add: round_half_even_def)

lemma binary_exponent_le:
  assumes "0 < q"
  shows "2 powi (binary_exponent q) \<le> q"
proof -
  obtain n d where q: "quotient_of q = (n, d)" by (cases "quotient_of q")
  have d: "0 < d" "q = of_int n / of_int d" using quotient_of_denom_pos [OF q] quotient_of_div [OF q] by simp_all
  then have n: "0 < n" using assms by (simp add: zero_less_divide_iff)
  let ?k = "bitlen n - bitlen d"
  show ?thesis
  proof (cases "2 powi ?k \<le> q")
    case True
    then show ?thesis using q by (simp add: binary_exponent_def)
  next
    case False
    have "2 ^ nat (bitlen n - 1) \<le> n" "d < 2 ^ nat (bitlen d)" using bitlen_bounds [of n] bitlen_bounds [of d] n d(1) by simp_all
    then have "(of_int (2 ^ nat (bitlen n - 1)) :: rat) \<le> of_int n" "(of_int d :: rat) < of_int (2 ^ nat (bitlen d))"
      by (simp_all only: of_int_le_iff of_int_less_iff)
    then have b: "(2::rat) powi (bitlen n - 1) \<le> of_int n" "(of_int d :: rat) \<le> 2 powi bitlen d"
      using n d(1) bitlen_nonneg [of d] bitlen_nonneg [of n] bitlen_eq_zero_iff [of n] by (simp_all add: power_int_def)
    have "(2::rat) powi (?k - 1) = 2 powi (bitlen n - 1) / 2 powi bitlen d"
      by (simp flip: power_int_diff add: algebra_simps)
    also have "\<dots> \<le> of_int n / of_int d"
      using b d(1) n by (intro frac_le) simp_all
    finally show ?thesis using False q d by (simp add: binary_exponent_def)
  qed
qed

lemma round_to_double_int:
  assumes "0 < n" "n < 2 ^ 53"
  shows "round_to_double (of_int n) = Some (of_int n)"
proof -
  let ?q = "of_int n :: rat" and ?e = "binary_exponent (of_int n)"
  have "2 powi ?e \<le> ?q" using assms(1) by (intro binary_exponent_le) simp
  also have "?q < of_int (2 ^ 53)" using assms(2) by (simp only: of_int_less_iff)
  finally have "(2::rat) powi ?e < 2 powi 53" by simp
  then have "?e < 53" using power_int_increasing [of 53 ?e "2::rat"] by (auto simp: not_less [symmetric])
  then have "?e - 52 = - int (nat (52 - ?e))" by simp
  then have ulp: "(2::rat) powi (?e - 52) = inverse (2 ^ nat (52 - ?e))"
    by (simp only: power_int_minus power_int_of_nat)
  have whole: "?q / inverse (2 ^ nat (52 - ?e)) = of_int (n * 2 ^ nat (52 - ?e))" by (simp add: divide_inverse)
  then have "2 powi (?e - 52) * of_int (round_half_even (?q / 2 powi (?e - 52))) = ?q"
    unfolding ulp whole round_half_even_int by simp
  moreover have "?q < 2 ^ 1024"
  proof -
    have "?q < 2 ^ 53" using \<open>?q < of_int (2 ^ 53)\<close> by simp
    also have "(2::rat) ^ 53 \<le> 2 ^ 1024" by (rule power_increasing) simp_all
    finally show ?thesis .
  qed
  ultimately show ?thesis using assms(1) by (simp add: round_to_double_def Let_def)
qed

lemma not_digit_special: "is_digit c \<Longrightarrow> c \<noteq> CHR ''+'' \<and> c \<noteq> CHR ''-'' \<and> c \<noteq> CHR ''.'' \<and> \<not> is_js_space c
    \<and> c \<notin> {CHR ''x'', CHR ''X'', CHR ''o'', CHR ''O'', CHR ''b'', CHR ''B''}"
  by (auto simp: is_digit_def char_code_def is_js_space_def)

lemma js_trim_digits: "list_all is_digit ds \<Longrightarrow> js_trim ds = ds"
proof -
  have t: "list_all is_digit xs \<Longrightarrow> dropWhile is_js_space xs = xs" for xs
    using not_digit_special by (cases xs) auto
  assume "list_all is_digit ds"
  then show ?thesis using t [of ds] t [of "rev ds"] by (simp add: js_trim_def list_all_rev)
qed

text \<open>\<open>Number(String(n))\<close> is \<open>n\<close>.\<close>

lemma Number_of_dec:
  assumes "0 < n" "n < 2 ^ 53"
  shows "Number_of (dec_of_int n) = Some (of_int n)"
proof -
  let ?ds = "dec_of_nat (nat n)"
  have ds: "list_all is_digit ?ds" "nat_of_digits ?ds = nat n" by (rule dec_of_nat_digits, rule nat_of_digits_dec_of_nat)
  have "dec_of_int n = ?ds" using assms(1) by (simp add: dec_of_int_def)
  moreover have "split_digits ?ds = (?ds, [])"
    using ds(1) by (simp add: split_digits_def takeWhile_eq_all_conv dropWhile_eq_Nil_conv list_all_iff)
  then have "decimal_literal ?ds = Some (of_int n)"
    using assms(1) ds(2) by (simp add: decimal_literal_def exponent_of_def)
  moreover obtain c cs where c: "?ds = c # cs" "is_digit c" "list_all is_digit cs"
    using ds(1) dec_of_nat_nonempty [of "nat n"] by (cases ?ds) auto
  moreover have "js_trim ?ds = ?ds" by (rule js_trim_digits [OF ds(1)])
  moreover have "c \<noteq> CHR ''+''" "c \<noteq> CHR ''-''" using not_digit_special [OF c(2)] by simp_all
  moreover have "\<not> (cs \<noteq> [] \<and> hd cs \<in> {CHR ''x'', CHR ''X''})" "\<not> (cs \<noteq> [] \<and> hd cs \<in> {CHR ''o'', CHR ''O''})"
    "\<not> (cs \<noteq> [] \<and> hd cs \<in> {CHR ''b'', CHR ''B''})"
    using not_digit_special c(3) by (cases cs; fastforce)+
  ultimately show ?thesis
    using round_to_double_int [OF assms] by (simp only: Number_of_def list.case option.case if_False simp_thms)
qed

end
