(* ===== verification/Api.thy ===== *)
theory Api
  imports Sweep Listing Js_Number
begin

text \<open>
  The HTTP face of transactions, payments and merchants: the presenters, the audit view
  (transaction-audit.service.ts) and the controllers with their guards, ownership checks, \<open>If-Match\<close>
  and \<open>ETag\<close>. A handler gives an exception or a status, headers and a body.
\<close>

record 'a http_response =
  rp_status :: nat
  rp_headers :: "(string \<times> string) list"
  rp_body :: 'a

section \<open>transaction.presenter.ts\<close>

record transaction_response =
  tr_reference :: string
  tr_type :: transaction_type
  tr_status :: transaction_status
  tr_provider :: provider
  tr_amount :: string
  tr_currency :: string
  tr_customer_msisdn :: string
  tr_merchant_id :: uuid
  tr_refunded_amount :: string
  tr_version :: int
  tr_created_at :: timestamp
  tr_updated_at :: timestamp

definition toTransactionResponse :: "transaction \<Rightarrow> transaction_response" where
  "toTransactionResponse t =
    \<lparr>tr_reference = t_reference t, tr_type = t_type t, tr_status = t_status t, tr_provider = t_provider t,
     tr_amount = dec_of_int (t_amount t), tr_currency = t_currency t, tr_customer_msisdn = t_customer_msisdn t,
     tr_merchant_id = t_merchant_id t, tr_refunded_amount = dec_of_int (t_refunded_amount t),
     tr_version = t_version t, tr_created_at = t_created_at t, tr_updated_at = t_updated_at t\<rparr>"

record history_response =
  hr_from_status :: "transaction_status option"
  hr_to_status :: transaction_status
  hr_actor_type :: actor_type
  hr_actor_id :: "string option"
  hr_reason :: "string option"
  hr_created_at :: timestamp

definition toHistoryResponse :: "status_history \<Rightarrow> history_response" where
  "toHistoryResponse h =
    \<lparr>hr_from_status = h_from_status h, hr_to_status = h_to_status h, hr_actor_type = h_actor_type h,
     hr_actor_id = h_actor_id h, hr_reason = h_reason h, hr_created_at = h_created_at h\<rparr>"

record list_response =
  lr_data :: "transaction_response list"
  lr_next_cursor :: "string option"

section \<open>transaction-audit.service.ts\<close>

record audit_event =
  av_reference :: "string option"
  av_type :: "transaction_type option"
  av_change :: history_response

record audit_posting =
  ap_account_code :: "string option"
  ap_account_name :: "string option"
  ap_direction :: entry_direction
  ap_amount :: string
  ap_currency :: string

record audit_entry =
  ae_id :: uuid
  ae_description :: string
  ae_reference :: "string option"
  ae_created_at :: timestamp
  ae_postings :: "audit_posting list"
  ae_total_debit :: string
  ae_total_credit :: string
  ae_balanced :: bool

record audit_refund =
  af_reference :: string
  af_status :: transaction_status
  af_amount :: string
  af_currency :: string
  af_created_at :: timestamp

record audit_response =
  ar_transaction :: transaction_response
  ar_parent_reference :: "string option"
  ar_refunds :: "audit_refund list"
  ar_timeline :: "audit_event list"
  ar_entries :: "audit_entry list option"

text \<open>A row of the aggregate query: there is one only for an entry that has a line.\<close>

record entry_totals =
  et_total_debit :: string
  et_total_credit :: string
  et_balanced :: bool

definition totals_of_entry :: "db \<Rightarrow> uuid \<Rightarrow> entry_totals option" where
  "totals_of_entry d eid =
    (let ls = lines_of eid d in
     if ls = [] then None
     else Some \<lparr>et_total_debit = dec_of_int (total_debit ls), et_total_credit = dec_of_int (total_credit ls),
                et_balanced = (total_debit ls = total_credit ls)\<rparr>)"

text \<open>The account of a line, joined by \<open>include\<close>; debits first, the sort is stable.\<close>

definition audit_posting_of :: "db \<Rightarrow> ledger_posting \<Rightarrow> audit_posting" where
  "audit_posting_of d p =
    (let account = lookup_by a_id (p_account_id p) (accounts d) in
     \<lparr>ap_account_code = map_option a_code account, ap_account_name = map_option a_name account,
      ap_direction = p_direction p, ap_amount = dec_of_int (p_amount p), ap_currency = p_currency p\<rparr>)"

definition debits_first :: "ledger_posting list \<Rightarrow> ledger_posting list" where
  "debits_first ps = sort_key (\<lambda>p. if p_direction p \<noteq> DEBIT then 1 else 0 :: nat) ps"

definition audit_entry_of :: "db \<Rightarrow> (uuid \<rightharpoonup> string) \<Rightarrow> journal_entry \<Rightarrow> audit_entry" where
  "audit_entry_of d referenceById e =
    (let t = totals_of_entry d (e_id e) in
     \<lparr>ae_id = e_id e, ae_description = e_description e,
      ae_reference = (case e_transaction_id e of None \<Rightarrow> None | Some tid \<Rightarrow> referenceById tid),
      ae_created_at = e_created_at e,
      ae_postings = map (audit_posting_of d) (debits_first (lines_of (e_id e) d)),
      ae_total_debit = (case t of None \<Rightarrow> ''0'' | Some r \<Rightarrow> et_total_debit r),
      ae_total_credit = (case t of None \<Rightarrow> ''0'' | Some r \<Rightarrow> et_total_credit r),
      ae_balanced = (case t of None \<Rightarrow> False | Some r \<Rightarrow> et_balanced r)\<rparr>)"

definition audit_entries :: "db \<Rightarrow> uuid list \<Rightarrow> (uuid \<rightharpoonup> string) \<Rightarrow> audit_entry list" where
  "audit_entries d ids referenceById =
    map (audit_entry_of d referenceById)
      (sort_key e_created_at
        (filter (\<lambda>e. case e_transaction_id e of None \<Rightarrow> False | Some tid \<Rightarrow> tid \<in> set ids) (entries d)))"

definition refunds_of :: "transaction \<Rightarrow> db \<Rightarrow> transaction list" where
  "refunds_of t d = sort_key t_created_at (filter (\<lambda>r. t_parent_transaction_id r = Some (t_id t)) (transactions d))"

definition audit_refund_of :: "transaction \<Rightarrow> audit_refund" where
  "audit_refund_of r =
    \<lparr>af_reference = t_reference r, af_status = t_status r, af_amount = dec_of_int (t_amount r),
     af_currency = t_currency r, af_created_at = t_created_at r\<rparr>"

definition audit_event_of :: "(uuid \<rightharpoonup> string) \<Rightarrow> (uuid \<rightharpoonup> transaction_type) \<Rightarrow> status_history \<Rightarrow> audit_event" where
  "audit_event_of referenceById typeById h =
    \<lparr>av_reference = referenceById (h_transaction_id h), av_type = typeById (h_transaction_id h),
     av_change = toHistoryResponse h\<rparr>"

definition build_audit :: "transaction \<Rightarrow> bool \<Rightarrow> db \<Rightarrow> audit_response" where
  "build_audit t includeEntries d =
    (let refunds = refunds_of t d;
         parent = (case t_parent_transaction_id t of None \<Rightarrow> None | Some pid \<Rightarrow> lookup_by t_id pid (transactions d));
         concerned = t # refunds;
         referenceById = map_of (rev (map (\<lambda>r. (t_id r, t_reference r)) concerned));
         typeById = map_of (rev (map (\<lambda>r. (t_id r, t_type r)) concerned));
         ids = map t_id concerned;
         changes = sort_key h_created_at (filter (\<lambda>h. h_transaction_id h \<in> set ids) (history d))
     in \<lparr>ar_transaction = toTransactionResponse t, ar_parent_reference = map_option t_reference parent,
         ar_refunds = map audit_refund_of refunds,
         ar_timeline = map (audit_event_of referenceById typeById) changes,
         ar_entries = (if includeEntries then Some (audit_entries d ids referenceById) else None)\<rparr>)"

section \<open>transactions.controller.ts\<close>

definition assertOwnership :: "auth_context \<Rightarrow> transaction \<Rightarrow> app_error + unit" where
  "assertOwnership auth t =
    (if au_role auth = MERCHANT \<and> Some (t_merchant_id t) \<noteq> au_merchant_id auth
     then Inl (Http_Exception 404 (''Transaction '' @ t_reference t @ '' introuvable''))
     else Inr ())"

definition parseIfMatch :: "string option \<Rightarrow> app_error + int" where
  "parseIfMatch ifMatch =
    (if \<not> truthy ifMatch
     then Inl (Http_Exception 400 (''En-t'' @ [CHR 0xEA] @ ''te If-Match obligatoire''))
     else (case Number_of (the ifMatch) of
             Some version \<Rightarrow>
               if of_int \<lfloor>version\<rfloor> = version \<and> 1 \<le> version then Inr \<lfloor>version\<rfloor>
               else Inl (Http_Exception 400 (''If-Match doit '' @ [CHR 0xEA] @ ''tre un entier de version valide''))
           | None \<Rightarrow> Inl (Http_Exception 400 (''If-Match doit '' @ [CHR 0xEA] @ ''tre un entier de version valide''))))"

definition TRANSITION_ROLES :: "api_role list" where
  "TRANSITION_ROLES = [OPERATOR, ADMIN]"

definition list_handler ::
    "(string \<Rightarrow> json option) \<Rightarrow> (string \<Rightarrow> int option) \<Rightarrow> (string \<Rightarrow> uuid option) \<Rightarrow> list_query
      \<Rightarrow> auth_context \<Rightarrow> db \<Rightarrow> app_error + list_response http_response" where
  "list_handler lenient other uuid_of q auth d =
    (let merchantId = (if au_role auth = MERCHANT then au_merchant_id auth else None) in
     andThen (list_transactions lenient other uuid_of q merchantId d) (\<lambda>(rows, nextCursor).
     Inr \<lparr>rp_status = 200, rp_headers = [],
          rp_body = \<lparr>lr_data = map toTransactionResponse rows, lr_next_cursor = nextCursor\<rparr>\<rparr>))"

text \<open>Reading one transaction, its history or its audit starts the same way.\<close>

definition owned_transaction :: "string \<Rightarrow> auth_context \<Rightarrow> db \<Rightarrow> app_error + transaction" where
  "owned_transaction reference auth d =
    andThen (findByReferenceOrThrow reference d) (\<lambda>t. andThen (assertOwnership auth t) (\<lambda>_. Inr t))"

definition with_etag :: "transaction \<Rightarrow> transaction_response http_response" where
  "with_etag t = \<lparr>rp_status = 200, rp_headers = [(''ETag'', dec_of_int (t_version t))], rp_body = toTransactionResponse t\<rparr>"

definition getOne :: "string \<Rightarrow> auth_context \<Rightarrow> db \<Rightarrow> app_error + transaction_response http_response" where
  "getOne reference auth d = andThen (owned_transaction reference auth d) (\<lambda>t. Inr (with_etag t))"

definition getHistory :: "string \<Rightarrow> auth_context \<Rightarrow> db \<Rightarrow> app_error + history_response list http_response" where
  "getHistory reference auth d =
    andThen (owned_transaction reference auth d) (\<lambda>_.
    andThen (status_history_of reference d) (\<lambda>hs.
    Inr \<lparr>rp_status = 200, rp_headers = [], rp_body = map toHistoryResponse hs\<rparr>))"

definition getAudit :: "string \<Rightarrow> auth_context \<Rightarrow> db \<Rightarrow> app_error + audit_response http_response" where
  "getAudit reference auth d =
    andThen (owned_transaction reference auth d) (\<lambda>t.
    Inr \<lparr>rp_status = 200, rp_headers = [], rp_body = build_audit t (au_role auth \<noteq> MERCHANT) d\<rparr>)"

definition get_list ::
    "(string \<Rightarrow> string) \<Rightarrow> (string \<Rightarrow> json option) \<Rightarrow> (string \<Rightarrow> int option) \<Rightarrow> (string \<Rightarrow> uuid option) \<Rightarrow> string option
      \<Rightarrow> list_query \<Rightarrow> db \<Rightarrow> (app_error + list_response http_response) \<times> db" where
  "get_list sha lenient other uuid_of header q =
    guarded sha (required_roles None None) header (\<lambda>auth d. (list_handler lenient other uuid_of q auth d, d))"

definition get_transaction ::
    "(string \<Rightarrow> string) \<Rightarrow> string option \<Rightarrow> string \<Rightarrow> db \<Rightarrow> (app_error + transaction_response http_response) \<times> db" where
  "get_transaction sha header reference =
    guarded sha (required_roles None None) header (\<lambda>auth d. (getOne reference auth d, d))"

definition get_history ::
    "(string \<Rightarrow> string) \<Rightarrow> string option \<Rightarrow> string \<Rightarrow> db \<Rightarrow> (app_error + history_response list http_response) \<times> db" where
  "get_history sha header reference =
    guarded sha (required_roles None None) header (\<lambda>auth d. (getHistory reference auth d, d))"

definition get_audit ::
    "(string \<Rightarrow> string) \<Rightarrow> string option \<Rightarrow> string \<Rightarrow> db \<Rightarrow> (app_error + audit_response http_response) \<times> db" where
  "get_audit sha header reference =
    guarded sha (required_roles None None) header (\<lambda>auth d. (getAudit reference auth d, d))"

definition patch_status ::
    "(string \<Rightarrow> string) \<Rightarrow> uuid \<Rightarrow> uuid \<Rightarrow> timestamp \<Rightarrow> string option \<Rightarrow> string \<Rightarrow> transition_status_dto \<Rightarrow> string option
      \<Rightarrow> db \<Rightarrow> (app_error + transaction_response http_response) \<times> db" where
  "patch_status sha eid xid now header reference dto ifMatch =
    guarded sha (required_roles (Some TRANSITION_ROLES) None) header
      (\<lambda>auth d. case parseIfMatch ifMatch of
          Inl e \<Rightarrow> (Inl e, d)
        | Inr expectedVersion \<Rightarrow>
           (case transition eid xid now reference dto expectedVersion d of
              (Inl e, d') \<Rightarrow> (Inl e, d')
            | (Inr t, d') \<Rightarrow> (Inr (with_etag t), d')))"

section \<open>payments.controller.ts\<close>

definition PAYMENTS_ROLES :: "api_role list" where
  "PAYMENTS_ROLES = [MERCHANT]"

text \<open>201 for a creation; a replay is 200 with its header.\<close>

definition creation_response :: "idempotent_create_result \<Rightarrow> transaction_response http_response" where
  "creation_response r =
    (if ir_replayed r
     then \<lparr>rp_status = 200, rp_headers = [(''Idempotent-Replayed'', ''true'')], rp_body = toTransactionResponse (ir_transaction r)\<rparr>
     else \<lparr>rp_status = 201, rp_headers = [], rp_body = toTransactionResponse (ir_transaction r)\<rparr>)"

text \<open>
  \<open>auth.merchantId!\<close>: a MERCHANT key has a merchant (a CHECK of api_keys). Without one the insertion
  is refused by Prisma, and no payment is that of the caller.
\<close>

definition create_payment_for ::
    "(string \<Rightarrow> string) \<Rightarrow> (string \<Rightarrow> rat option) \<Rightarrow> request_inputs \<Rightarrow> create_payment_dto \<Rightarrow> string \<Rightarrow> uuid option \<Rightarrow> db
      \<Rightarrow> (app_error + idempotent_create_result) \<times> db" where
  "create_payment_for sha config inp dto key merchantId d =
    (case merchantId of
       Some m \<Rightarrow> create_payment sha config inp dto key m d
     | None \<Rightarrow> createTransactionIdempotently ''api:payments'' (in_db_now inp) key (fingerprintOf sha dto)
         (\<lambda>s d. Inl (Js_Error ''Argument merchantId must not be null'')) d)"

definition create_refund_for ::
    "(string \<Rightarrow> string) \<Rightarrow> (string \<Rightarrow> rat option) \<Rightarrow> request_inputs \<Rightarrow> string \<Rightarrow> create_refund_dto \<Rightarrow> string \<Rightarrow> uuid option \<Rightarrow> db
      \<Rightarrow> (app_error + idempotent_create_result) \<times> db" where
  "create_refund_for sha config inp reference dto key merchantId d =
    (case merchantId of
       Some m \<Rightarrow> create_refund sha config inp reference dto key m d
     | None \<Rightarrow> (Inl (Http_Exception 404 (''Transaction '' @ reference @ '' introuvable'')), d))"

definition post_payment ::
    "(string \<Rightarrow> string) \<Rightarrow> (string \<Rightarrow> rat option) \<Rightarrow> request_inputs \<Rightarrow> string option \<Rightarrow> create_payment_dto \<Rightarrow> string option
      \<Rightarrow> db \<Rightarrow> (app_error + transaction_response http_response) \<times> db" where
  "post_payment sha config inp header dto idempotencyKey =
    guarded sha (required_roles None (Some PAYMENTS_ROLES)) header
      (\<lambda>auth d. case requireIdempotencyKey idempotencyKey of
          Inl e \<Rightarrow> (Inl e, d)
        | Inr key \<Rightarrow>
           (case create_payment_for sha config inp dto key (au_merchant_id auth) d of
              (Inl e, d') \<Rightarrow> (Inl e, d')
            | (Inr r, d') \<Rightarrow> (Inr (creation_response r), d')))"

definition post_refund ::
    "(string \<Rightarrow> string) \<Rightarrow> (string \<Rightarrow> rat option) \<Rightarrow> request_inputs \<Rightarrow> string option \<Rightarrow> string \<Rightarrow> create_refund_dto
      \<Rightarrow> string option \<Rightarrow> db \<Rightarrow> (app_error + transaction_response http_response) \<times> db" where
  "post_refund sha config inp header reference dto idempotencyKey =
    guarded sha (required_roles None (Some PAYMENTS_ROLES)) header
      (\<lambda>auth d. case requireIdempotencyKey idempotencyKey of
          Inl e \<Rightarrow> (Inl e, d)
        | Inr key \<Rightarrow>
           (case create_refund_for sha config inp reference dto key (au_merchant_id auth) d of
              (Inl e, d') \<Rightarrow> (Inl e, d')
            | (Inr r, d') \<Rightarrow> (Inr (creation_response r), d')))"

section \<open>merchants.controller.ts\<close>

definition MERCHANTS_ROLES :: "api_role list" where
  "MERCHANTS_ROLES = [ADMIN]"

definition post_merchant ::
    "(string \<Rightarrow> string) \<Rightarrow> uuid \<Rightarrow> uuid \<Rightarrow> timestamp \<Rightarrow> string option \<Rightarrow> create_merchant_dto \<Rightarrow> db
      \<Rightarrow> (app_error + merchant http_response) \<times> db" where
  "post_merchant sha mid aid now header dto =
    guarded sha (required_roles None (Some MERCHANTS_ROLES)) header
      (\<lambda>auth d. case create_merchant mid aid now dto d of
          (Inl e, d') \<Rightarrow> (Inl e, d')
        | (Inr m, d') \<Rightarrow> (Inr \<lparr>rp_status = 201, rp_headers = [], rp_body = m\<rparr>, d'))"

section \<open>A merchant sees its own\<close>

definition without :: "string \<Rightarrow> db \<Rightarrow> db" where
  "without reference d = d\<lparr>transactions := filter (\<lambda>t. t_reference t \<noteq> reference) (transactions d)\<rparr>"

lemma without_lookup [simp]: "lookup_by t_reference reference (transactions (without reference d)) = None"
  by (auto simp: without_def lookup_by_eq_None)

lemma owned_missing: "owned_transaction reference auth (without reference d)
    = Inl (Http_Exception 404 (''Transaction '' @ reference @ '' introuvable''))"
  by (simp add: owned_transaction_def findByReferenceOrThrow_def)

lemma owned_foreign:
  assumes "au_role auth = MERCHANT" "lookup_by t_reference reference (transactions d) = Some t"
    "Some (t_merchant_id t) \<noteq> au_merchant_id auth"
  shows "owned_transaction reference auth d = Inl (Http_Exception 404 (''Transaction '' @ reference @ '' introuvable''))"
  using assms lookup_by_SomeD [OF assms(2)] by (simp add: owned_transaction_def findByReferenceOrThrow_def assertOwnership_def)

lemma listed_merchant:
  assumes "list_transactions lenient other uuid_of q (Some m) d = Inr (page, next)" "t \<in> set page" "m \<noteq> []"
  shows "t_merchant_id t = m \<and> t \<in> set (transactions d)"
  using assms(1)
proof (rule list_transactions_InrE, goal_cases)
  case (1 from_date to_date c)
  then have "page = take (page_limit q) (newest_first (filter (\<lambda>t. listed (Some m) q from_date to_date t \<and> after_cursor c t) (transactions d)))"
    unfolding page_of_take by simp
  then have "t \<in> set (newest_first (filter (\<lambda>t. listed (Some m) q from_date to_date t \<and> after_cursor c t) (transactions d)))"
    using assms(2) in_set_takeD by metis
  then have "listed (Some m) q from_date to_date t" "t \<in> set (transactions d)" by simp_all
  then show ?case using assms(3) by (simp add: listed_def truthy_def)
qed

text \<open>
  C21: To a merchant's key a transaction of another merchant is as if it did not exist: reading it, its
  history or its audit, and refunding it, are answered as they would be without it, and the pages it lists
  hold its own transactions only.
\<close>

theorem foreign_looks_missing:
  assumes "au_role auth = MERCHANT" "au_merchant_id auth = Some m" "m \<noteq> []"
    "lookup_by t_reference reference (transactions d) = Some t" "t_merchant_id t \<noteq> m"
  shows "getOne reference auth d = getOne reference auth (without reference d)
    \<and> getHistory reference auth d = getHistory reference auth (without reference d)
    \<and> getAudit reference auth d = getAudit reference auth (without reference d)
    \<and> create_refund_for sha config inp reference dto key (au_merchant_id auth) d
      = (fst (create_refund_for sha config inp reference dto key (au_merchant_id auth) (without reference d)), d)
    \<and> (\<forall>r \<in> set (case list_handler lenient other uuid_of q auth d of Inl e \<Rightarrow> [] | Inr resp \<Rightarrow> lr_data (rp_body resp)).
         tr_merchant_id r = m)"
proof -
  have own: "owned_transaction reference auth d = owned_transaction reference auth (without reference d)"
    using owned_foreign [OF assms(1,4)] assms(2,5) owned_missing by simp
  have refund: "create_refund_for sha config inp reference dto key (au_merchant_id auth) d
      = (fst (create_refund_for sha config inp reference dto key (au_merchant_id auth) (without reference d)), d)"
    using assms(2,4,5) by (simp add: create_refund_for_def create_refund_def findByReferenceOrThrow_def)
  have rows: "tr_merchant_id r = m"
    if r: "r \<in> set (case list_handler lenient other uuid_of q auth d of Inl e \<Rightarrow> [] | Inr resp \<Rightarrow> lr_data (rp_body resp))" for r
  proof -
    obtain page nxt u where "list_transactions lenient other uuid_of q (Some m) d = Inr (page, nxt)" "u \<in> set page"
      "r = toTransactionResponse u"
      using r assms(1,2)
      by (cases "list_transactions lenient other uuid_of q (Some m) d") (auto simp: list_handler_def split: prod.splits)
    then show ?thesis using listed_merchant [OF _ _ assms(3)] by (simp add: toTransactionResponse_def)
  qed
  show ?thesis using own refund rows unfolding getOne_def getHistory_def getAudit_def owned_missing by simp
qed

definition demo_auth :: "uuid \<Rightarrow> auth_context" where
  "demo_auth m = \<lparr>au_api_key_id = ''a7'', au_role = MERCHANT, au_merchant_id = Some m\<rparr>"

theorem foreign_looks_missing_witness:
  "getOne ''TXN-20260922-010101'' (demo_auth ''m9'') demo_late
    = Inl (Http_Exception 404 ''Transaction TXN-20260922-010101 introuvable'')"
proof -
  let ?ref = "''TXN-20260922-010101''"
  have row: "lookup_by t_reference ?ref (transactions demo_late)
      = Some (demo_row ''t1'' ?ref ''k1'' 1000 REVERSED 10000 7 8000)"
    by (simp add: demo_late_def demo_db_def demo_row_def lookup_by_def)
  have "au_role (demo_auth ''m9'') = MERCHANT" "au_merchant_id (demo_auth ''m9'') = Some ''m9''" "''m9'' \<noteq> []"
    "t_merchant_id (demo_row ''t1'' ?ref ''k1'' 1000 REVERSED 10000 7 8000) \<noteq> ''m9''"
    by (simp_all add: demo_auth_def demo_row_def demo_uid_def numeral_eq_Suc)
  from foreign_looks_missing [OF this(1-3) row this(4)]
  have "getOne ?ref (demo_auth ''m9'') demo_late = getOne ?ref (demo_auth ''m9'') (without ?ref demo_late)" by blast
  then show ?thesis by (simp add: getOne_def owned_missing)
qed

section \<open>ETag and If-Match\<close>

definition versions_ok :: "db \<Rightarrow> bool" where
  "versions_ok d \<longleftrightarrow> (\<forall>t \<in> set (transactions d). 1 \<le> t_version t)"

lemma versions_ok_stmt:
  assumes "stmt s d d'" "versions_ok d"
  shows "versions_ok d'"
  using assms(1)
proof cases
  case (ins_transaction t r)
  have "transactions d' = transactions d @ [r] \<and> t_version r = 1"
    using ins_transaction by (rule insert_transaction_InrD) simp
  then show ?thesis using assms(2) by (auto simp: versions_ok_def)
next
  case (upd_transaction i f r)
  obtain old where "old \<in> set (transactions d)" "r = (f old)\<lparr>t_version := t_version old + 1, t_updated_at := s_now s\<rparr>"
    "transactions d' = replace_by t_id i r (transactions d)"
    using update_transaction_facts [OF upd_transaction] by metis
  then show ?thesis using assms(2) by (fastforce simp: versions_ok_def dest!: in_set_replace_by)
qed (use assms(2) in \<open>auto simp: versions_ok_def insert_load_def Let_def dest!: insert_account_InrD insert_entry_InrD
    insert_posting_InrD insert_merchant_InrD insert_exception_InrD update_exception_InrD insert_api_key_InrD
    update_api_key_InrD\<close>)

interpretation versions: sql_invariant versions_ok
  by unfold_locales (rule versions_ok_stmt, assumption+, simp add: versions_ok_def)

lemma reachable_versions: "reachable uid now d \<Longrightarrow> versions_ok d"
proof (induction rule: reachable.induct)
  case reach_initial
  then show ?case by (simp add: versions_ok_def initial_db_def)
next
  case (reach_step d d')
  then show ?case
    using step_transaction [of d d'] versions.evolution.transaction_evolves sql_body.body_stmts
    unfolding service_transaction_def by (metis (no_types, lifting))
qed

lemma parseIfMatch_etag:
  assumes "1 \<le> v" "in_int4 v"
  shows "parseIfMatch (Some (dec_of_int v)) = Inr v"
proof -
  have "0 < v" "v < 2 ^ 53" using assms by (simp_all add: in_int4_def)
  moreover have "dec_of_int v \<noteq> []" by (simp add: dec_of_int_def)
  ultimately show ?thesis using Number_of_dec [of v] assms(1) by (simp add: parseIfMatch_def truthy_def)
qed

lemma transition_other_version:
  assumes "lookup_by t_reference reference (transactions d) = Some row" "t_version row \<noteq> v"
  shows "\<exists>msg. transition eid xid now reference dto v d = (Inl (Http_Exception 412 msg), d)"
  using assms by (simp add: transition_def withActor_def sql_transaction_def transition_body_def Let_def)

text \<open>
  C26: The ETag of a transaction is a lock on what was shown: sent back as If-Match it is read as the version
  of the transaction, and in any later state the transition is refused with 412, changing nothing, unless
  the transaction is still, to the last field, the one that was shown.
\<close>

theorem etag_locks_what_was_shown:
  assumes "inj uid" "reachable uid n0 d" "getOne reference auth d = Inr resp" "rtranclp service_step d d'"
  shows "\<exists>etag t t'. rp_headers resp = [(''ETag'', etag)] \<and> parseIfMatch (Some etag) = Inr (t_version t)
    \<and> lookup_by t_reference reference (transactions d) = Some t \<and> rp_body resp = toTransactionResponse t
    \<and> lookup_by t_reference reference (transactions d') = Some t'
    \<and> (t' = t \<or> (\<exists>msg. transition eid xid now reference dto (t_version t) d' = (Inl (Http_Exception 412 msg), d')))"
proof -
  have ok: "system_ok d" using reachable_system_ok [OF assms(2,1)] .
  obtain t where t: "lookup_by t_reference reference (transactions d) = Some t" "resp = with_etag t"
    using assms(3) by (auto simp: getOne_def owned_transaction_def andThen_eq_Inr findByReferenceOrThrow_def split: option.splits)
  note row = lookup_by_SomeD [OF t(1)]
  have "1 \<le> t_version t" "in_int4 (t_version t)"
    using reachable_versions [OF assms(2)] reachable_ranges [OF assms(2)] row(1)
    by (auto simp: versions_ok_def ranges_ok_def transaction_ranges_def)
  then have etag: "parseIfMatch (Some (dec_of_int (t_version t))) = Inr (t_version t)" by (rule parseIfMatch_etag)
  obtain t' where t': "t' \<in> set (transactions d')" "row_evolves t t'" using row_later [OF assms(4) ok row(1)] .
  have "distinct (map t_reference (transactions d'))"
    using steps_evolve [OF assms(4) ok] by (simp add: system_ok_def tables_ok_def keys_ok_def)
  moreover have "t_reference t' = reference" using t'(2) row(2) by (simp add: row_evolves_def frozen_columns_kept_def)
  ultimately have found: "lookup_by t_reference reference (transactions d') = Some t'"
    using t'(1) lookup_by_distinct [of t_reference "transactions d'" t'] by simp
  have "t' = t \<or> t_version t' \<noteq> t_version t" using t'(2) by (auto simp: row_evolves_def)
  then have "t' = t \<or> (\<exists>msg. transition eid xid now reference dto (t_version t) d' = (Inl (Http_Exception 412 msg), d'))"
    using transition_other_version [OF found] by blast
  then show ?thesis using t etag found by (auto simp: with_etag_def)
qed

theorem etag_locks_what_was_shown_witness:
  "\<exists>msg. transition ''e9'' ''x9'' 90000 ''TXN-20260922-030303''
    \<lparr>ts_status = SUCCEEDED, ts_reason = None, ts_provider_reference = None\<rparr> 2 demo_late = (Inl (Http_Exception 412 msg), demo_late)"
proof -
  let ?ref = "''TXN-20260922-030303''" and ?auth = "\<lparr>au_api_key_id = ''a1'', au_role = OPERATOR, au_merchant_id = None\<rparr>"
  let ?t = "demo_row ''t3'' ?ref ''k3'' 20000 PENDING 0 2 21000"
  have get: "getOne ?ref ?auth demo_second_pending = Inr (with_etag ?t)"
    by (simp add: getOne_def owned_transaction_def findByReferenceOrThrow_def assertOwnership_def
        demo_second_pending_def demo_db_def demo_row_def demo_refund_row_def lookup_by_def)
  have "service_step demo_second_pending demo_expired" "service_step demo_expired demo_late"
    using step_expire run_expired step_transition run_late by (metis snd_conv)+
  then have steps: "rtranclp service_step demo_second_pending demo_late" by (meson converse_rtranclp_into_rtranclp r_into_rtranclp)
  have found: "lookup_by t_reference ?ref (transactions demo_second_pending) = Some ?t"
    "lookup_by t_reference ?ref (transactions demo_late) = Some (demo_row ''t3'' ?ref ''k3'' 20000 EXPIRED 0 3 1000000)"
    by (simp_all add: demo_second_pending_def demo_late_def demo_db_def demo_row_def demo_refund_row_def lookup_by_def)
  have "demo_row ''t3'' ?ref ''k3'' 20000 EXPIRED 0 3 1000000 \<noteq> ?t" "t_version ?t = 2" by (simp_all add: demo_row_def)
  then show ?thesis
    using etag_locks_what_was_shown [OF inj_demo_uid reach_demo_second_pending get steps, of "''e9''" "''x9''" 90000
        "\<lparr>ts_status = SUCCEEDED, ts_reason = None, ts_provider_reference = None\<rparr>"] found
    by auto
qed

section \<open>The audit view\<close>






end
