(* ===== verification/Errors.thy ===== *)
theory Errors
  imports Lifecycle
begin

text \<open>
  What the client is told of an error: database/ledger-errors.ts, which finds the LX code in the text
  of an error, and common/filters/problem-details.filter.ts, which turns any exception into the
  Problem Details answer (RFC 9457). \<open>exception_of\<close> shows the errors of the model as the JavaScript
  objects the filter receives. The text that Prisma wraps around an error of the database and the
  text PostgreSQL gives to its own violations are parameters.
\<close>

section \<open>JavaScript exceptions\<close>

text \<open>The member \<open>message\<close> of the response of an \<open>HttpException\<close>: a text, a list of texts, or absent.\<close>

datatype http_message = One string | Many "string list" | Absent

record http_part =
  he_status :: nat
  he_name :: string
  he_message :: http_message

text \<open>
  \<open>ex_message\<close> is \<open>error.message\<close> (for a thrown value that is no \<open>Error\<close>, its text), \<open>ex_original\<close>
  is \<open>error.meta.driverAdapterError.cause.originalMessage\<close>, \<open>ex_http\<close> is there for an \<open>HttpException\<close>.
\<close>

record js_exception =
  ex_message :: string
  ex_original :: "string option"
  ex_http :: "http_part option"

text \<open>The class name NestJS gives to the exceptions this program throws, by their status.\<close>

definition http_exception_name :: "nat \<Rightarrow> string" where
  "http_exception_name status =
    (if status = 400 then ''BadRequestException''
     else if status = 401 then ''UnauthorizedException''
     else if status = 403 then ''ForbiddenException''
     else if status = 404 then ''NotFoundException''
     else if status = 409 then ''ConflictException''
     else if status = 412 then ''PreconditionFailedException''
     else if status = 422 then ''UnprocessableEntityException''
     else if status = 503 then ''ServiceUnavailableException''
     else ''HttpException'')"

text \<open>The message and the status of \<open>ReconciliationRequiredException\<close>.\<close>

definition reconciliation_required_message :: "string \<Rightarrow> uuid \<Rightarrow> string" where
  "reconciliation_required_message reference exceptionId =
    ''Transaction '' @ reference @ '' d'' @ [CHR 0xE9] @ ''j'' @ [CHR 0xE0]
      @ '' EXPIRED : acquittement tardif captur'' @ [CHR 0xE9] @ '' pour rapprochement manuel (exception ''
      @ exceptionId @ '', voir GET /v1/reconciliation-exceptions/'' @ exceptionId @ '')''"

definition RECONCILIATION_REQUIRED_STATUS :: nat where
  "RECONCILIATION_REQUIRED_STATUS = 409"

definition ledger_text :: "ledger_error_code \<Rightarrow> string \<Rightarrow> string" where
  "ledger_text code msg = ''['' @ ledger_code_text code @ '']'' @ '' '' @ msg"

definition exception_of :: "(string \<Rightarrow> string) \<Rightarrow> (app_error \<Rightarrow> string) \<Rightarrow> app_error \<Rightarrow> js_exception" where
  "exception_of prisma_text db_text e =
    (case e of
       Ledger_Error code msg \<Rightarrow>
         \<lparr>ex_message = prisma_text (ledger_text code msg), ex_original = Some (ledger_text code msg), ex_http = None\<rparr>
     | Http_Exception status msg \<Rightarrow>
         \<lparr>ex_message = msg, ex_original = None,
          ex_http = Some \<lparr>he_status = status, he_name = http_exception_name status, he_message = One msg\<rparr>\<rparr>
     | Reconciliation_Required reference exceptionId \<Rightarrow>
         (let msg = reconciliation_required_message reference exceptionId in
          \<lparr>ex_message = msg, ex_original = None,
           ex_http = Some \<lparr>he_status = RECONCILIATION_REQUIRED_STATUS, he_name = ''ReconciliationRequiredException'',
             he_message = One msg\<rparr>\<rparr>)
     | Js_Error msg \<Rightarrow> \<lparr>ex_message = msg, ex_original = None, ex_http = None\<rparr>
     | _ \<Rightarrow> \<lparr>ex_message = prisma_text (db_text e), ex_original = Some (db_text e), ex_http = None\<rparr>)"

section \<open>ledger-errors.ts\<close>

definition all_ledger_codes :: "ledger_error_code list" where
  "all_ledger_codes =
    [APPEND_ONLY, UNBALANCED_ENTRY, CURRENCY_MISMATCH, SEALED_ENTRY, INVALID_TRANSITION,
     FROZEN_FIELD, MISSING_ACTOR, INVALID_REVERSAL, INACTIVE_ACCOUNT, BUSINESS_RULE]"

definition KNOWN_CODES :: "(string \<times> ledger_error_code) list" where
  "KNOWN_CODES = map (\<lambda>c. (ledger_code_text c, c)) all_ledger_codes"

text \<open>The regular expression \<open>\[(LX\d{3})\]\<close> at the start of a text: its group, and what follows the match.\<close>

definition code_here :: "string \<Rightarrow> (string \<times> string) option" where
  "code_here s =
    (if take 3 s = ''[LX'' \<and> length s \<ge> 7 \<and> list_all is_digit (take 3 (drop 3 s)) \<and> s ! 6 = CHR '']''
     then Some (take 5 (drop 1 s), drop 7 s) else None)"

text \<open>Its first match in a text.\<close>

fun CODE_IN_MESSAGE :: "string \<Rightarrow> (string \<times> string) option" where
  "CODE_IN_MESSAGE [] = None"
| "CODE_IN_MESSAGE (c # cs) = (case code_here (c # cs) of Some m \<Rightarrow> Some m | None \<Rightarrow> CODE_IN_MESSAGE cs)"

definition extractLedgerErrorCode :: "js_exception \<Rightarrow> ledger_error_code option" where
  "extractLedgerErrorCode e =
    (case CODE_IN_MESSAGE (ex_message e) of
       None \<Rightarrow> None
     | Some (code, _) \<Rightarrow> map_of KNOWN_CODES code)"

definition isLedgerError :: "js_exception \<Rightarrow> ledger_error_code option \<Rightarrow> bool" where
  "isLedgerError e code =
    (case extractLedgerErrorCode e of None \<Rightarrow> False | Some found \<Rightarrow> code = None \<or> code = Some found)"

definition extractLedgerErrorMessage :: "js_exception \<Rightarrow> string option" where
  "extractLedgerErrorMessage e =
    (let source = (case ex_original e of Some original \<Rightarrow> original | None \<Rightarrow> ex_message e) in
     case CODE_IN_MESSAGE source of None \<Rightarrow> None | Some (_, rest) \<Rightarrow> Some (js_trim rest))"

section \<open>problem-details.filter.ts\<close>

fun LX_ERROR_MAP :: "ledger_error_code \<Rightarrow> nat \<times> string" where
  "LX_ERROR_MAP APPEND_ONLY = (500, ''Violation d'invariant interne (ajout seul)'')"
| "LX_ERROR_MAP UNBALANCED_ENTRY = (500, ''Violation d'invariant interne ('' @ [CHR 0xE9] @ ''criture d'' @ [CHR 0xE9] @ ''s'' @ [CHR 0xE9] @ ''quilibr'' @ [CHR 0xE9] @ ''e)'')"
| "LX_ERROR_MAP CURRENCY_MISMATCH = (500, ''Violation d'invariant interne (devise incoh'' @ [CHR 0xE9] @ ''rente)'')"
| "LX_ERROR_MAP SEALED_ENTRY = (500, ''Violation d'invariant interne ('' @ [CHR 0xE9] @ ''criture scell'' @ [CHR 0xE9] @ ''e)'')"
| "LX_ERROR_MAP INVALID_TRANSITION = (409, ''Transition de statut interdite'')"
| "LX_ERROR_MAP FROZEN_FIELD = (500, ''Violation d'invariant interne (champ fig'' @ [CHR 0xE9] @ '')'')"
| "LX_ERROR_MAP MISSING_ACTOR = (500, ''Violation d'invariant interne (acteur manquant)'')"
| "LX_ERROR_MAP INVALID_REVERSAL = (500, ''Violation d'invariant interne (contre-'' @ [CHR 0xE9] @ ''criture non conforme)'')"
| "LX_ERROR_MAP INACTIVE_ACCOUNT = (409, ''Compte comptable inactif'')"
| "LX_ERROR_MAP BUSINESS_RULE = (409, ''R'' @ [CHR 0xE8] @ ''gle m'' @ [CHR 0xE9] @ ''tier viol'' @ [CHR 0xE9] @ ''e'')"

record problem_details =
  pd_type :: string
  pd_title :: string
  pd_status :: nat
  pd_detail :: "string option"
  pd_instance :: string
  pd_code :: "string option"

text \<open>\<open>...(detail ? { detail } : {})\<close>: absent or empty, the member is left out.\<close>

definition shown :: "string option \<Rightarrow> string option" where
  "shown detail = (if truthy detail then detail else None)"

definition fromLedgerError :: "ledger_error_code \<Rightarrow> js_exception \<Rightarrow> string \<Rightarrow> problem_details" where
  "fromLedgerError code e inst =
    (let status = fst (LX_ERROR_MAP code);
         detail = (if 500 \<le> status then None else extractLedgerErrorMessage e)
     in \<lparr>pd_type = ''https://ledger-ops.internal/errors/'' @ to_lower (ledger_code_text code),
         pd_title = snd (LX_ERROR_MAP code), pd_status = status, pd_detail = shown detail,
         pd_instance = inst, pd_code = Some (ledger_code_text code)\<rparr>)"

text \<open>\<open>name.replace(/Exception$/, "")\<close>\<close>

definition without_exception :: "string \<Rightarrow> string" where
  "without_exception name =
    (let n = length name - length ''Exception'' in
     if drop n name = ''Exception'' then take n name else name)"

fun join_semicolon :: "string list \<Rightarrow> string" where
  "join_semicolon [] = []"
| "join_semicolon [s] = s"
| "join_semicolon (s # t # ts) = s @ ''; '' @ join_semicolon (t # ts)"

definition fromHttpException :: "http_part \<Rightarrow> string \<Rightarrow> problem_details" where
  "fromHttpException h inst =
    (let detail = (case he_message h of One m \<Rightarrow> Some m | Many ms \<Rightarrow> Some (join_semicolon ms) | Absent \<Rightarrow> None)
     in \<lparr>pd_type = ''about:blank'', pd_title = without_exception (he_name h), pd_status = he_status h,
         pd_detail = shown detail, pd_instance = inst, pd_code = None\<rparr>)"

definition internal_problem :: "string \<Rightarrow> problem_details" where
  "internal_problem inst =
    \<lparr>pd_type = ''about:blank'', pd_title = ''Internal Server Error'', pd_status = 500, pd_detail = None,
     pd_instance = inst, pd_code = None\<rparr>"

definition toProblem :: "js_exception \<Rightarrow> string \<Rightarrow> problem_details" where
  "toProblem e inst =
    (case extractLedgerErrorCode e of
       Some code \<Rightarrow> fromLedgerError code e inst
     | None \<Rightarrow>
        (case ex_http e of
           Some h \<Rightarrow> fromHttpException h inst
         | None \<Rightarrow> internal_problem inst))"

text \<open>\<open>catch\<close>: the status, the content type and the body of the answer.\<close>

definition optional :: "string \<Rightarrow> string option \<Rightarrow> (string \<times> string) list" where
  "optional k m = (case m of None \<Rightarrow> [] | Some v \<Rightarrow> [(k, json_string v)])"

fun join_comma :: "string list \<Rightarrow> string" where
  "join_comma [] = []"
| "join_comma [s] = s"
| "join_comma (s # t # ts) = s @ '','' @ join_comma (t # ts)"

definition problem_json :: "problem_details \<Rightarrow> string" where
  "problem_json p =
    ''{'' @ join_comma (map (\<lambda>(k, v). json_string k @ '':'' @ v)
      ([(''type'', json_string (pd_type p)), (''title'', json_string (pd_title p)),
        (''status'', dec_of_nat (pd_status p))]
       @ optional ''detail'' (pd_detail p)
       @ [(''instance'', json_string (pd_instance p))]
       @ optional ''code'' (pd_code p))) @ ''}''"

definition catch_exception :: "js_exception \<Rightarrow> string \<Rightarrow> nat \<times> string \<times> string" where
  "catch_exception e inst =
    (let problem = toProblem e inst in (pd_status problem, ''application/problem+json'', problem_json problem))"

section \<open>The LX code of a text\<close>

lemma known_codes_map [simp]: "map_of KNOWN_CODES (ledger_code_text c) = Some c"
  by (cases c) (simp_all add: KNOWN_CODES_def all_ledger_codes_def)

lemma known_codes_Some: "map_of KNOWN_CODES t = Some c \<Longrightarrow> t = ledger_code_text c"
  by (auto simp: KNOWN_CODES_def all_ledger_codes_def split: if_splits)

lemma code_here_ledger [simp]: "code_here (CHR ''['' # ledger_code_text c @ CHR '']'' # rest) = Some (ledger_code_text c, rest)"
  by (cases c) (simp_all add: code_here_def is_digit_def char_code_def)

lemma first_code_ledger [simp]:
  "CODE_IN_MESSAGE (CHR ''['' # ledger_code_text c @ CHR '']'' # rest) = Some (ledger_code_text c, rest)"
  by simp

declare CODE_IN_MESSAGE.simps(2) [simp del]

lemma first_code_text: "CODE_IN_MESSAGE (ledger_text c msg) = Some (ledger_code_text c, CHR '' '' # msg)"
  by (simp add: ledger_text_def)

text \<open>A text without an opening bracket in front does not hide a code.\<close>

lemma first_code_skip:
  "CHR ''['' \<notin> set pre \<Longrightarrow> CODE_IN_MESSAGE (pre @ s) = CODE_IN_MESSAGE s"
proof (induction pre)
  case (Cons c pre)
  then have "code_here (c # pre @ s) = None" by (auto simp: code_here_def)
  then show ?case using Cons by (simp add: CODE_IN_MESSAGE.simps(2))
qed simp

lemma js_trim_space [simp]: "js_trim (CHR '' '' # s) = js_trim s"
  by (simp add: js_trim_def is_js_space_def char_code_def)

section \<open>What the client is told\<close>

text \<open>
  C39: An error raised by an integrity rule of the database reaches the client with its LX code: a
  forbidden transition, an inactive account and a business rule are answered 409 with the text of the
  database as detail, every other rule 500 without a detail. The wrapper of Prisma must show the same
  first code as the text it wraps.
\<close>

theorem ledger_error_answered:
  assumes "\<And>t. map_option fst (CODE_IN_MESSAGE (prisma_text t)) = map_option fst (CODE_IN_MESSAGE t)"
  shows "let p = toProblem (exception_of prisma_text db_text (Ledger_Error code msg)) inst in
    pd_code p = Some (ledger_code_text code) \<and> pd_instance p = inst
    \<and> (if code \<in> {INVALID_TRANSITION, INACTIVE_ACCOUNT, BUSINESS_RULE}
       then pd_status p = 409 \<and> pd_detail p = shown (Some (js_trim msg))
       else pd_status p = 500 \<and> pd_detail p = None)"
proof -
  obtain rest where "CODE_IN_MESSAGE (prisma_text (ledger_text code msg)) = Some (ledger_code_text code, rest)"
    using assms [of "ledger_text code msg"] by (auto simp: first_code_text)
  then have "extractLedgerErrorCode (exception_of prisma_text db_text (Ledger_Error code msg)) = Some code"
    by (simp add: extractLedgerErrorCode_def exception_of_def)
  moreover have "extractLedgerErrorMessage (exception_of prisma_text db_text (Ledger_Error code msg)) = Some (js_trim msg)"
    by (simp add: extractLedgerErrorMessage_def exception_of_def first_code_text)
  ultimately show ?thesis
    by (cases code) (simp_all add: toProblem_def fromLedgerError_def shown_def truthy_def)
qed

theorem ledger_error_answered_witness:
  "pd_status (toProblem (exception_of (\<lambda>t. ''Invalid invocation: '' @ t) (\<lambda>e. [])
      (Ledger_Error INVALID_TRANSITION ''Transition interdite'')) ''/v1'') = 409
   \<and> pd_detail (toProblem (exception_of (\<lambda>t. ''Invalid invocation: '' @ t) (\<lambda>e. [])
      (Ledger_Error INVALID_TRANSITION ''Transition interdite'')) ''/v1'') = Some ''Transition interdite''"
proof -
  let ?w = "\<lambda>t. ''Invalid invocation: '' @ t"
  have "map_option fst (CODE_IN_MESSAGE (?w t)) = map_option fst (CODE_IN_MESSAGE t)" for t
    by (subst first_code_skip) simp_all
  note ledger_error_answered [OF this, of "\<lambda>e. []" INVALID_TRANSITION "''Transition interdite''" "''/v1''"]
  moreover have "shown (Some (js_trim ''Transition interdite'')) = Some ''Transition interdite''"
    by (simp add: shown_def truthy_def js_trim_def is_js_space_def char_code_def)
  ultimately show ?thesis by (simp add: Let_def)
qed

text \<open>
  A 500 tells the client nothing of what went wrong inside: apart from the LX code, the answer to an
  error that is not an HTTP exception is the same whatever the text of the error.
\<close>

theorem internal_errors_tell_nothing:
  assumes "ex_http e = None" "500 \<le> pd_status (toProblem e inst)"
  shows "toProblem e inst =
      (case extractLedgerErrorCode e of
         None \<Rightarrow> internal_problem inst
       | Some code \<Rightarrow> toProblem \<lparr>ex_message = ''['' @ ledger_code_text code @ '']'', ex_original = None, ex_http = None\<rparr> inst)
    \<and> pd_detail (toProblem e inst) = None"
proof (cases "extractLedgerErrorCode e")
  case None
  then show ?thesis using assms(1) by (simp add: toProblem_def internal_problem_def)
next
  case (Some code)
  have "extractLedgerErrorCode \<lparr>ex_message = ''['' @ ledger_code_text code @ '']'', ex_original = None, ex_http = None\<rparr> = Some code"
    by (simp add: extractLedgerErrorCode_def)
  moreover have "500 \<le> fst (LX_ERROR_MAP code)"
    using assms(2) Some by (simp add: toProblem_def fromLedgerError_def Let_def)
  ultimately show ?thesis using Some by (simp add: toProblem_def fromLedgerError_def shown_def truthy_def)
qed

theorem internal_errors_tell_nothing_witness:
  "pd_detail (toProblem (exception_of (\<lambda>t. t) (\<lambda>e. ''duplicate key'') (Unique_Violation ''transactions_reference_key'')) ''/v1'') = None"
proof -
  let ?e = "exception_of (\<lambda>t. t) (\<lambda>e. ''duplicate key'') (Unique_Violation ''transactions_reference_key'')"
  have "CODE_IN_MESSAGE ''duplicate key'' = None"
    using first_code_skip [of "''duplicate key''" "[]"] by simp
  then have "ex_http ?e = None" "500 \<le> pd_status (toProblem ?e ''/v1'')"
    by (simp_all add: exception_of_def toProblem_def extractLedgerErrorCode_def internal_problem_def)
  from internal_errors_tell_nothing [OF this] show ?thesis by blast
qed

text \<open>
  The filter looks for an LX code before it looks at the class of the exception, in a text that may
  hold what the client sent: asking for a missing transaction by a reference that holds a code is answered
  with the status of that code, and not 404.
\<close>

theorem code_in_reference_hijacks:
  assumes "lookup_by t_reference (pre @ ''['' @ ledger_code_text code @ '']'' @ post) (transactions d) = None"
    "CHR ''['' \<notin> set pre"
  shows "\<exists>e. findByReferenceOrThrow (pre @ ''['' @ ledger_code_text code @ '']'' @ post) d = Inl e
    \<and> pd_status (toProblem (exception_of prisma_text db_text e) inst) = fst (LX_ERROR_MAP code)
    \<and> pd_status (toProblem (exception_of prisma_text db_text e) inst) \<noteq> 404"
proof -
  let ?r = "pre @ ''['' @ ledger_code_text code @ '']'' @ post"
  let ?e = "Http_Exception 404 (''Transaction '' @ ?r @ '' introuvable'')"
  have "CODE_IN_MESSAGE (''Transaction '' @ ?r @ '' introuvable'')
    = CODE_IN_MESSAGE ((''Transaction '' @ pre) @ CHR ''['' # ledger_code_text code @ CHR '']'' # post @ '' introuvable'')" by simp
  also have "\<dots> = Some (ledger_code_text code, post @ '' introuvable'')"
    using assms(2) by (subst first_code_skip) (auto simp del: append_Cons)
  finally have "extractLedgerErrorCode (exception_of prisma_text db_text ?e) = Some code"
    by (simp add: exception_of_def extractLedgerErrorCode_def)
  then have "pd_status (toProblem (exception_of prisma_text db_text ?e) inst) = fst (LX_ERROR_MAP code)"
    by (simp add: toProblem_def fromLedgerError_def Let_def)
  moreover have "findByReferenceOrThrow ?r d = Inl ?e" using assms(1) by (simp add: findByReferenceOrThrow_def)
  moreover have "fst (LX_ERROR_MAP code) \<noteq> 404" by (cases code) simp_all
  ultimately show ?thesis by auto
qed

theorem code_in_reference_hijacks_witness:
  "\<exists>e. findByReferenceOrThrow ''[LX001]'' demo_start = Inl e
    \<and> pd_status (toProblem (exception_of (\<lambda>t. t) (\<lambda>e. []) e) ''/v1/transactions/[LX001]'') = 500"
proof -
  have "lookup_by t_reference ([] @ ''['' @ ledger_code_text APPEND_ONLY @ '']'' @ []) (transactions demo_start) = None"
    by (simp add: demo_start_def initial_db_def)
  from code_in_reference_hijacks [OF this, of "\<lambda>t. t" "\<lambda>e. []" "''/v1/transactions/[LX001]''"] show ?thesis by auto
qed

end
