(* ===== verification/Runtime.thy ===== *)
theory Runtime
  imports Api Errors
begin

text \<open>
  What surrounds the API: the validation of the environment (config/env.validation.ts), the allowed
  origins (config/cors.util.ts), the simulated operator (provider-simulator) and the health check. The
  URL check and the messages of class-validator are parameters.
\<close>

section \<open>env.validation.ts\<close>

definition is_base64url_char :: "char \<Rightarrow> bool" where
  "is_base64url_char c \<longleftrightarrow> is_upper c \<or> is_lower c \<or> is_digit c \<or> c = CHR ''_'' \<or> c = CHR ''-''"

text \<open>\<open>/^[A-Za-z0-9_-]{43,}$/\<close>\<close>

definition API_KEY_FORMAT :: "string \<Rightarrow> bool" where
  "API_KEY_FORMAT s \<longleftrightarrow> 43 \<le> length s \<and> list_all is_base64url_char s"

text \<open>\<open>@IsOptional()\<close>: an absent variable passes.\<close>

definition absent_or :: "(string \<Rightarrow> bool) \<Rightarrow> string option \<Rightarrow> bool" where
  "absent_or P v = (case v of None \<Rightarrow> True | Some s \<Rightarrow> P s)"

text \<open>\<open>@IsInt() @Min(lo) @Max(hi)\<close> on the converted number.\<close>

definition is_int_between :: "rat \<Rightarrow> rat \<Rightarrow> string \<Rightarrow> bool" where
  "is_int_between lo hi s =
    (case Number_of s of
       None \<Rightarrow> False
     | Some q \<Rightarrow> of_int \<lfloor>q\<rfloor> = q \<and> lo \<le> q \<and> q \<le> hi)"

definition is_flag :: "string \<Rightarrow> bool" where
  "is_flag s \<longleftrightarrow> s = ''true'' \<or> s = ''false''"

record environment_variables =
  ev_database_url :: "string option"
  ev_app_database_url :: string
  ev_database_pool_max :: "rat option"
  ev_redis_url :: "string option"
  ev_port :: "rat option"
  ev_expiry_default :: "rat option"
  ev_expiry :: "provider \<Rightarrow> rat option"
  ev_simulator_enabled :: "string option"
  ev_simulator_failure_rate :: "rat option"
  ev_expiration_cron_enabled :: "string option"
  ev_cors_allowed_origins :: "string option"
  ev_demo_merchant_api_key :: "string option"
  ev_demo_analyst_api_key :: "string option"

text \<open>The variables in the order of the class, each with its check.\<close>

definition environment_checks :: "(string list \<Rightarrow> string \<Rightarrow> bool) \<Rightarrow> (string \<Rightarrow> string option) \<Rightarrow> (string \<times> bool) list" where
  "environment_checks is_url config =
    [(''DATABASE_URL'', absent_or (is_url [''postgresql'', ''postgres'']) (config ''DATABASE_URL'')),
     (''APP_DATABASE_URL'', (case config ''APP_DATABASE_URL'' of None \<Rightarrow> False | Some s \<Rightarrow> is_url [''postgresql'', ''postgres''] s)),
     (''DATABASE_POOL_MAX'', absent_or (is_int_between 1 100) (config ''DATABASE_POOL_MAX'')),
     (''REDIS_URL'', absent_or (is_url [''redis'']) (config ''REDIS_URL'')),
     (''PORT'', absent_or (is_int_between 1 65535) (config ''PORT'')),
     (''PAYMENT_EXPIRY_MINUTES_DEFAULT'', absent_or (is_int_between 1 1440) (config ''PAYMENT_EXPIRY_MINUTES_DEFAULT'')),
     (''PAYMENT_EXPIRY_MINUTES_ORANGE_MONEY'', absent_or (is_int_between 1 1440) (config ''PAYMENT_EXPIRY_MINUTES_ORANGE_MONEY'')),
     (''PAYMENT_EXPIRY_MINUTES_MTN_MOMO'', absent_or (is_int_between 1 1440) (config ''PAYMENT_EXPIRY_MINUTES_MTN_MOMO'')),
     (''PAYMENT_EXPIRY_MINUTES_WAVE'', absent_or (is_int_between 1 1440) (config ''PAYMENT_EXPIRY_MINUTES_WAVE'')),
     (''PAYMENT_EXPIRY_MINUTES_MOOV_MONEY'', absent_or (is_int_between 1 1440) (config ''PAYMENT_EXPIRY_MINUTES_MOOV_MONEY'')),
     (''PROVIDER_SIMULATOR_ENABLED'', absent_or is_flag (config ''PROVIDER_SIMULATOR_ENABLED'')),
     (''PROVIDER_SIMULATOR_FAILURE_RATE'', absent_or (is_int_between 0 100) (config ''PROVIDER_SIMULATOR_FAILURE_RATE'')),
     (''EXPIRATION_CRON_ENABLED'', absent_or is_flag (config ''EXPIRATION_CRON_ENABLED'')),
     (''CORS_ALLOWED_ORIGINS'', True),
     (''DEMO_MERCHANT_API_KEY'', absent_or API_KEY_FORMAT (config ''DEMO_MERCHANT_API_KEY'')),
     (''DEMO_ANALYST_API_KEY'', absent_or API_KEY_FORMAT (config ''DEMO_ANALYST_API_KEY''))]"

text \<open>A numeric variable as the program reads it later (its text is converted where it is used).\<close>

definition config_number :: "(string \<Rightarrow> string option) \<Rightarrow> string \<Rightarrow> rat option" where
  "config_number config k = (case config k of None \<Rightarrow> None | Some s \<Rightarrow> Number_of s)"

definition environment_of :: "(string \<Rightarrow> string option) \<Rightarrow> environment_variables" where
  "environment_of config =
    \<lparr>ev_database_url = config ''DATABASE_URL'', ev_app_database_url = the (config ''APP_DATABASE_URL''),
     ev_database_pool_max = config_number config ''DATABASE_POOL_MAX'', ev_redis_url = config ''REDIS_URL'',
     ev_port = config_number config ''PORT'',
     ev_expiry_default = config_number config ''PAYMENT_EXPIRY_MINUTES_DEFAULT'',
     ev_expiry = (\<lambda>p. config_number config (expiry_env_key p)),
     ev_simulator_enabled = config ''PROVIDER_SIMULATOR_ENABLED'',
     ev_simulator_failure_rate = config_number config ''PROVIDER_SIMULATOR_FAILURE_RATE'',
     ev_expiration_cron_enabled = config ''EXPIRATION_CRON_ENABLED'',
     ev_cors_allowed_origins = config ''CORS_ALLOWED_ORIGINS'',
     ev_demo_merchant_api_key = config ''DEMO_MERCHANT_API_KEY'',
     ev_demo_analyst_api_key = config ''DEMO_ANALYST_API_KEY''\<rparr>"

fun join_lines :: "string list \<Rightarrow> string" where
  "join_lines [] = []"
| "join_lines [s] = s"
| "join_lines (s # t # ts) = s @ [CHR 0x0A] @ ''  - '' @ join_lines (t # ts)"

definition validate_environment ::
    "(string list \<Rightarrow> string \<Rightarrow> bool) \<Rightarrow> (string \<Rightarrow> string) \<Rightarrow> (string \<Rightarrow> string option) \<Rightarrow> app_error + environment_variables" where
  "validate_environment is_url constraints config =
    (let errors = map fst (filter (\<lambda>c. \<not> snd c) (environment_checks is_url config)) in
     if errors \<noteq> []
     then Inl (Js_Error (''Variables d'environnement invalides :'' @ [CHR 0x0A] @ ''  - '' @ join_lines (map constraints errors)))
     else Inr (environment_of config))"

section \<open>cors.util.ts\<close>

datatype cors_origins = Any_Origin | Only "string list"

fun split_commas :: "string \<Rightarrow> string list" where
  "split_commas [] = [[]]"
| "split_commas (c # cs) =
    (if c = CHR '','' then [] # split_commas cs
     else (case split_commas cs of [] \<Rightarrow> [[c]] | s # ss \<Rightarrow> (c # s) # ss))"

definition resolveCorsOrigins :: "string option \<Rightarrow> cors_origins" where
  "resolveCorsOrigins raw =
    (case raw of
       None \<Rightarrow> Any_Origin
     | Some s \<Rightarrow>
        (let trimmed = js_trim s in
         if trimmed = [] then Any_Origin
         else Only (filter (\<lambda>origin. origin \<noteq> []) (map js_trim (split_commas trimmed)))))"

section \<open>provider-simulator\<close>

datatype job_name = Acknowledge | Settle | Other_Job string

record callback_job =
  cj_name :: job_name
  cj_reference :: string

text \<open>\<open>scheduleCallbacks\<close>: the two jobs with their delays; the draws are numbers from 0 to 1, 1 excluded.\<close>

definition randomDelayMs :: "rat \<Rightarrow> int \<Rightarrow> int \<Rightarrow> int" where
  "randomDelayMs draw minMs maxMs = minMs + \<lfloor>draw * of_int (maxMs - minMs)\<rfloor>"

definition scheduleCallbacks :: "rat \<Rightarrow> rat \<Rightarrow> string \<Rightarrow> (callback_job \<times> int) list" where
  "scheduleCallbacks draw1 draw2 reference =
    (let ackDelay = randomDelayMs draw1 1000 3000;
         settleDelay = ackDelay + randomDelayMs draw2 2000 6000
     in [(\<lparr>cj_name = Acknowledge, cj_reference = reference\<rparr>, ackDelay),
         (\<lparr>cj_name = Settle, cj_reference = reference\<rparr>, settleDelay)])"

definition DEFAULT_FAILURE_RATE_PERCENT :: rat where
  "DEFAULT_FAILURE_RATE_PERCENT = 10"

text \<open>
  The transaction is read in one state (\<open>seen\<close>) and the transition runs in a later one (\<open>d\<close>). Every
  error of the transition is swallowed: a lost race silently, any other with a line in the log.
\<close>

definition transitionIfStillAt ::
    "uuid \<Rightarrow> uuid \<Rightarrow> timestamp \<Rightarrow> string \<Rightarrow> transaction_status \<Rightarrow> transaction_status \<Rightarrow> db \<Rightarrow> db
      \<Rightarrow> (app_error + unit) \<times> db" where
  "transitionIfStillAt eid xid now reference expectedFrom target seen d =
    (case findByReferenceOrThrow reference seen of
       Inl e \<Rightarrow> (Inl e, d)
     | Inr current \<Rightarrow>
        if t_status current \<noteq> expectedFrom then (Inr (), d)
        else (Inr (), snd (transition eid xid now reference
               \<lparr>ts_status = target, ts_reason = Some (''Callback op'' @ [CHR 0xE9] @ ''rateur simul'' @ [CHR 0xE9]),
                ts_provider_reference = None\<rparr> (t_version current) d)))"

definition process_job ::
    "(string \<Rightarrow> rat option) \<Rightarrow> rat \<Rightarrow> uuid \<Rightarrow> uuid \<Rightarrow> timestamp \<Rightarrow> callback_job \<Rightarrow> db \<Rightarrow> db \<Rightarrow> (app_error + unit) \<times> db" where
  "process_job config draw eid xid now job seen d =
    (case cj_name job of
       Acknowledge \<Rightarrow> transitionIfStillAt eid xid now (cj_reference job) INITIATED PENDING seen d
     | Settle \<Rightarrow>
        (let failureRate = (case config ''PROVIDER_SIMULATOR_FAILURE_RATE'' of Some r \<Rightarrow> r | None \<Rightarrow> DEFAULT_FAILURE_RATE_PERCENT);
             target = (if draw * 100 < failureRate then FAILED else SUCCEEDED)
         in transitionIfStillAt eid xid now (cj_reference job) PENDING target seen d)
     | Other_Job _ \<Rightarrow> (Inr (), d))"

section \<open>health.controller.ts\<close>

text \<open>
  A \<open>ServiceUnavailableException\<close> made of an object: its members are status and detail, it has no
  message; the text NestJS gives to such an exception is a parameter.
\<close>

definition health_check :: "string \<Rightarrow> bool \<Rightarrow> js_exception + (string \<times> string) list" where
  "health_check default_message database_answers =
    (if database_answers then Inr [(''status'', ''ok'')]
     else Inl \<lparr>ex_message = default_message, ex_original = None,
            ex_http = Some \<lparr>he_status = 503, he_name = http_exception_name 503, he_message = Absent\<rparr>\<rparr>)"

section \<open>Properties\<close>

lemma environment_valid:
  assumes "validate_environment is_url constraints config = Inr ev"
  shows "\<forall>c \<in> set (environment_checks is_url config). snd c" "ev = environment_of config"
  using assms by (auto simp: validate_environment_def Let_def filter_empty_conv split: if_splits)

lemma int_between_number:
  assumes "absent_or (is_int_between lo hi) (config k)" "config_number config k = Some q"
  shows "lo \<le> q \<and> q \<le> hi"
  using assms by (auto simp: absent_or_def config_number_def is_int_between_def split: option.splits)

lemma resolve_cases:
  assumes "resolveExpiryMinutes config p = q"
  shows "config (expiry_env_key p) = Some q \<or> config ''PAYMENT_EXPIRY_MINUTES_DEFAULT'' = Some q \<or> q = 15"
  using assms by (auto simp: resolveExpiryMinutes_def FALLBACK_EXPIRY_MINUTES_def split: option.splits)

text \<open>
  In an environment that passed the validation every payment has between one minute and one day to be
  confirmed, whatever its provider: the instant of expiry lies strictly in the future of the application clock.
\<close>

theorem validated_expiry_bounds:
  assumes "validate_environment is_url constraints config = Inr ev"
  shows "1 \<le> resolveExpiryMinutes (config_number config) p \<and> resolveExpiryMinutes (config_number config) p \<le> 1440
    \<and> now + 60000 \<le> computeExpiresAt now (resolveExpiryMinutes (config_number config) p)
    \<and> computeExpiresAt now (resolveExpiryMinutes (config_number config) p) \<le> now + 86400000"
proof -
  let ?q = "resolveExpiryMinutes (config_number config) p"
  have checks: "absent_or (is_int_between 1 1440) (config (expiry_env_key p))"
    "absent_or (is_int_between 1 1440) (config ''PAYMENT_EXPIRY_MINUTES_DEFAULT'')"
    using environment_valid(1) [OF assms] by (cases p; simp add: environment_checks_def)+
  have q: "1 \<le> ?q \<and> ?q \<le> 1440"
    using resolve_cases [OF refl, of "config_number config" p]
    by (elim disjE) (use int_between_number [of 1 1440 config "expiry_env_key p" ?q]
        int_between_number [of 1 1440 config "''PAYMENT_EXPIRY_MINUTES_DEFAULT''" ?q] checks in auto)
  then have "of_int 60000 \<le> ?q * 60000" "?q * 60000 \<le> of_int 86400000" by simp_all
  then have "60000 \<le> \<lfloor>?q * 60000\<rfloor>" "\<lfloor>?q * 60000\<rfloor> \<le> 86400000"
    by (simp_all only: le_floor_iff floor_le_iff)
  then show ?thesis using q by (simp add: computeExpiresAt_def)
qed

definition demo_environment :: "string \<Rightarrow> string option" where
  "demo_environment k =
    (if k = ''APP_DATABASE_URL'' then Some ''postgresql://app'' else if k = ''PAYMENT_EXPIRY_MINUTES_WAVE'' then Some ''30'' else None)"

theorem validated_expiry_bounds_witness:
  "1 \<le> resolveExpiryMinutes (config_number demo_environment) WAVE \<and> resolveExpiryMinutes (config_number demo_environment) WAVE \<le> 1440"
proof -
  have "dec_of_int 30 = ''30''" by (simp add: dec_of_int_def digit_char_def dec_of_nat.simps char_of_def bit_Suc_0_iff)
  then have "Number_of ''30'' = Some 30" using Number_of_dec [of 30] by simp
  then have "validate_environment (\<lambda>ps s. True) (\<lambda>n. n) demo_environment = Inr (environment_of demo_environment)"
    by (simp add: validate_environment_def environment_checks_def demo_environment_def absent_or_def is_int_between_def)
  from validated_expiry_bounds [OF this, of WAVE 0] show ?thesis by blast
qed

text \<open>
  The simulated operator never forces a state: a job changes the database only when the transaction,
  at the moment the transition runs, is still exactly the row the job has read, in the status the job
  starts from.
\<close>

theorem simulator_never_forces:
  assumes "inj uid" "reachable uid n0 seen" "rtranclp service_step seen d"
    "process_job config draw eid xid now job seen d = (out, d')" "d' \<noteq> d"
  shows "\<exists>row. lookup_by t_reference (cj_reference job) (transactions seen) = Some row
    \<and> lookup_by t_reference (cj_reference job) (transactions d) = Some row
    \<and> t_status row = (if cj_name job = Acknowledge then INITIATED else PENDING) \<and> out = Inr ()"
proof -
  let ?ref = "cj_reference job"
  have ok: "system_ok seen" using reachable_system_ok [OF assms(2,1)] .
  define from_status where "from_status = (if cj_name job = Acknowledge then INITIATED else PENDING)"
  obtain target where run: "transitionIfStillAt eid xid now ?ref from_status target seen d = (out, d')"
    using assms(4,5) by (cases "cj_name job") (auto simp: process_job_def Let_def from_status_def)
  then obtain row where row: "lookup_by t_reference ?ref (transactions seen) = Some row" "t_status row = from_status" "out = Inr ()"
    and d': "\<exists>dto. d' = snd (transition eid xid now ?ref dto (t_version row) d)"
    using assms(5) by (auto simp: transitionIfStillAt_def findByReferenceOrThrow_def split: option.splits if_splits)
  note read = lookup_by_SomeD [OF row(1)]
  obtain t' where t': "t' \<in> set (transactions d)" "row_evolves row t'" using row_later [OF assms(3) ok read(1)] .
  have "distinct (map t_reference (transactions d))"
    using steps_evolve [OF assms(3) ok] by (simp add: system_ok_def tables_ok_def keys_ok_def)
  moreover have "t_reference t' = ?ref" using t'(2) read(2) by (simp add: row_evolves_def frozen_columns_kept_def)
  ultimately have found: "lookup_by t_reference ?ref (transactions d) = Some t'"
    using t'(1) lookup_by_distinct [of t_reference "transactions d" t'] by simp
  have "t_version t' = t_version row"
  proof (rule ccontr)
    assume "t_version t' \<noteq> t_version row"
    from transition_other_version [OF found this] d' assms(5) show False by (metis snd_conv)
  qed
  then have "t' = row" using t'(2) by (simp add: row_evolves_def)
  then show ?thesis using row found by (simp add: from_status_def)
qed

theorem simulator_never_forces_witness:
  "\<exists>row. lookup_by t_reference ''TXN-20260922-010101'' (transactions demo_created) = Some row \<and> t_status row = INITIATED"
proof -
  let ?job = "\<lparr>cj_name = Acknowledge, cj_reference = ''TXN-20260922-010101''\<rparr>"
  obtain out d' where run: "process_job (\<lambda>k. None) 0 ''e2000'' ''x2000'' 2000 ?job demo_created demo_created = (out, d')"
    by (cases "process_job (\<lambda>k. None) 0 ''e2000'' ''x2000'' 2000 ?job demo_created demo_created") auto
  have "transactions (snd (process_job (\<lambda>k. None) 0 ''e2000'' ''x2000'' 2000 ?job demo_created demo_created))
      = [demo_row ''t1'' ''TXN-20260922-010101'' ''k1'' 1000 PENDING 0 2 2000]"
    by (simp add: process_job_def transitionIfStillAt_def findByReferenceOrThrow_def eval_simps demo_defs demo_created_def)
  then have "d' \<noteq> demo_created" using run by (auto simp: demo_created_def demo_db_def demo_row_def)
  from simulator_never_forces [OF inj_demo_uid reach_demo_created rtranclp.rtrancl_refl run this] show ?thesis by auto
qed

end
