(* ===== verification/Acceptance.thy ===== *)
theory Acceptance
  imports Bank Runtime
begin

text \<open>
  What the services accept. The other theories show what holds when a call returns; here are the calls that
  do return: the accounts a booking needs are always there, its entry and postings go through and pass the check at
  COMMIT, and with the UPDATE of theory Sweep this gives exactly which status changes are accepted.
\<close>

section \<open>The accounts are there\<close>

definition has_account :: "string \<Rightarrow> db \<Rightarrow> bool" where
  "has_account c d \<longleftrightarrow> (\<exists>a \<in> set (accounts d). a_code a = c \<and> a_is_active a)"

definition staffed :: "db \<Rightarrow> bool" where
  "staffed d \<longleftrightarrow> (\<forall>p. has_account (clearingCode p) d) \<and> has_account FEES_CODE d
   \<and> (\<forall>m \<in> set (merchants d). has_account (merchantPayableAccountCode (m_code m)) d)"

lemma staffed_cong: "accounts d' = accounts d \<Longrightarrow> merchants d' = merchants d \<Longrightarrow> staffed d \<Longrightarrow> staffed d'"
  by (simp add: staffed_def has_account_def)

lemma staffed_merchant:
  assumes "create_merchant_body mid aid dto s d = Inr (m, d')" "staffed d"
  shows "staffed d'"
proof -
  obtain a where "accounts d' = accounts d @ [a]" "merchants d' = merchants d @ [m]" "a_is_active a"
    "a_code a = merchantPayableAccountCode (m_code m)"
    using assms(1) by (auto simp: create_merchant_body_def result_simps dest!: insert_merchant_InrD insert_account_InrD)
  then show ?thesis using assms(2) by (auto simp: staffed_def has_account_def)
qed

definition same_chart :: "db \<Rightarrow> db \<Rightarrow> bool" where
  "same_chart d d' \<longleftrightarrow> accounts d' = accounts d \<and> merchants d' = merchants d"

lemma same_chart_trans: "same_chart a b \<Longrightarrow> same_chart b c \<Longrightarrow> same_chart a c"
  by (simp add: same_chart_def)

lemma same_chart_update: "update_transaction s i f d = Inr (r, d') \<Longrightarrow> same_chart d d'"
  using idle_update by (auto simp: idle_def same_chart_def)

lemma same_chart_entry: "books_entry d eid tid cur ls d' \<Longrightarrow> same_chart d d'"
  using books_entry_keeps(2,3) by (simp add: same_chart_def)

lemma same_chart_bookings:
  "bookPaymentSuccess s eid t d = Inr d' \<Longrightarrow> same_chart d d'"
  "bookRefundSuccess s eid t d = Inr d' \<Longrightarrow> same_chart d d'"
  "bookDisputeReversal s eid t d = Inr (r, d') \<Longrightarrow> same_chart d d'"
  by (erule bookPaymentSuccess_books bookRefundSuccess_books bookDisputeReversal_books,
      blast intro: same_chart_trans same_chart_update same_chart_entry)+

lemma transition_keeps_accounts:
  assumes "transition eid xid now ref dto v d = (r, d')"
  shows "same_chart d d'"
proof (cases r)
  case (Inl e)
  then show ?thesis using transition_Inl [of eid xid now ref dto v d e d'] assms by (auto simp: same_chart_def)
next
  case (Inr t)
  show ?thesis
    using assms [unfolded Inr]
  proof (rule transition_Inr, goal_cases)
    case (1 row u d1 d2 d3)
    have "same_chart d1 d2" using 1(5) same_chart_bookings by (auto simp: same_chart_def split: if_splits)
    moreover have "same_chart d2 d3" using 1(6) same_chart_bookings by (auto simp: same_chart_def split: if_splits)
    ultimately show ?case using same_chart_update [OF 1(4)] 1(8) by (simp add: same_chart_def)
  qed
qed

lemma step_staffed:
  assumes "service_step d d'" "staffed d"
  shows "staffed d'"
  using assms(1)
proof (cases rule: step_idle)
  case (merchant mid aid now dto)
  show ?thesis
  proof (cases "create_merchant_body mid aid dto \<lparr>s_tx_id = next_tx_id d, s_now = now, s_actor = None\<rparr> d")
    case (Inl e)
    then show ?thesis using merchant assms(2) by (simp add: create_merchant_def sql_transaction_run)
  next
    case (Inr md)
    then have "staffed (snd md)" using staffed_merchant [of mid aid dto _ d "fst md" "snd md"] assms(2) by simp
    then have "staffed ((snd md)\<lparr>next_tx_id := n, deferred := q\<rparr>)" for n q by (auto intro: staffed_cong)
    then show ?thesis
      using merchant Inr assms(2) by (auto simp: create_merchant_def sql_transaction_run split: prod.split sum.split)
  qed
next
  case (status eid xid now ref dto version)
  then show ?thesis
    using transition_keeps_accounts [OF prod.collapse [symmetric]] staffed_cong assms(2) by (auto simp: same_chart_def)
next
  case other
  then show ?thesis using staffed_cong assms(2) by (simp add: idle_def)
qed

lemma initial_staffed: "staffed (initial_db uid now)"
proof -
  have "has_account (clearingCode p) (initial_db uid now)" for p
    by (cases p) (simp_all add: has_account_def initial_db_def chart_account_def clearingCode_simps)
  then show ?thesis
    by (simp add: staffed_def has_account_def initial_db_def chart_account_def FEES_CODE_def merchantPayableAccountCode_def)
qed

lemma reachable_staffed: "reachable uid now d \<Longrightarrow> staffed d"
  by (induction rule: reachable.induct) (auto intro: initial_staffed step_staffed)

section \<open>Statements that go through\<close>

lemma account_found:
  assumes "has_account c d" "keys_ok d" "accounts_xof d"
  obtains a where "lookup_by a_code c (accounts d) = Some a" "lookup_by a_id (a_id a) (accounts d) = Some a"
    "a_is_active a" "a_currency a = ''XOF''"
proof -
  obtain a where a: "a \<in> set (accounts d)" "a_code a = c" "a_is_active a" using assms(1) by (auto simp: has_account_def)
  have "lookup_by a_code (a_code a) (accounts d) = Some a" "lookup_by a_id (a_id a) (accounts d) = Some a"
    using lookup_by_distinct a(1) keys_okD(5,6) [OF assms(2)] by fast+
  moreover have "a_currency a = ''XOF''" using assms(3) a(1) by (simp add: accounts_xof_def DEFAULT_CURRENCY_def)
  ultimately show thesis using that a by blast
qed

lemma idOf_account:
  assumes "has_account c d" "keys_ok d" "accounts_xof d" "c \<in> set codes"
  shows "\<exists>i. idOf (findAccounts codes d) c = Inr i"
  using account_found [OF assms(1-3)] idOf_found [OF assms(4)] by metis

definition can_post :: "session \<Rightarrow> db \<Rightarrow> ledger_posting \<Rightarrow> bool" where
  "can_post s d p \<longleftrightarrow> 0 < p_amount p \<and> in_int8 (p_amount p) \<and> is_currency (p_currency p)
   \<and> (\<exists>a. lookup_by a_id (p_account_id p) (accounts d) = Some a \<and> a_is_active a \<and> a_currency a = p_currency p)
   \<and> (\<exists>e. lookup_by e_id (p_entry_id p) (entries d) = Some e \<and> e_created_tx_id e = s_tx_id s)"

lemma posting_succeeds:
  assumes "can_post s d p"
  shows "insert_posting s p d = Inr (d\<lparr>postings := postings d @ [p], deferred := deferred d @ [p_entry_id p]\<rparr>)"
proof -
  obtain a e where found: "lookup_by a_id (p_account_id p) (accounts d) = Some a" "lookup_by e_id (p_entry_id p) (entries d) = Some e"
    and a: "a_is_active a" "a_currency a = p_currency p" "e_created_tx_id e = s_tx_id s"
    using assms by (auto simp: can_post_def)
  have "p_account_id p \<in> a_id ` set (accounts d)" "p_entry_id p \<in> e_id ` set (entries d)"
    using found lookup_by_in lookup_by_key by (metis image_eqI)+
  then show ?thesis
    using assms found a
    by (simp add: insert_posting_def postings_before_insert_def check_all.simps can_post_def is_currency_def)
qed

lemma postings_succeed:
  "\<forall>p \<in> set ps. can_post s d p \<Longrightarrow>
    insert_postings s ps d = Inr (d\<lparr>postings := postings d @ ps, deferred := deferred d @ map p_entry_id ps\<rparr>)"
proof (induction ps arbitrary: d)
  case Nil
  then show ?case by (simp add: insert_postings_def)
next
  case (Cons p ps)
  let ?d = "d\<lparr>postings := postings d @ [p], deferred := deferred d @ [p_entry_id p]\<rparr>"
  have "\<forall>q \<in> set ps. can_post s ?d q" using Cons.prems by (simp add: can_post_def)
  then show ?case using Cons.IH [of ?d] Cons.prems by (simp add: insert_postings_def posting_succeeds)
qed

text \<open>The entry and the lines of a booking, when the lines are positive amounts on accounts that are there.\<close>

lemma booking_succeeds:
  assumes "keys_ok d" "accounts_xof d" "length descr \<le> 500" "eid \<notin> e_id ` set (entries d)" "tid \<in> t_id ` set (transactions d)"
    and lines: "list_all2 (writes_line (accounts d) eid ''XOF'') ls ps"
      "\<forall>l \<in> set ls. 0 < snd (snd l) \<and> in_int8 (snd (snd l)) \<and> has_account (fst l) d"
  shows "\<exists>e d1 d2. insert_entry s eid descr (Some tid) None d = Inr (e, d1) \<and> e_id e = eid \<and> insert_postings s ps d1 = Inr d2"
proof -
  let ?e = "\<lparr>e_id = eid, e_description = descr, e_transaction_id = Some tid, e_reverses_entry_id = None,
    e_created_tx_id = s_tx_id s, e_created_at = s_now s\<rparr>"
  let ?d = "d\<lparr>entries := entries d @ [?e], deferred := deferred d @ [eid]\<rparr>"
  have entry: "insert_entry s eid descr (Some tid) None d = Inr (?e, ?d)"
    using assms(3-5) by (simp add: insert_entry_def Let_def check_all.simps)
  have found: "lookup_by e_id eid (entries ?d) = Some ?e"
    using assms(4) lookup_by_eq_None [of e_id eid "entries d"] by (simp add: table_simps)
  have "can_post s ?d p" if p: "p \<in> set ps" for p
  proof -
    obtain l where l: "l \<in> set ls" "writes_line (accounts d) eid ''XOF'' l p"
      using lines(1) p list_all2_nthD2 [OF lines(1)] by (metis in_set_conv_nth list_all2_lengthD)
    then obtain a where a: "lookup_by a_code (fst l) (accounts d) = Some a"
      "p = posting eid (a_id a) (fst (snd l)) (snd (snd l)) ''XOF''" by (auto simp: writes_line_def)
    obtain b where "lookup_by a_code (fst l) (accounts d) = Some b" "lookup_by a_id (a_id b) (accounts d) = Some b"
      "a_is_active b" "a_currency b = ''XOF''"
      using account_found [of "fst l" d] lines(2) l(1) assms(1,2) by metis
    then show ?thesis
      using l(1) a lines(2) found by (simp add: can_post_def posting_def is_currency_def is_upper_def char_code_def)
  qed
  then show ?thesis using entry postings_succeed [of ps s ?d] by fastforce
qed

section \<open>The bookings go through\<close>

text \<open>What a booking finds in a reachable state: its accounts, the merchant, a fresh entry id.\<close>

definition can_book :: "uuid \<Rightarrow> transaction \<Rightarrow> db \<Rightarrow> bool" where
  "can_book eid t d \<longleftrightarrow> keys_ok d \<and> accounts_xof d \<and> staffed d \<and> eid \<notin> e_id ` set (entries d)
   \<and> t_id t \<in> t_id ` set (transactions d) \<and> t_merchant_id t \<in> m_id ` set (merchants d)
   \<and> length (t_reference t) \<le> 40 \<and> t_currency t = ''XOF''"

lemma can_book_merchant:
  assumes "can_book eid t d"
  obtains m where "lookup_by m_id (t_merchant_id t) (merchants d) = Some m" "has_account (clearingCode (t_provider t)) d"
    "has_account FEES_CODE d" "has_account (merchantPayableAccountCode (m_code m)) d"
proof -
  obtain m where m: "lookup_by m_id (t_merchant_id t) (merchants d) = Some m"
    using assms lookup_by_eq_None [of m_id "t_merchant_id t" "merchants d"] by (auto simp: can_book_def)
  show thesis using that [OF m] lookup_by_in [OF m] assms by (simp add: can_book_def staffed_def)
qed

lemma int8_below: "in_int8 b \<Longrightarrow> 0 \<le> a \<Longrightarrow> a \<le> b \<Longrightarrow> in_int8 a"
  by (simp add: in_int8_def)

lemma payment_succeeds:
  assumes "can_book eid t d" "0 < t_amount t" "in_int8 (t_amount t)"
  shows "\<exists>d'. bookPaymentSuccess s eid t d = Inr d'"
proof -
  obtain m where m: "lookup_by m_id (t_merchant_id t) (merchants d) = Some m" "has_account (clearingCode (t_provider t)) d"
    "has_account FEES_CODE d" "has_account (merchantPayableAccountCode (m_code m)) d"
    using can_book_merchant [OF assms(1)] .
  let ?codes = "[clearingCode (t_provider t), merchantPayableAccountCode (m_code m), FEES_CODE]"
  have ok: "keys_ok d" "accounts_xof d" using assms(1) by (simp_all add: can_book_def)
  obtain ci pay_id fees_id where ids: "idOf (findAccounts ?codes d) (clearingCode (t_provider t)) = Inr ci"
    "idOf (findAccounts ?codes d) (merchantPayableAccountCode (m_code m)) = Inr pay_id"
    "idOf (findAccounts ?codes d) FEES_CODE = Inr fees_id"
    using idOf_account [OF m(2) ok, of ?codes] idOf_account [OF m(4) ok, of ?codes] idOf_account [OF m(3) ok, of ?codes] by auto
  let ?c = "computeCommission (t_amount t)"
  let ?fees = "if 0 < ?c then [posting eid fees_id CREDIT ?c (t_currency t)] else []"
  let ?ps = "[posting eid ci DEBIT (t_amount t) (t_currency t), posting eid pay_id CREDIT (t_amount t - ?c) (t_currency t)] @ ?fees"
  have lines: "list_all2 (writes_line (accounts d) eid ''XOF'') (payment_lines (t, m)) ?ps"
    using ids assms(1) by (auto simp: payment_lines_def idOf_found writes_line_def can_book_def)
  have amounts: "\<forall>l \<in> set (payment_lines (t, m)). 0 < snd (snd l) \<and> in_int8 (snd (snd l)) \<and> has_account (fst l) d"
    using assms(2,3) commission_bounds [OF assms(2)] m int8_below [OF assms(3)] by (auto simp: payment_lines_def split: if_splits)
  have "length (''Paiement '' @ t_reference t) \<le> 500" using assms(1) by (simp add: can_book_def)
  then obtain e d1 d2 where run: "insert_entry s eid (''Paiement '' @ t_reference t) (Some (t_id t)) None d = Inr (e, d1)"
    "e_id e = eid" "insert_postings s ?ps d1 = Inr d2"
    using booking_succeeds [OF ok, of "''Paiement '' @ t_reference t"] lines amounts assms(1) unfolding can_book_def by blast
  have "(if 0 < ?c then andThen (idOf (findAccounts ?codes d) FEES_CODE) (\<lambda>fees_id. Inr [posting (e_id e) fees_id CREDIT ?c (t_currency t)])
       else Inr []) = Inr ?fees" using ids(3) run(2) by simp
  then show ?thesis
    using run ids m(1) unfolding bookPaymentSuccess_def findMerchantOrThrow_def Let_def by (simp del: append_Cons)
qed

lemma deferred_checks_hold: "\<forall>i \<in> set (deferred d). assert_entry_valid d i = Inr () \<Longrightarrow> deferred_checks d = Inr ()"
proof -
  have "\<forall>i \<in> set ids. assert_entry_valid d i = Inr () \<Longrightarrow> fold_result (\<lambda>eid _. assert_entry_valid d eid) ids () = Inr ()" for ids
    by (induction ids) simp_all
  then show "\<forall>i \<in> set (deferred d). assert_entry_valid d i = Inr () \<Longrightarrow> deferred_checks d = Inr ()"
    by (simp add: deferred_checks_def)
qed

lemma booked_commits:
  assumes "books_entry d1 eid tid cur ls d2" "deferred d1 = []" "assert_entry_valid d2 eid = Inr ()"
  shows "deferred_checks d2 = Inr ()"
proof (rule deferred_checks_hold)
  obtain ps where "deferred d2 = eid # map p_entry_id ps" "list_all2 (writes_line (accounts d1) eid cur) ls ps"
    using assms(1,2) by (auto simp: books_entry_def)
  then have "set (deferred d2) \<subseteq> {eid}" using written_lines_entry [of "accounts d1" eid cur ls ps] by auto
  then show "\<forall>i \<in> set (deferred d2). assert_entry_valid d2 i = Inr ()" using assms(3) by auto
qed

lemma payback_succeeds:
  assumes "can_book eid t d" "lookup_by m_id (t_merchant_id t) (merchants d) = Some m" "0 < amount" "in_int8 amount"
    "length descr \<le> 500" "deferred d = []" "eid \<notin> p_entry_id ` set (postings d)"
  shows "\<exists>e d1 d2 ci pay_id. insert_entry s eid descr (Some (t_id t)) None d = Inr (e, d1)
    \<and> idOf (findAccounts [clearingCode (t_provider t), merchantPayableAccountCode (m_code m)] d)
        (merchantPayableAccountCode (m_code m)) = Inr pay_id
    \<and> idOf (findAccounts [clearingCode (t_provider t), merchantPayableAccountCode (m_code m)] d) (clearingCode (t_provider t)) = Inr ci
    \<and> insert_postings s [posting (e_id e) pay_id DEBIT amount (t_currency t), posting (e_id e) ci CREDIT amount (t_currency t)] d1 = Inr d2
    \<and> deferred_checks d2 = Inr ()"
proof -
  have m: "has_account (clearingCode (t_provider t)) d" "has_account (merchantPayableAccountCode (m_code m)) d"
    using can_book_merchant [OF assms(1)] assms(2) by auto
  let ?codes = "[clearingCode (t_provider t), merchantPayableAccountCode (m_code m)]"
  have ok: "keys_ok d" "accounts_xof d" using assms(1) by (simp_all add: can_book_def)
  obtain ci pay_id where ids: "idOf (findAccounts ?codes d) (clearingCode (t_provider t)) = Inr ci"
    "idOf (findAccounts ?codes d) (merchantPayableAccountCode (m_code m)) = Inr pay_id"
    using idOf_account [OF m(1) ok, of ?codes] idOf_account [OF m(2) ok, of ?codes] by auto
  let ?ps = "[posting eid pay_id DEBIT amount (t_currency t), posting eid ci CREDIT amount (t_currency t)]"
  have lines: "list_all2 (writes_line (accounts d) eid ''XOF'') (payback_lines ((t, m), amount)) ?ps"
    using ids assms(1) by (auto simp: payback_lines_def idOf_found writes_line_def can_book_def)
  have amounts: "\<forall>l \<in> set (payback_lines ((t, m), amount)). 0 < snd (snd l) \<and> in_int8 (snd (snd l)) \<and> has_account (fst l) d"
    using assms(3,4) m by (auto simp: payback_lines_def)
  obtain e d1 d2 where run: "insert_entry s eid descr (Some (t_id t)) None d = Inr (e, d1)" "e_id e = eid" "insert_postings s ?ps d1 = Inr d2"
    using booking_succeeds [OF ok assms(5)] lines amounts assms(1) unfolding can_book_def by blast
  note books = payback_books(1) [OF run(1) ids(2,1) run(3) [folded run(2)]]
  have "deferred_checks d2 = Inr ()"
    using booked_commits [OF books assms(6)] payback_booking.entry_valid [OF _ books] assms(3,7) by simp
  then show ?thesis using ids run by metis
qed

section \<open>Which status changes are accepted\<close>

text \<open>The money the change would move: the currency of the accounts, room on the payment, something left to take back.\<close>

definition refund_room :: "db \<Rightarrow> transaction \<Rightarrow> bool" where
  "refund_room d t =
    (case t_parent_transaction_id t of None \<Rightarrow> False
     | Some pid \<Rightarrow> (case lookup_by t_id pid (transactions d) of None \<Rightarrow> False
       | Some q \<Rightarrow> t_refunded_amount q + t_amount t \<le> t_amount q
           \<and> (if t_refunded_amount q + t_amount t = t_amount q then t_status q \<in> {SUCCEEDED, PARTIALLY_REFUNDED}
              else t_status q \<in> {SUCCEEDED, PARTIALLY_REFUNDED, DISPUTED})))"

definition money_fits :: "db \<Rightarrow> transaction \<Rightarrow> transaction_status \<Rightarrow> bool" where
  "money_fits d t st =
    (if st = SUCCEEDED \<and> t_status t = PENDING then t_currency t = ''XOF'' \<and> (t_type t = REFUND \<longrightarrow> refund_room d t)
     else if st = REVERSED \<and> t_status t = DISPUTED then t_currency t = ''XOF'' \<and> t_refunded_amount t < t_amount t
     else True)"

definition accepts :: "db \<Rightarrow> transaction \<Rightarrow> transaction_status \<Rightarrow> bool" where
  "accepts d t st \<longleftrightarrow> st = t_status t \<or> allowed (t_status t) st \<and> status_fits t st \<and> money_fits d t st"

lemma transition_commits:
  assumes "lookup_by t_reference ref (transactions d) = Some row" "t_version row = v"
    "\<not> (t_status row = EXPIRED \<and> ts_status dto = SUCCEEDED)"
    "update_transaction \<lparr>s_tx_id = next_tx_id d, s_now = now, s_actor = Some (transition_actor dto)\<rparr> (t_id row)
       (\<lambda>t. t\<lparr>t_status := ts_status dto\<rparr>) d = Inr (u, d1)"
    "(if ts_status dto = SUCCEEDED \<and> t_status row = PENDING
      then (if t_type row = PAYMENT
            then bookPaymentSuccess \<lparr>s_tx_id = next_tx_id d, s_now = now, s_actor = Some (transition_actor dto)\<rparr> eid u d1
            else bookRefundSuccess \<lparr>s_tx_id = next_tx_id d, s_now = now, s_actor = Some (transition_actor dto)\<rparr> eid u d1)
      else Inr d1) = Inr d2"
    "(if ts_status dto = REVERSED \<and> t_status row = DISPUTED
      then bookDisputeReversal \<lparr>s_tx_id = next_tx_id d, s_now = now, s_actor = Some (transition_actor dto)\<rparr> eid u d2
      else Inr (u, d2)) = Inr (t, d3)"
    "deferred_checks d3 = Inr ()"
  shows "\<exists>d'. transition eid xid now ref dto v d = (Inr t, d')"
proof -
  have "transition_body eid xid ref dto v \<lparr>s_tx_id = next_tx_id d, s_now = now, s_actor = Some (transition_actor dto)\<rparr> d
      = Inr (Updated t, d3)"
    unfolding transition_body_def assms(1) option.case assms(2) if_not_P [OF assms(3)] assms(4) andThen_simps prod.case assms(5,6)
    by simp
  then show ?thesis using assms(7) by (simp add: transition_def withActor_def sql_transaction_run)
qed

text \<open>A booked line is in the currency of its account, which is XOF.\<close>

lemma booked_currency:
  assumes "inj uid" "reachable uid n0 d'" "books_entry d1 eid tid cur ls d2" "ls \<noteq> []" "postings d' = postings d2"
  shows "cur = ''XOF''"
proof -
  obtain ps where ps: "postings d2 = postings d1 @ ps" "list_all2 (writes_line (accounts d1) eid cur) ls ps"
    using assms(3) by (auto simp: books_entry_def)
  then obtain p where p: "p \<in> set ps" "p_currency p = cur"
    using assms(4) written_lines_entry [OF ps(2)] by (cases ps) auto
  have "p \<in> set (postings d')" using p(1) ps(1) assms(5) by simp
  then obtain a where "a \<in> set (accounts d')" "a_currency a = p_currency p"
    using reachable_parts(4) [OF assms(1,2)] unfolding refs_ok_def by blast
  then show ?thesis
    using p reachable_system_ok [OF assms(2,1)] by (auto simp: system_ok_def accounting_ok_def accounts_xof_def DEFAULT_CURRENCY_def)
qed

text \<open>The payment of a refund, and where it is found after the refund's own row has changed.\<close>

lemma refund_parent:
  assumes "inj uid" "reachable uid n0 d" "row \<in> set (transactions d)" "t_type row = REFUND"
  obtains q where "q \<in> set (transactions d)" "t_parent_transaction_id row = Some (t_id q)" "t_id q \<noteq> t_id row"
    "lookup_by t_id (t_id q) (transactions d) = Some q"
proof -
  note parts = reachable_parts [OF assms(1,2)]
  obtain q where q: "q \<in> set (transactions d)" "t_parent_transaction_id row = Some (t_id q)"
    using parts(3) assms(3,4) by (auto simp: refund_parents_ok_def)
  have "q \<noteq> row" using parent_differs(1) [OF assms(1-4) q(2,1)] .
  then have "t_id q \<noteq> t_id row" using keys_okD(1) [OF parts(1)] q(1) assms(3) by (auto simp: distinct_map inj_on_def)
  then show thesis using that q lookup_by_distinct [OF keys_okD(1) [OF parts(1)] q(1)] by blast
qed

lemma can_book_update:
  assumes "update_transaction s i f d = Inr (r, d1)" "can_book eid t d"
  shows "can_book eid t d1"
proof -
  have keys: "keys_ok d1" using keys_ok_stmt [OF upd_transaction [OF assms(1)]] assms(2) by (simp add: can_book_def)
  have same: "accounts d1 = accounts d" "merchants d1 = merchants d" "entries d1 = entries d"
    by (rule update_transaction_facts [OF assms(1)], assumption)+
  have "transactions d1 = replace_by t_id i r (transactions d)" "t_id r = i"
    by (rule update_transaction_facts [OF assms(1)], assumption)+
  then have "map t_id (transactions d1) = map t_id (transactions d)" by (simp add: replace_by_def)
  then have "t_id ` set (transactions d1) = t_id ` set (transactions d)" by (metis set_map)
  then show ?thesis using keys same assms(2) staffed_cong [OF same(1,2)] by (simp add: can_book_def accounts_xof_def)
qed

text \<open>The UPDATE every status change starts with, and the state a booking finds after it.\<close>

lemma first_update:
  assumes "inj uid" "reachable uid n0 d" "lookup_by t_reference ref (transactions d) = Some row"
    "st = t_status row \<or> allowed (t_status row) st \<and> status_fits row st"
    "t_version row < 2147483646" "eid \<notin> e_id ` set (entries d)" "declared_actor s"
  obtains u d1 where "update_transaction s (t_id row) (\<lambda>t. t\<lparr>t_status := st\<rparr>) d = Inr (u, d1)"
    "u = row\<lparr>t_status := st, t_version := t_version row + 1, t_updated_at := s_now s\<rparr>"
    "transactions d1 = replace_by t_id (t_id row) u (transactions d)"
    "deferred d1 = []" "eid \<notin> p_entry_id ` set (postings d1)" "merchants d1 = merchants d"
    "t_currency row = ''XOF'' \<longrightarrow> can_book eid u d1"
proof -
  note parts = reachable_parts [OF assms(1,2)]
  note row = lookup_by_in [OF assms(3)]
  have checks: "\<forall>c \<in> set (transaction_checks row). snd c" and ranges: "\<forall>c \<in> set (transaction_ranges row). snd c"
    using parts(2) reachable_ranges [OF assms(2)] row by (simp_all add: rows_ok_def ranges_ok_def)
  let ?u = "row\<lparr>t_status := st, t_version := t_version row + 1, t_updated_at := s_now s\<rparr>"
  obtain d1 where run: "update_transaction s (t_id row) (\<lambda>t. t\<lparr>t_status := st\<rparr>) d = Inr (?u, d1)"
    and d1: "transactions d1 = replace_by t_id (t_id row) ?u (transactions d)" "deferred d1 = deferred d"
      "postings d1 = postings d" "merchants d1 = merchants d"
    using status_update_succeeds [OF row_by_id [OF parts(1) assms(3)] _ checks ranges assms(4), of s] assms(5,7) by auto
  have book: "can_book eid row d" if "t_currency row = ''XOF''"
    using that parts(1,4) reachable_system_ok [OF assms(2,1)] reachable_staffed [OF assms(2)] row ranges assms(6)
    by (auto simp: can_book_def system_ok_def accounting_ok_def transaction_ranges_def refs_ok_def)
  have "can_book eid ?u d1" if "t_currency row = ''XOF''"
    using can_book_update [OF run book [OF that]] by (simp add: can_book_def)
  moreover have "eid \<notin> p_entry_id ` set (postings d1)" "deferred d1 = []"
    using parts(5) assms(6) d1 by (auto simp: ledger_ok_def)
  ultimately show thesis using that [OF run] d1 by simp
qed

lemma refund_succeeds:
  assumes "can_book eid u d" "0 < t_amount u" "in_int8 (t_amount u)" "deferred d = []" "eid \<notin> p_entry_id ` set (postings d)"
    "t_parent_transaction_id u = Some (t_id q)" "lookup_by t_id (t_id q) (transactions d) = Some q"
    "t_refunded_amount q + t_amount u \<le> t_amount q"
    "if t_refunded_amount q + t_amount u = t_amount q then t_status q \<in> {SUCCEEDED, PARTIALLY_REFUNDED}
     else t_status q \<in> {SUCCEEDED, PARTIALLY_REFUNDED, DISPUTED}"
    "t_version q < 2147483646" "\<forall>c \<in> set (transaction_checks q). snd c" "\<forall>c \<in> set (transaction_ranges q). snd c"
    "t_type q = PAYMENT" "declared_actor s"
  shows "\<exists>d'. bookRefundSuccess s eid u d = Inr d' \<and> deferred_checks d' = Inr ()"
proof -
  let ?n = "t_refunded_amount q + t_amount u"
  let ?st = "if ?n = t_amount q then REFUNDED else PARTIALLY_REFUNDED"
  have step: "?st = t_status q \<or> allowed (t_status q) ?st"
    using assms(9) by (auto simp: allowed_def status_transitions_def split: if_splits)
  have fits: "\<forall>c \<in> set (transaction_checks (q\<lparr>t_status := ?st, t_refunded_amount := ?n\<rparr>)). snd c"
    using assms(2,8,11,13) by (cases "t_expires_at q") (auto simp: transaction_checks_def settled_statuses_def)
  have int8: "in_int8 ?n"
    using int8_below [of "t_amount q" ?n] assms(2,8,12) checks_of_row(5) [OF assms(11)] by (simp add: transaction_ranges_def)
  obtain r d1 where upd: "update_transaction s (t_id q) (\<lambda>t. t\<lparr>t_refunded_amount := ?n, t_status := ?st\<rparr>) d = Inr (r, d1)"
    and d1: "deferred d1 = []" "postings d1 = postings d" "merchants d1 = merchants d"
    using update_succeeds [OF assms(7), where f = "\<lambda>t. t\<lparr>t_refunded_amount := ?n, t_status := ?st\<rparr>" and st = ?st and n = ?n and s = s]
      step fits int8 assms(2,4,10,12,14) by fastforce
  have book: "can_book eid u d1" by (rule can_book_update [OF upd assms(1)])
  obtain m where m: "lookup_by m_id (t_merchant_id u) (merchants d1) = Some m" using can_book_merchant [OF book] .
  have "length (''Remboursement '' @ t_reference u) \<le> 500" using assms(1) by (simp add: can_book_def)
  from payback_succeeds [OF book m assms(2,3) this d1(1), of s] obtain e d2 d3 ci pay_id where
    run: "insert_entry s eid (''Remboursement '' @ t_reference u) (Some (t_id u)) None d1 = Inr (e, d2)"
      "idOf (findAccounts [clearingCode (t_provider u), merchantPayableAccountCode (m_code m)] d1) (merchantPayableAccountCode (m_code m)) = Inr pay_id"
      "idOf (findAccounts [clearingCode (t_provider u), merchantPayableAccountCode (m_code m)] d1) (clearingCode (t_provider u)) = Inr ci"
      "insert_postings s [posting (e_id e) pay_id DEBIT (t_amount u) (t_currency u), posting (e_id e) ci CREDIT (t_amount u) (t_currency u)] d2 = Inr d3"
    and commits: "deferred_checks d3 = Inr ()"
    using assms(5) d1(2) by auto
  have "bookRefundSuccess s eid u d = Inr d3"
    using assms(6,7,8) upd m run unfolding bookRefundSuccess_def Let_def findMerchantOrThrow_def by simp
  then show ?thesis using commits by blast
qed

lemma dispute_succeeds:
  assumes "can_book eid u d" "lookup_by t_id (t_id u) (transactions d) = Some u" "deferred d = []" "eid \<notin> p_entry_id ` set (postings d)"
    "t_refunded_amount u < t_amount u" "t_status u = REVERSED" "t_type u = PAYMENT"
    "t_version u < 2147483647" "\<forall>c \<in> set (transaction_checks u). snd c" "\<forall>c \<in> set (transaction_ranges u). snd c"
    "declared_actor s"
  shows "\<exists>r d'. bookDisputeReversal s eid u d = Inr (r, d') \<and> deferred_checks d' = Inr ()"
proof -
  have fits: "\<forall>c \<in> set (transaction_checks (u\<lparr>t_status := REVERSED, t_refunded_amount := t_amount u\<rparr>)). snd c"
    using assms(6,7,9) by (cases "t_expires_at u") (auto simp: transaction_checks_def settled_statuses_def)
  have int8: "in_int8 (t_amount u)" using assms(10) by (simp add: transaction_ranges_def)
  obtain r d1 where upd: "update_transaction s (t_id u) (\<lambda>t. t\<lparr>t_refunded_amount := t_amount u\<rparr>) d = Inr (r, d1)"
    and d1: "deferred d1 = []" "postings d1 = postings d" "merchants d1 = merchants d"
    using update_succeeds [OF assms(2), where f = "\<lambda>t. t\<lparr>t_refunded_amount := t_amount u\<rparr>" and st = REVERSED and n = "t_amount u" and s = s]
      fits int8 assms(3,5,6,8,10,11) by fastforce
  have book: "can_book eid u d1" by (rule can_book_update [OF upd assms(1)])
  obtain m where m: "lookup_by m_id (t_merchant_id u) (merchants d1) = Some m" using can_book_merchant [OF book] .
  let ?a = "t_amount u - t_refunded_amount u"
  have amount: "0 < ?a" "in_int8 ?a" using assms(5) int8_below [OF int8, of ?a] checks_of_row(5) [OF assms(9)] by simp_all
  have "length (''Litige perdu '' @ t_reference u) \<le> 500" using assms(1) by (simp add: can_book_def)
  from payback_succeeds [OF book m amount this d1(1), of s] obtain e d2 d3 ci pay_id where
    run: "insert_entry s eid (''Litige perdu '' @ t_reference u) (Some (t_id u)) None d1 = Inr (e, d2)"
      "idOf (findAccounts [clearingCode (t_provider u), merchantPayableAccountCode (m_code m)] d1) (merchantPayableAccountCode (m_code m)) = Inr pay_id"
      "idOf (findAccounts [clearingCode (t_provider u), merchantPayableAccountCode (m_code m)] d1) (clearingCode (t_provider u)) = Inr ci"
      "insert_postings s [posting (e_id e) pay_id DEBIT ?a (t_currency u), posting (e_id e) ci CREDIT ?a (t_currency u)] d2 = Inr d3"
    and commits: "deferred_checks d3 = Inr ()"
    using assms(4) d1(2) by auto
  have "bookDisputeReversal s eid u d = Inr (r, d3)"
    using assms(5) upd m run unfolding bookDisputeReversal_def Let_def findMerchantOrThrow_def by simp
  then show ?thesis using commits by blast
qed

lemma accepted_commits:
  assumes "inj uid" "reachable uid n0 d" "lookup_by t_reference ref (transactions d) = Some row" "t_version row = v"
    "\<forall>t \<in> set (transactions d). t_version t < 2147483646" "eid \<notin> e_id ` set (entries d)"
    "case ts_reason dto of None \<Rightarrow> True | Some r \<Rightarrow> length r \<le> 500" "accepts d row (ts_status dto)"
  shows "\<exists>t d'. transition eid xid now ref dto v d = (Inr t, d')"
proof -
  let ?s = "\<lparr>s_tx_id = next_tx_id d, s_now = now, s_actor = Some (transition_actor dto)\<rparr>"
  let ?st = "ts_status dto"
  note parts = reachable_parts [OF assms(1,2)]
  note row = lookup_by_in [OF assms(3)]
  have checked: "\<forall>c \<in> set (transaction_checks t). snd c" "\<forall>c \<in> set (transaction_ranges t). snd c" if "t \<in> set (transactions d)" for t
    using that parts(2) reachable_ranges [OF assms(2)] by (simp_all add: rows_ok_def ranges_ok_def)
  have actor: "declared_actor ?s"
    using assms(7) by (auto simp: declared_actor_def transition_actor_def setting_reason_def nullif_empty_def split: option.splits)
  have step: "?st = t_status row \<or> allowed (t_status row) ?st \<and> status_fits row ?st"
    using assms(8) by (auto simp: accepts_def)
  have late: "\<not> (t_status row = EXPIRED \<and> ?st = SUCCEEDED)"
    using assms(8) by (auto simp: accepts_def allowed_def status_transitions_def)
  have "t_version row < 2147483646" using assms(5) row by simp
  then obtain u d1 where upd: "update_transaction ?s (t_id row) (\<lambda>t. t\<lparr>t_status := ?st\<rparr>) d = Inr (u, d1)"
    and u: "u = row\<lparr>t_status := ?st, t_version := t_version row + 1, t_updated_at := now\<rparr>"
    and d1: "transactions d1 = replace_by t_id (t_id row) u (transactions d)" "deferred d1 = []"
      "eid \<notin> p_entry_id ` set (postings d1)" "merchants d1 = merchants d" "t_currency row = ''XOF'' \<longrightarrow> can_book eid u d1"
    using first_update [OF assms(1-3) step _ assms(6) actor] by (metis session.select_convs(2))
  have elsewhere: "lookup_by t_id k (transactions d1) = (if k = t_id row then Some u else lookup_by t_id k (transactions d))" for k
    using tx_table.lookup_updated [of u "t_id row" d row k] row_by_id [OF parts(1) assms(3)] u d1(1) by simp
  have amount: "0 < t_amount u" "in_int8 (t_amount u)"
    using checked [OF row] u by (simp_all add: transaction_checks_def transaction_ranges_def)
  note commits = transition_commits [OF assms(3,4) late upd]
  consider (payment) "?st = SUCCEEDED" "t_status row = PENDING" "t_type row = PAYMENT"
    | (refund) "?st = SUCCEEDED" "t_status row = PENDING" "t_type row = REFUND"
    | (lost) "?st = REVERSED" "t_status row = DISPUTED"
    | (other) "\<not> (?st = SUCCEEDED \<and> t_status row = PENDING)" "\<not> (?st = REVERSED \<and> t_status row = DISPUTED)"
    using transaction_type.exhaust by blast
  then show ?thesis
  proof cases
    case payment
    then have book: "can_book eid u d1" using assms(8) d1(5) by (simp add: accepts_def money_fits_def)
    obtain d2 where d2: "bookPaymentSuccess ?s eid u d1 = Inr d2" using payment_succeeds [OF book amount] by blast
    have "deferred_checks d2 = Inr ()"
      using d2 by (rule bookPaymentSuccess_books) (use payment_booking.entry_valid booked_commits d1(2,3) amount(1) in fastforce)
    then show ?thesis using commits [of eid d2 u d2 xid] d2 payment by auto
  next
    case refund
    then have fits: "t_currency row = ''XOF''" "refund_room d row" using assms(8) by (simp_all add: accepts_def money_fits_def)
    obtain q where q: "q \<in> set (transactions d)" "t_parent_transaction_id row = Some (t_id q)" "t_id q \<noteq> t_id row"
      "lookup_by t_id (t_id q) (transactions d) = Some q" "t_type q = PAYMENT"
      using refund_parent [OF assms(1,2) row refund(3)] parent_differs(2) [OF assms(1,2) row refund(3)] by metis
    obtain d2 where "bookRefundSuccess ?s eid u d1 = Inr d2" "deferred_checks d2 = Inr ()"
      using refund_succeeds [of eid u d1 q ?s] q fits d1 amount u elsewhere [of "t_id q"] checked [OF q(1)] assms(5) actor
      by (auto simp: refund_room_def split: if_splits)
    then show ?thesis using commits [of eid d2 u d2 xid] refund by auto
  next
    case lost
    then have fits: "t_currency row = ''XOF''" "t_refunded_amount row < t_amount row" "t_type row = PAYMENT"
      using assms(8) transaction_type.exhaust [of "t_type row" "t_type row = PAYMENT"]
      by (auto simp: accepts_def money_fits_def status_fits_def settled_statuses_def)
    have u_row: "\<forall>c \<in> set (transaction_checks u). snd c" "\<forall>c \<in> set (transaction_ranges u). snd c"
      by (rule update_transaction_facts [OF upd]) (assumption, rule ranges_of_update [OF upd])
    obtain r d2 where "bookDisputeReversal ?s eid u d1 = Inr (r, d2)" "deferred_checks d2 = Inr ()"
      using dispute_succeeds [of eid u d1 ?s] fits d1 u u_row elsewhere [of "t_id row"] lost assms(5) row actor by auto
    then show ?thesis using commits [of eid d1 r d2 xid] lost by auto
  next
    case other
    then show ?thesis using commits [of eid d1 u d1 xid] d1(2) by (auto simp: deferred_checks_def)
  qed
qed

text \<open>The other direction: what a status change that went through says of the row.\<close>

lemma refund_booked_room:
  assumes "bookRefundSuccess s eid u d1 = Inr d2" "rows_ok d1" "0 < t_amount u"
    "\<And>k. t_parent_transaction_id u = Some k \<Longrightarrow> lookup_by t_id k (transactions d1) = lookup_by t_id k (transactions d)"
  shows "refund_room d u"
  using assms(1)
proof (rule bookRefundSuccess_books, goal_cases)
  case (1 q q' m d1')
  let ?st = "if t_refunded_amount q + t_amount u = t_amount q then REFUNDED else PARTIALLY_REFUNDED"
  have step: "?st = t_status q \<or> allowed (t_status q) ?st"
    by (rule update_transaction_facts [OF 1(4)], use 1(2) in simp)
  have "\<forall>c \<in> set (transaction_checks q). snd c" using assms(2) lookup_by_in [OF 1(2)] by (simp add: rows_ok_def)
  then have "t_status q = REFUNDED \<longrightarrow> t_refunded_amount q = t_amount q" using checks_of_row(9) by blast
  then show ?case
    using step 1(1-3) assms(3,4) by (auto simp: refund_room_def allowed_def status_transitions_def split: if_splits)
qed

lemma checks_ignore_version:
  "(\<forall>c \<in> set (transaction_checks (t\<lparr>t_version := v, t_updated_at := n\<rparr>)). snd c) = (\<forall>c \<in> set (transaction_checks t). snd c)"
  by (cases "t_expires_at t") (simp_all add: transaction_checks_def)

lemma committed_accepts:
  assumes "inj uid" "reachable uid n0 d" "lookup_by t_reference ref (transactions d) = Some row"
    "transition eid xid now ref dto v d = (Inr t, d')"
  shows "accepts d row (ts_status dto)"
  using assms(4)
proof (rule transition_Inr, goal_cases)
  case (1 row' u d1 d2 d3)
  note parts = reachable_parts [OF assms(1,2)]
  have row: "row' = row" "row \<in> set (transactions d)" using 1(1) assms(3) lookup_by_in [OF assms(3)] by simp_all
  have reach': "reachable uid n0 d'" by (rule reach_transition [OF assms(4,2)])
  note change = status_change_row [OF parts(1) assms(3) 1(4) [unfolded row(1)]]
  have checks: "\<forall>c \<in> set (transaction_checks row). snd c" using parts(2) row(2) by (simp add: rows_ok_def)
  have step: "ts_status dto = t_status row \<or> allowed (t_status row) (ts_status dto)"
    and new: "\<forall>c \<in> set (transaction_checks u). snd c"
    by (rule update_transaction_facts [OF 1(4)], use change(1) row_by_id [OF parts(1) assms(3)] row(1) in simp)+
  have "\<forall>c \<in> set (transaction_checks (row\<lparr>t_status := ts_status dto\<rparr>)). snd c" 
    using new checks_ignore_version [where t = "row\<lparr>t_status := ts_status dto\<rparr>"] unfolding change(1) by simp
  then have fits: "status_fits row (ts_status dto)" using status_checks [OF checks] by simp
  have money: "money_fits d row (ts_status dto)"
  proof -
    consider (payment) "ts_status dto = SUCCEEDED" "t_status row = PENDING" "t_type row = PAYMENT"
      | (refund) "ts_status dto = SUCCEEDED" "t_status row = PENDING" "t_type row = REFUND"
      | (lost) "ts_status dto = REVERSED" "t_status row = DISPUTED"
      | (other) "\<not> (ts_status dto = SUCCEEDED \<and> t_status row = PENDING)" "\<not> (ts_status dto = REVERSED \<and> t_status row = DISPUTED)"
      using transaction_type.exhaust by blast
    then show ?thesis
    proof cases
      case payment
      then show ?thesis using foreign_currency_never_settles [OF assms(1-3), of dto eid xid now v] assms(4) by (auto simp: money_fits_def)
    next
      case refund
      then have book: "bookRefundSuccess \<lparr>s_tx_id = next_tx_id d, s_now = now, s_actor = Some (transition_actor dto)\<rparr> eid u d1 = Inr d2"
        "d3 = d2" using 1(5,6) row(1) by simp_all
      obtain q where q: "q \<in> set (transactions d)" "t_parent_transaction_id row = Some (t_id q)" "t_id q \<noteq> t_id row"
        "lookup_by t_id (t_id q) (transactions d) = Some q"
        by (rule refund_parent [OF assms(1,2) row(2) refund(3)])
      have "lookup_by t_id (t_id q) (transactions d1) = lookup_by t_id (t_id q) (transactions d)"
        using tx_table.lookup_updated [of u "t_id row" d row "t_id q"] row_by_id [OF parts(1) assms(3)] change(1,2) q(3) by simp
      then have "refund_room d u"
        using refund_booked_room [OF book(1)] rows_ok_stmt [OF upd_transaction [OF 1(4)] parts(2)] checks_of_row(1) [OF new] change(1) q(2) by simp
      moreover have "t_currency u = ''XOF''"
        using book(1) by (rule bookRefundSuccess_books) (use booked_currency [OF assms(1) reach'] 1(8) book(2) in \<open>auto simp: payback_lines_def\<close>)
      ultimately show ?thesis using refund change(1) q(2,4) by (simp add: money_fits_def refund_room_def split: if_splits)
    next
      case lost
      then have book: "bookDisputeReversal \<lparr>s_tx_id = next_tx_id d, s_now = now, s_actor = Some (transition_actor dto)\<rparr> eid u d1 = Inr (t, d3)"
        using 1(5,6) row(1) by simp
      have "t_refunded_amount u < t_amount u \<and> t_currency u = ''XOF''"
        using book by (rule bookDisputeReversal_books) (use booked_currency [OF assms(1) reach'] 1(8) in \<open>auto simp: payback_lines_def\<close>)
      then show ?thesis using lost change(1) by (simp add: money_fits_def)
    next
      case other
      then show ?thesis by (auto simp: money_fits_def)
    qed
  qed
  show ?case using step fits money by (auto simp: accepts_def)
qed

text \<open>
  C5: Which status changes are accepted. From any reachable state, a PATCH with the current version succeeds
  exactly when it repeats the status, or the state machine has the transition, the amounts already fit the new
  status, and the money it would move can move.
\<close>

theorem transition_accepted_iff:
  assumes "inj uid" "reachable uid n0 d" "lookup_by t_reference ref (transactions d) = Some row" "t_version row = v"
    "\<forall>t \<in> set (transactions d). t_version t < 2147483646" "eid \<notin> e_id ` set (entries d)"
    "case ts_reason dto of None \<Rightarrow> True | Some r \<Rightarrow> length r \<le> 500"
  shows "(\<exists>t d'. transition eid xid now ref dto v d = (Inr t, d')) \<longleftrightarrow> accepts d row (ts_status dto)"
  using accepted_commits [OF assms, of xid now] committed_accepts [OF assms(1-3)] by blast

theorem transition_accepted_iff_witness:
  "(\<exists>t d'. transition ''e9'' ''x9'' 9000 ''TXN-20260922-010101'' (demo_to DISPUTED) 3 demo_settled = (Inr t, d'))
   \<and> \<not> (\<exists>t d'. transition ''e9'' ''x9'' 9000 ''TXN-20260922-010101'' (demo_to REFUNDED) 3 demo_settled = (Inr t, d'))"
proof -
  let ?row = "demo_row ''t1'' ''TXN-20260922-010101'' ''k1'' 1000 SUCCEEDED 0 3 3000"
  have row: "lookup_by t_reference ''TXN-20260922-010101'' (transactions demo_settled) = Some ?row"
    "t_version ?row = 3" "\<forall>t \<in> set (transactions demo_settled). t_version t < 2147483646"
    "''e9'' \<notin> e_id ` set (entries demo_settled)"
    by (simp_all add: demo_settled_def demo_db_def lookup_by_def demo_row_def demo_entry_def)
  have reason: "case ts_reason (demo_to st) of None \<Rightarrow> True | Some r \<Rightarrow> length r \<le> 500" for st by (simp add: demo_to_def)
  note decided = transition_accepted_iff [OF inj_demo_uid reach_demo_settled row reason, where xid = "''x9''" and now = 9000]
  have "accepts demo_settled ?row DISPUTED" "\<not> accepts demo_settled ?row REFUNDED"
    by (simp_all add: accepts_def status_fits_def money_fits_def allowed_def status_transitions_def settled_statuses_def demo_row_def)
  then show ?thesis using decided [of DISPUTED] decided [of REFUNDED] by (simp add: demo_to_def)
qed

section \<open>The settlement of the simulated operator\<close>

text \<open>The row a payment is left with, when it is not the loss of a dispute.\<close>

lemma payment_transition_row:
  assumes "keys_ok d" "transition eid xid now ref dto v d = (Inr t, d')" "lookup_by t_reference ref (transactions d) = Some row"
    "t_type row = PAYMENT" "ts_status dto \<noteq> REVERSED"
  shows "row\<lparr>t_status := ts_status dto, t_version := t_version row + 1, t_updated_at := now\<rparr> \<in> set (transactions d')"
  using assms(2)
proof (rule transition_Inr, goal_cases)
  case (1 row' u d1 d2 d3)
  have row: "row' = row" using 1(1) assms(3) by simp
  note change = status_change_row [OF assms(1,3) 1(4) [unfolded row]]
  have "d2 = d1 \<or> bookPaymentSuccess \<lparr>s_tx_id = next_tx_id d, s_now = now, s_actor = Some (transition_actor dto)\<rparr> eid u d1 = Inr d2"
    using 1(5) row assms(4) by (auto split: if_splits)
  then have "transactions d2 = transactions d1"
    by (elim disjE) (simp, erule bookPaymentSuccess_books, erule books_entry_keeps)
  then have "transactions d' = replace_by t_id (t_id row) u (transactions d)" using 1(6,8) assms(5) change(2) by simp
  then show ?case using change(1) lookup_by_in [OF assms(3)] by (force simp: replace_by_def)
qed

text \<open>
  C18: The settlement callback settles: run on a payment in XOF that is still PENDING, it leaves the payment FAILED or
  SUCCEEDED as the draw decides, and the platform's money is where it was or has moved by exactly that payment.
\<close>

theorem settle_callback_settles:
  assumes "inj uid" "reachable uid n0 d" "lookup_by t_reference r (transactions d) = Some row"
    "t_type row = PAYMENT" "t_status row = PENDING" "t_currency row = ''XOF''"
    "\<forall>t \<in> set (transactions d). t_version t < 2147483646" "eid \<notin> e_id ` set (entries d)"
    "process_job config draw eid xid now \<lparr>cj_name = job_name.Settle, cj_reference = r\<rparr> d d = (out, d1)"
    "fails = (draw * 100 < (case config ''PROVIDER_SIMULATOR_FAILURE_RATE'' of Some q \<Rightarrow> q | None \<Rightarrow> DEFAULT_FAILURE_RATE_PERCENT))"
  shows "out = Inr () \<and> (\<exists>t. lookup_by t_reference r (transactions d1) = Some t \<and> t_status t = (if fails then FAILED else SUCCEEDED))
    \<and> bank_of d1 = (if fails then bank_of d
        else bank_move (money_move.Settle (t_provider row) (code_of_merchant (t_merchant_id row) d) (t_amount row)) (bank_of d))"
proof -
  let ?target = "if fails then FAILED else SUCCEEDED"
  let ?dto = "\<lparr>ts_status = ?target, ts_reason = Some (''Callback op'' @ [CHR 0xE9] @ ''rateur simul'' @ [CHR 0xE9]), ts_provider_reference = None\<rparr>"
  note parts = reachable_parts [OF assms(1,2)]
  have "\<forall>c \<in> set (transaction_checks row). snd c" using parts(2) lookup_by_in [OF assms(3)] by (simp add: rows_ok_def)
  then have "t_refunded_amount row = 0" using checks_of_row(7) assms(5) by (simp add: settled_statuses_def)
  then have "accepts d row ?target"
    using assms(4-6) by (simp add: accepts_def status_fits_def money_fits_def allowed_def status_transitions_def settled_statuses_def)
  then obtain t d' where run: "transition eid xid now r ?dto (t_version row) d = (Inr t, d')"
    using accepted_commits [OF assms(1-3) refl assms(7,8), of ?dto xid now] by auto
  have job: "out = Inr ()" "d1 = d'"
    using assms(3,5,9,10) run by (auto simp: process_job_def transitionIfStillAt_def findByReferenceOrThrow_def Let_def)
  have reach: "reachable uid n0 d'" by (rule reach_transition [OF run assms(2)])
  let ?u = "row\<lparr>t_status := ?target, t_version := t_version row + 1, t_updated_at := now\<rparr>"
  have "?u \<in> set (transactions d')" using payment_transition_row [OF parts(1) run assms(3,4)] by auto
  then have found: "lookup_by t_reference r (transactions d') = Some ?u"
    using lookup_by_distinct [OF keys_okD(2) [OF reachable_parts(1) [OF assms(1) reach]], of ?u] lookup_by_key [OF assms(3)] by simp
  have "bank_of d' = fold bank_move (money_of d row ?target) (bank_of d)"
    using transition_moves [OF parts(1,2) run] assms(3) by auto
  then have "bank_of d' = (if fails then bank_of d
      else bank_move (money_move.Settle (t_provider row) (code_of_merchant (t_merchant_id row) d) (t_amount row)) (bank_of d))"
    using assms(4,5) by (simp add: money_of_def Let_def)
  then show ?thesis using job found by simp
qed

theorem settle_callback_settles_witness:
  "\<exists>t. lookup_by t_reference ''TXN-20260922-010101''
      (transactions (snd (process_job (\<lambda>k. None) (1 / 2) ''e3'' ''x3'' 3000 \<lparr>cj_name = job_name.Settle, cj_reference = ''TXN-20260922-010101''\<rparr> demo_pending demo_pending))) = Some t
    \<and> t_status t = SUCCEEDED"
proof -
  let ?row = "demo_row ''t1'' ''TXN-20260922-010101'' ''k1'' 1000 PENDING 0 2 2000"
  have row: "lookup_by t_reference ''TXN-20260922-010101'' (transactions demo_pending) = Some ?row" "t_type ?row = PAYMENT" "t_status ?row = PENDING"
    "t_currency ?row = ''XOF''" "\<forall>t \<in> set (transactions demo_pending). t_version t < 2147483646" "''e3'' \<notin> e_id ` set (entries demo_pending)"
    by (simp_all add: demo_pending_def demo_db_def demo_row_def lookup_by_def)
  obtain out d1 where run: "process_job (\<lambda>k. None) (1 / 2) ''e3'' ''x3'' 3000 \<lparr>cj_name = job_name.Settle, cj_reference = ''TXN-20260922-010101''\<rparr> demo_pending demo_pending = (out, d1)"
    by fastforce
  have draw: "False = ((1 / 2 :: rat) * 100 < (case None of Some q \<Rightarrow> q | None \<Rightarrow> DEFAULT_FAILURE_RATE_PERCENT))"
    by (simp add: DEFAULT_FAILURE_RATE_PERCENT_def)
  show ?thesis using settle_callback_settles [OF inj_demo_uid reach_demo_pending row run draw] run by simp
qed

end
