(* ===== verification/Requests.thy ===== *)
theory Requests
  imports Lifecycle
begin

text \<open>
  The creation of payments and refunds: the row a request writes, the replay of an idempotency key
  at any later time, and the canonical bodies behind the fingerprints.
\<close>

section \<open>The idempotency key\<close>

lemma idempotent_Inr:
  assumes "createTransactionIdempotently a now key fp ins d = (Inr r, d')"
  obtains
    (created) "withActor \<lparr>ac_type = SYSTEM, ac_id = a, ac_reason = None\<rparr> now ins d = (Inr (ir_transaction r), d')"
      "\<not> ir_replayed r"
  | (replayed) "ir_replayed r" "d' = d" "lookup_by t_idempotency_key key (transactions d) = Some (ir_transaction r)"
      "t_request_fingerprint (ir_transaction r) = fp"
proof (cases "withActor \<lparr>ac_type = SYSTEM, ac_id = a, ac_reason = None\<rparr> now ins d")
  case (Pair x d1)
  show thesis
  proof (cases x)
    case (Inl e)
    then have "d1 = d" using Pair sql_transaction_Inl by (auto simp: withActor_def)
    then show thesis
      using assms Pair Inl by (intro replayed)
        (auto simp: createTransactionIdempotently_def split: option.splits if_splits)
  next
    case (Inr t)
    then show thesis
      using assms Pair by (intro created) (auto simp: createTransactionIdempotently_def)
  qed
qed

text \<open>A stored key makes every INSERT with that key fail, so the stored row decides.\<close>

lemma idempotent_stored:
  assumes "keys_ok d" "t \<in> set (transactions d)" "t_idempotency_key t = key"
    and fails: "\<And>s x d1. ins s d = Inr (x, d1) \<Longrightarrow> key \<notin> t_idempotency_key ` set (transactions d)"
  shows "\<exists>msg. createTransactionIdempotently a now key fp ins d =
    (if t_request_fingerprint t \<noteq> fp then (Inl (Http_Exception 422 msg), d)
     else (Inr \<lparr>ir_transaction = t, ir_replayed = True\<rparr>, d))"
proof -
  have found: "lookup_by t_idempotency_key key (transactions d) = Some t"
    using lookup_by_distinct [OF keys_okD(3) [OF assms(1)] assms(2)] assms(3) by simp
  have "key \<in> t_idempotency_key ` set (transactions d)" using assms(2,3) by blast
  then obtain e where "ins \<lparr>s_tx_id = next_tx_id d, s_now = now,
      s_actor = Some \<lparr>ac_type = SYSTEM, ac_id = a, ac_reason = None\<rparr>\<rparr> d = Inl e"
    using fails by (metis surj_pair sumE)
  then have "withActor \<lparr>ac_type = SYSTEM, ac_id = a, ac_reason = None\<rparr> now ins d = (Inl e, d)"
    by (simp add: withActor_def sql_transaction_run)
  then show ?thesis using found by (auto simp: createTransactionIdempotently_def)
qed

lemma inserted_key_fresh:
  assumes "insert_transaction s t d = Inr (r, d')"
  shows "t_idempotency_key t \<notin> t_idempotency_key ` set (transactions d)"
  using assms
proof (rule insert_transaction_InrD, goal_cases)
  case (1 h)
  show ?case using 1(12,19) by (simp add: transaction_unique_checks_def)
qed

lemma create_payment_body_fresh:
  assumes "create_payment_body sha config inp dto key mid s d = Inr (r, d')"
  shows "key \<notin> t_idempotency_key ` set (transactions d)"
proof -
  obtain row where row: "insert_transaction s row d = Inr (r, d')" "t_idempotency_key row = key"
    using assms unfolding create_payment_body_def by (auto simp: result_simps)
  show ?thesis using inserted_key_fresh [OF row(1)] row(2) by simp
qed

lemma create_refund_body_fresh:
  assumes "create_refund_body sha config inp ref parent dto key s d = Inr (r, d')"
  shows "key \<notin> t_idempotency_key ` set (transactions d)"
proof -
  obtain row where row: "insert_transaction s row d = Inr (r, d')" "t_idempotency_key row = key"
    using assms unfolding create_refund_body_def by (auto simp: result_simps)
  show ?thesis using inserted_key_fresh [OF row(1)] row(2) by simp
qed

lemma payment_stored:
  assumes "keys_ok d" "t \<in> set (transactions d)" "t_idempotency_key t = key"
  shows "\<exists>msg. create_payment sha config inp dto key mid d =
    (if t_request_fingerprint t \<noteq> fingerprintOf sha dto then (Inl (Http_Exception 422 msg), d)
     else (Inr \<lparr>ir_transaction = t, ir_replayed = True\<rparr>, d))"
  unfolding create_payment_def
  by (rule idempotent_stored [OF assms]) (rule create_payment_body_fresh)

text \<open>What a payment that is not a replay wrote.\<close>

lemma create_payment_created:
  assumes "create_payment sha config inp dto key mid d = (Inr r, d')" "\<not> ir_replayed r"
  obtains t h where "ir_transaction r = t" "transactions d' = transactions d @ [t]" "history d' = history d @ [h]"
    "entries d' = entries d" "postings d' = postings d" "t_type t = PAYMENT" "t_status t = INITIATED"
    "t_provider t = cp_provider dto" "BigInt_of (cp_amount dto) = Inr (t_amount t)" "0 < t_amount t"
    "t_currency t = cp_currency dto" "t_customer_msisdn t = cp_customer_msisdn dto" "t_merchant_id t = mid"
    "t_refunded_amount t = 0" "t_version t = 1" "t_parent_transaction_id t = None" "t_idempotency_key t = key"
    "t_request_fingerprint t = fingerprintOf sha dto"
    "t_reference t = generateTransactionReference (in_iso_date inp) (in_bytes inp)"
    "t_expires_at t = Some (computeExpiresAt (in_clock inp) (resolveExpiryMinutes config (cp_provider dto)))"
    "mid \<in> m_id ` set (merchants d)" "h_transaction_id h = t_id t" "h_to_status h = INITIATED"
  using assms(1) unfolding create_payment_def
proof (cases rule: idempotent_Inr)
  case created
  then obtain d1 s where body: "create_payment_body sha config inp dto key mid s d = Inr (ir_transaction r, d1)"
    and d': "d' = d1\<lparr>next_tx_id := Suc (next_tx_id d), deferred := []\<rparr>"
    unfolding withActor_def by (auto elim: sql_transaction_Inr)
  then obtain amount row where amount: "BigInt_of (cp_amount dto) = Inr amount"
    and row: "insert_transaction s row d = Inr (ir_transaction r, d1)" "t_amount row = amount"
    "t_type row = PAYMENT" "t_provider row = cp_provider dto" "t_currency row = cp_currency dto"
    "t_customer_msisdn row = cp_customer_msisdn dto" "t_merchant_id row = mid" "t_parent_transaction_id row = None"
    "t_idempotency_key row = key" "t_request_fingerprint row = fingerprintOf sha dto"
    "t_reference row = generateTransactionReference (in_iso_date inp) (in_bytes inp)"
    "t_expires_at row = Some (computeExpiresAt (in_clock inp) (resolveExpiryMinutes config (cp_provider dto)))"
    unfolding create_payment_body_def by (auto simp: result_simps)
  from row(1) show thesis
  proof (rule insert_transaction_InrD, goal_cases)
    case (1 h)
    then show ?case
      using that [of "ir_transaction r" h] row(2-) amount d' checks_of_row(1) [OF 1(18)] by simp
  qed
qed (use assms(2) in simp)

section \<open>Creating a payment\<close>

text \<open>
  A payment request that is not a replay writes one row: INITIATED, version 1, nothing refunded,
  with the amount, currency, operator and customer of the body, for the merchant of the key and with
  the fingerprint of the body; it records the creation in the history and moves no money.
\<close>

theorem created_payment_row:
  assumes "create_payment sha config inp dto key mid d = (Inr r, d')" "\<not> ir_replayed r"
  shows "transactions d' = transactions d @ [ir_transaction r]
    \<and> entries d' = entries d \<and> postings d' = postings d
    \<and> (\<exists>h. history d' = history d @ [h] \<and> h_transaction_id h = t_id (ir_transaction r) \<and> h_to_status h = INITIATED)
    \<and> t_type (ir_transaction r) = PAYMENT \<and> t_status (ir_transaction r) = INITIATED
    \<and> t_version (ir_transaction r) = 1 \<and> t_refunded_amount (ir_transaction r) = 0
    \<and> BigInt_of (cp_amount dto) = Inr (t_amount (ir_transaction r)) \<and> 0 < t_amount (ir_transaction r)
    \<and> t_provider (ir_transaction r) = cp_provider dto \<and> t_currency (ir_transaction r) = cp_currency dto
    \<and> t_customer_msisdn (ir_transaction r) = cp_customer_msisdn dto
    \<and> t_merchant_id (ir_transaction r) = mid \<and> mid \<in> m_id ` set (merchants d)
    \<and> t_idempotency_key (ir_transaction r) = key \<and> t_request_fingerprint (ir_transaction r) = fingerprintOf sha dto"
  using create_payment_created [OF assms] by (metis (no_types, lifting))

theorem created_payment_row_witness:
  "transactions demo_created = [demo_row ''t1'' ''TXN-20260922-010101'' ''k1'' 1000 INITIATED 0 1 1000]
   \<and> postings demo_created = []"
proof -
  have "transactions demo_start = []" "postings demo_start = []" by (simp_all add: demo_start_def initial_db_def)
  then show ?thesis using created_payment_row [OF run_created] by simp
qed

section \<open>Replaying a request\<close>

text \<open>
  C12: Once a payment request has been answered, the same key with the same body is a replay at any
  later time, whatever happened in between: nothing is written and the answer is the stored
  transaction in its present state. The key is not scoped to a merchant: a request of another
  merchant is answered with the transaction of the first.
\<close>

theorem replay_finds_first_request:
  assumes "inj uid" "reachable uid n0 d" "create_payment sha config inp dto key mid d = (Inr r, d1)"
    "\<not> ir_replayed r" "rtranclp service_step d1 d2"
  shows "\<exists>t \<in> set (transactions d2). row_evolves (ir_transaction r) t \<and> t_merchant_id t = mid
    \<and> create_payment sha config' inp' dto key mid' d2 = (Inr \<lparr>ir_transaction = t, ir_replayed = True\<rparr>, d2)"
proof -
  have "service_step d d1" using step_payment assms(3) by (metis snd_conv)
  then have ok: "system_ok d1" using reachable_system_ok [OF reach_step [OF assms(2)] assms(1)] by blast
  from assms(3,4) show ?thesis
  proof (rule create_payment_created, goal_cases)
    case (1 t h)
    then have "t \<in> set (transactions d1)" by simp
    then obtain t' where t': "t' \<in> set (transactions d2)" "row_evolves t t'" using row_later [OF assms(5) ok] by blast
    have kept: "t_idempotency_key t' = key" "t_request_fingerprint t' = fingerprintOf sha dto" "t_merchant_id t' = mid"
      using t'(2) 1 by (simp_all add: row_evolves_def frozen_columns_kept_def)
    have keys: "keys_ok d2" using steps_evolve [OF assms(5) ok] by (simp add: system_ok_def tables_ok_def)
    have "create_payment sha config' inp' dto key mid' d2 = (Inr \<lparr>ir_transaction = t', ir_replayed = True\<rparr>, d2)"
      using payment_stored [OF keys t'(1) kept(1), of sha config' inp' dto mid'] kept(2) by simp
    then show ?case using t' kept(3) 1(1) by blast
  qed
qed

theorem replay_finds_first_request_witness:
  "\<exists>t \<in> set (transactions demo_reversed). t_merchant_id t = demo_uid 6
    \<and> create_payment demo_sha demo_config (demo_inputs ''t9'' 3 30000) demo_payment ''k1'' ''another merchant'' demo_reversed
      = (Inr \<lparr>ir_transaction = t, ir_replayed = True\<rparr>, demo_reversed)"
proof -
  have start: "reachable demo_uid 0 demo_start" unfolding demo_start_def by (rule reach_initial)
  have steps: "service_step demo_created demo_pending" "service_step demo_pending demo_settled"
    "service_step demo_settled demo_refund_created" "service_step demo_refund_created demo_refund_pending"
    "service_step demo_refund_pending demo_refunded" "service_step demo_refunded demo_disputed"
    "service_step demo_disputed demo_reversed"
    using step_transition run_pending run_settled run_refund_pending run_refunded run_disputed run_reversed
      step_refund run_refund_created by (metis snd_conv)+
  then have "rtranclp service_step demo_created demo_reversed"
    by (meson converse_rtranclp_into_rtranclp rtranclp.rtrancl_refl)
  then show ?thesis using replay_finds_first_request [OF inj_demo_uid start run_created] by fastforce
qed

text \<open>
  The same key with another body (one whose fingerprint differs) is refused with 422 at any
  later time, and nothing is written.
\<close>

theorem other_body_refused:
  assumes "inj uid" "reachable uid n0 d" "create_payment sha config inp dto key mid d = (Inr r, d1)"
    "\<not> ir_replayed r" "rtranclp service_step d1 d2" "fingerprintOf sha dto' \<noteq> fingerprintOf sha dto"
  shows "\<exists>msg. create_payment sha config' inp' dto' key mid' d2 = (Inl (Http_Exception 422 msg), d2)"
proof -
  have "service_step d d1" using step_payment assms(3) by (metis snd_conv)
  then have ok: "system_ok d1" using reachable_system_ok [OF reach_step [OF assms(2)] assms(1)] by blast
  from assms(3,4) show ?thesis
  proof (rule create_payment_created, goal_cases)
    case (1 t h)
    then have "t \<in> set (transactions d1)" by simp
    then obtain t' where t': "t' \<in> set (transactions d2)" "row_evolves t t'" using row_later [OF assms(5) ok] by blast
    have kept: "t_idempotency_key t' = key" "t_request_fingerprint t' = fingerprintOf sha dto"
      using t'(2) 1 by (simp_all add: row_evolves_def frozen_columns_kept_def)
    have keys: "keys_ok d2" using steps_evolve [OF assms(5) ok] by (simp add: system_ok_def tables_ok_def)
    show ?case
      using payment_stored [OF keys t'(1) kept(1), of sha config' inp' dto' mid'] kept(2) assms(6) by simp
  qed
qed

definition demo_sha_length :: "string \<Rightarrow> string" where
  "demo_sha_length s = replicate 64 (if length s < 100 then CHR ''a'' else CHR ''b'')"

lemma demo_sha_length_format: "is_hex64 (demo_sha_length x)" "length (demo_sha_length x) = 64"
  by (simp_all add: is_hex64_def demo_sha_length_def is_digit_def char_code_def list_all_iff)

theorem other_body_refused_witness:
  "\<exists>msg. create_payment demo_sha_length demo_config (demo_inputs ''t9'' 3 30000)
      (demo_payment\<lparr>cp_amount := ''10000000000000000000''\<rparr>) ''k1'' (demo_uid 6)
      (snd (create_payment demo_sha_length demo_config (demo_inputs ''t1'' 1 1000) demo_payment ''k1'' (demo_uid 6) demo_start))
    = (Inl (Http_Exception 422 msg),
       snd (create_payment demo_sha_length demo_config (demo_inputs ''t1'' 1 1000) demo_payment ''k1'' (demo_uid 6) demo_start))"
proof -
  have start: "reachable demo_uid 0 demo_start" unfolding demo_start_def by (rule reach_initial)
  have len: "length (canonical_payment demo_payment) < 100"
    "\<not> length (canonical_payment (demo_payment\<lparr>cp_amount := ''10000000000000000000''\<rparr>)) < 100"
    by code_simp+
  have run: "\<exists>r. create_payment demo_sha_length demo_config (demo_inputs ''t1'' 1 1000) demo_payment ''k1'' (demo_uid 6) demo_start
      = (Inr r, snd (create_payment demo_sha_length demo_config (demo_inputs ''t1'' 1 1000) demo_payment ''k1'' (demo_uid 6) demo_start))
      \<and> \<not> ir_replayed r"
    using len(1)
    by (simp add: eval_simps demo_defs demo_sha_length_format)
  have differ: "fingerprintOf demo_sha_length (demo_payment\<lparr>cp_amount := ''10000000000000000000''\<rparr>)
      \<noteq> fingerprintOf demo_sha_length demo_payment"
    using len by (simp add: fingerprintOf_def demo_sha_length_def)
  show ?thesis using run other_body_refused [OF inj_demo_uid start _ _ rtranclp.rtrancl_refl differ] by blast
qed

section \<open>The bodies behind the fingerprints\<close>

text \<open>
  The canonical text that is hashed determines the request: two payment bodies have the same
  text exactly when they are the same body, and two refund bodies exactly when they refund the same
  payment by the same amount. (The reason of a refund is not part of it.)
\<close>

theorem canonical_body_inject:
  "(canonical_payment a = canonical_payment b \<longleftrightarrow> a = b)
   \<and> (canonical_refund p x = canonical_refund q y \<longleftrightarrow> p = q \<and> cr_amount x = cr_amount y)"
proof
  show "canonical_payment a = canonical_payment b \<longleftrightarrow> a = b"
  proof
    assume eq: "canonical_payment a = canonical_payment b"
    have "[(''provider'', provider_text (cp_provider a)), (''amount'', cp_amount a),
       (''currency'', cp_currency a), (''customerMsisdn'', cp_customer_msisdn a)]
      = [(''provider'', provider_text (cp_provider b)), (''amount'', cp_amount b),
       (''currency'', cp_currency b), (''customerMsisdn'', cp_customer_msisdn b)]"
      by (rule json_object_inject [OF eq [unfolded canonical_payment_def]]) simp_all
    then show "a = b" by (simp add: provider_text_inject)
  qed simp
  have "p = q \<and> cr_amount x = cr_amount y" if eq: "canonical_refund p x = canonical_refund q y"
    using json_object_inject [OF eq [unfolded canonical_refund_def]] by simp
  then show "canonical_refund p x = canonical_refund q y \<longleftrightarrow> p = q \<and> cr_amount x = cr_amount y"
    by (auto simp: canonical_refund_def)
qed

end
