(* ===== verification/Creation.thy ===== *)
theory Creation
  imports Requests Sweep Js_Number
begin

text \<open>
  Which payments and refunds are accepted: a request whose body passed the validation, with a fresh key,
  and the one thing each still depends on.
\<close>

section \<open>Amounts\<close>

lemma digit_bounds:
  assumes "is_digit c"
  shows "radix_value c = char_code c - 48" "radix_value c < 10" "\<not> is_js_space c" "c \<noteq> CHR ''+''" "c \<noteq> CHR ''-''"
  using assms by (auto simp: is_digit_def radix_value_def is_js_space_def char_code_def)

lemma foldl_grows: "n \<le> foldl (\<lambda>n c. 10 * n + f c) n cs" for n :: nat
proof (induction cs arbitrary: n)
  case (Cons c cs)
  have "n \<le> 10 * n + f c" by simp
  also have "\<dots> \<le> foldl (\<lambda>n c. 10 * n + f c) (10 * n + f c) cs" by (rule Cons.IH)
  finally show ?case by simp
qed simp

lemma amount_text_value:
  assumes "is_amount_text s"
  shows "BigInt_of s = Inr (int (nat_of_digits s))" "0 < nat_of_digits s"
proof -
  obtain c cs where s: "s = c # cs" "is_digit c" "c \<noteq> CHR ''0''" "list_all is_digit cs"
    using assms by (cases s) simp_all
  have digits: "list_all is_digit s" using s by simp
  have read: "foldl (\<lambda>n c. 10 * n + radix_value c) 0 s = nat_of_digits s"
    unfolding nat_of_digits_def by (rule foldl_cong) (use digits digit_bounds(1) in \<open>auto simp: list_all_iff\<close>)
  have "radix_number 10 s = Some (int (nat_of_digits s))"
    using digits digit_bounds(2) s(1) read by (auto simp: radix_number_def list_all_iff)
  then show "BigInt_of s = Inr (int (nat_of_digits s))"
    using s digit_bounds(4,5) [OF s(2)] js_trim_digits [OF digits] by (simp add: BigInt_of_def string_to_bigint_def)
  have "char_of (char_code c) = c" by (simp add: char_code_def)
  moreover have "char_of (48 :: nat) = CHR ''0''" by code_simp
  ultimately have "char_code c \<noteq> 48" using s(3) by metis
  then have "0 < char_code c - 48" using s(2) by (simp add: is_digit_def)
  then show "0 < nat_of_digits s"
    using foldl_grows [of "char_code c - 48" "\<lambda>c. char_code c - 48" cs] s(1) by (simp add: nat_of_digits_def)
qed

section \<open>The INSERT goes through\<close>

text \<open>A fresh id, reference and key; a reference has at most 21 characters.\<close>

definition fresh_request :: "request_inputs \<Rightarrow> string \<Rightarrow> db \<Rightarrow> bool" where
  "fresh_request inp key d \<longleftrightarrow> in_id inp \<notin> t_id ` set (transactions d) \<and> key \<notin> t_idempotency_key ` set (transactions d)
   \<and> generateTransactionReference (in_iso_date inp) (in_bytes inp) \<notin> t_reference ` set (transactions d) \<and> length key \<le> 100"

lemma reference_short: "length (generateTransactionReference date bytes) \<le> 40"
proof -
  have "length (filter P (take 10 xs)) \<le> 10" for P and xs :: string
    using length_filter_le [of P "take 10 xs"] by simp
  then have "length (filter (\<lambda>c. c \<noteq> CHR ''-'') (take 10 date)) \<le> 10" by blast
  then show ?thesis by (simp add: generateTransactionReference_def)
qed

lemma msisdn_short: "is_msisdn s \<Longrightarrow> length s \<le> 16"
  by (cases s rule: is_msisdn.cases) auto

lemma insertion_succeeds:
  assumes "t_status new = INITIATED" "t_version new = 1" "t_refunded_amount new = 0" "t_created_at new = s_now s" "t_updated_at new = s_now s"
    "\<forall>c \<in> set (transaction_ranges new). snd c" "\<forall>c \<in> set (transaction_checks new). snd c"
    "\<forall>c \<in> set (transaction_unique_checks (transactions d) new). snd c" "t_merchant_id new \<in> m_id ` set (merchants d)"
    "t_type new = REFUND \<Longrightarrow> \<exists>pid q. t_parent_transaction_id new = Some pid \<and> lookup_by t_id pid (transactions d) = Some q
      \<and> t_type q = PAYMENT \<and> t_status q \<in> {SUCCEEDED, PARTIALLY_REFUNDED} \<and> t_currency q = t_currency new
      \<and> t_provider q = t_provider new \<and> t_amount new \<le> t_amount q - t_refunded_amount q"
    "s_actor s = Some a" "ac_reason a = None" "length (ac_id a) \<le> 100"
  shows "\<exists>h. insert_transaction s new d = Inr (new, d\<lparr>transactions := transactions d @ [new], history := history d @ [h]\<rparr>)"
proof -
  have same: "new\<lparr>t_version := 1, t_refunded_amount := 0, t_created_at := s_now s, t_updated_at := s_now s\<rparr> = new"
    using assms(2-5) by simp
  have before: "transactions_before_insert s d new = Inr new"
    using assms(1,10) by (auto simp: transactions_before_insert_def Let_def same)
  have parent: "case t_parent_transaction_id new of None \<Rightarrow> True | Some pid \<Rightarrow> pid = t_id new \<or> pid \<in> t_id ` set (transactions d)"
  proof (cases "t_type new = REFUND")
    case True
    then show ?thesis using assms(10) lookup_by_in lookup_by_key by (fastforce split: option.splits)
  next
    case False
    then show ?thesis using checks_of_row(3) [OF assms(7)] by simp
  qed
  have "check_all (transaction_ranges new) = Inr ()" "check_all (transaction_checks new) = Inr ()"
    "check_all (transaction_unique_checks (transactions d) new) = Inr ()"
    using assms(6-8) by (simp_all add: check_all_eq_Inr)
  then show ?thesis
    using before parent assms(9,11-13)
    by (auto simp: insert_transaction_def Let_def record_status_def check_all.simps setting_reason_def split: option.splits)
qed

lemma idempotent_accepts:
  assumes "key \<notin> t_idempotency_key ` set (transactions d)"
    "fst (createTransactionIdempotently a now key fp ins d) = Inr r"
  shows "\<exists>s x d1. ins s d = Inr (ir_transaction r, d1) \<and> \<not> ir_replayed r"
proof -
  obtain d' where "createTransactionIdempotently a now key fp ins d = (Inr r, d')" using assms(2) by (metis prod.collapse)
  then show ?thesis
  proof (cases rule: idempotent_Inr)
    case created
    from created(1) [unfolded withActor_def] show ?thesis using created(2) by (elim sql_transaction_Inr) blast
  next
    case replayed
    then have "key \<in> t_idempotency_key ` set (transactions d)" using lookup_by_in lookup_by_key by (metis image_eqI)
    then show ?thesis using assms(1) by simp
  qed
qed

lemma idempotent_inserts:
  assumes "ins \<lparr>s_tx_id = next_tx_id d, s_now = now, s_actor = Some \<lparr>ac_type = SYSTEM, ac_id = a, ac_reason = None\<rparr>\<rparr> d = Inr (t, d1)"
    "deferred d1 = []"
  shows "fst (createTransactionIdempotently a now key fp ins d) = Inr \<lparr>ir_transaction = t, ir_replayed = False\<rparr>"
  using assms by (simp add: createTransactionIdempotently_def withActor_def sql_transaction_run deferred_checks_def)

section \<open>Which requests are accepted\<close>

text \<open>
  C14: Which payments are accepted. A request whose body passed the validation, with a fresh key, for a merchant
  that exists and with an expiry to come, creates its payment exactly when the amount fits a BIGINT.
\<close>

theorem payment_accepted_iff:
  assumes "inj uid" "reachable uid n0 d" "valid_create_payment dto" "fresh_request inp key d" "mid \<in> m_id ` set (merchants d)"
    "is_hex64 (fingerprintOf sha dto)" "in_db_now inp < computeExpiresAt (in_clock inp) (resolveExpiryMinutes config (cp_provider dto))"
  shows "(\<exists>t d'. create_payment sha config inp dto key mid d = (Inr \<lparr>ir_transaction = t, ir_replayed = False\<rparr>, d'))
    \<longleftrightarrow> nat_of_digits (cp_amount dto) < 2 ^ 63"
proof
  note amount = amount_text_value [of "cp_amount dto"]
  have digits: "is_amount_text (cp_amount dto)" using assms(3) by (simp add: valid_create_payment_def)
  have deferred: "deferred d = []" using reachable_parts(5) [OF assms(1,2)] by (simp add: ledger_ok_def)
  {
    assume small: "nat_of_digits (cp_amount dto) < 2 ^ 63"
    let ?s = "\<lparr>s_tx_id = next_tx_id d, s_now = in_db_now inp, s_actor = Some \<lparr>ac_type = SYSTEM, ac_id = ''api:payments'', ac_reason = None\<rparr>\<rparr>"
    let ?new = "\<lparr>t_id = in_id inp, t_reference = generateTransactionReference (in_iso_date inp) (in_bytes inp),
       t_type = PAYMENT, t_status = INITIATED, t_provider = cp_provider dto, t_provider_reference = None,
       t_amount = int (nat_of_digits (cp_amount dto)), t_currency = cp_currency dto, t_refunded_amount = 0,
       t_customer_msisdn = cp_customer_msisdn dto, t_parent_transaction_id = None,
       t_merchant_id = mid, t_idempotency_key = key, t_request_fingerprint = fingerprintOf sha dto,
       t_version = 1, t_expires_at = Some (computeExpiresAt (in_clock inp) (resolveExpiryMinutes config (cp_provider dto))),
       t_created_at = in_db_now inp, t_updated_at = in_db_now inp\<rparr>"
    have "int (nat_of_digits (cp_amount dto)) < 2 ^ 63" using small by (metis of_nat_less_iff of_nat_numeral of_nat_power)
    then have "\<exists>h. insert_transaction ?s ?new d = Inr (?new, d\<lparr>transactions := transactions d @ [?new], history := history d @ [h]\<rparr>)"
      using assms(3-7) amount(2) [OF digits] reference_short
      by (intro insertion_succeeds)
        (auto simp: transaction_ranges_def transaction_checks_def transaction_unique_checks_def valid_create_payment_def
          fresh_request_def is_currency_def is_hex64_def in_int8_def in_int4_def settled_statuses_def dest: msisdn_short)
    then obtain d1 where "create_payment_body sha config inp dto key mid ?s d = Inr (?new, d1)" "deferred d1 = []"
      using amount(1) [OF digits] deferred by (auto simp: create_payment_body_def)
    then have "fst (create_payment sha config inp dto key mid d) = Inr \<lparr>ir_transaction = ?new, ir_replayed = False\<rparr>"
      unfolding create_payment_def by (rule idempotent_inserts)
    then show "\<exists>t d'. create_payment sha config inp dto key mid d = (Inr \<lparr>ir_transaction = t, ir_replayed = False\<rparr>, d')"
      by (metis prod.collapse)
  }
  assume "\<exists>t d'. create_payment sha config inp dto key mid d = (Inr \<lparr>ir_transaction = t, ir_replayed = False\<rparr>, d')"
  then obtain t where run: "fst (create_payment sha config inp dto key mid d) = Inr \<lparr>ir_transaction = t, ir_replayed = False\<rparr>" by auto
  then obtain s d1 where "create_payment_body sha config inp dto key mid s d = Inr (t, d1)"
    using idempotent_accepts [OF _ run [unfolded create_payment_def]] assms(4) by (auto simp: fresh_request_def)
  then obtain new where "insert_transaction s new d = Inr (t, d1)" "t_amount new = int (nat_of_digits (cp_amount dto))"
    by (auto simp: create_payment_body_def amount(1) [OF digits])
  then have "in_int8 (int (nat_of_digits (cp_amount dto)))"
    unfolding insert_transaction_def by (auto simp: result_simps transaction_ranges_def)
  then show "nat_of_digits (cp_amount dto) < 2 ^ 63"
    unfolding in_int8_def by (metis of_nat_less_iff of_nat_numeral of_nat_power)
qed

theorem payment_accepted_iff_witness:
  "(\<exists>t d'. create_payment demo_sha demo_config (demo_inputs ''t1'' 1 1000) demo_payment ''k1'' (demo_uid 6) demo_start
      = (Inr \<lparr>ir_transaction = t, ir_replayed = False\<rparr>, d'))
   \<and> \<not> (\<exists>t d'. create_payment demo_sha demo_config (demo_inputs ''t1'' 1 1000)
      (demo_payment\<lparr>cp_amount := ''9223372036854775808''\<rparr>) ''k1'' (demo_uid 6) demo_start
      = (Inr \<lparr>ir_transaction = t, ir_replayed = False\<rparr>, d'))"
proof -
  have start: "reachable demo_uid 0 demo_start" unfolding demo_start_def by (rule reach_initial)
  have req: "fresh_request (demo_inputs ''t1'' 1 1000) ''k1'' demo_start" "demo_uid 6 \<in> m_id ` set (merchants demo_start)"
    by (simp_all add: fresh_request_def demo_start_def initial_db_def)
  have valid: "valid_create_payment demo_payment" "valid_create_payment (demo_payment\<lparr>cp_amount := ''9223372036854775808''\<rparr>)"
    by (simp_all add: valid_create_payment_def demo_payment_def is_digit_def char_code_def)
  have hex: "is_hex64 (fingerprintOf demo_sha dto)" for dto by (simp add: fingerprintOf_def)
  have time: "in_db_now (demo_inputs ''t1'' 1 1000) < computeExpiresAt (in_clock (demo_inputs ''t1'' 1 1000)) (resolveExpiryMinutes demo_config p)" for p
    by (simp add: demo_inputs_def computeExpiresAt_def resolveExpiryMinutes_def demo_config_def FALLBACK_EXPIRY_MINUTES_def)
  have amounts: "nat_of_digits (cp_amount demo_payment) < 2 ^ 63"
    "\<not> nat_of_digits (cp_amount (demo_payment\<lparr>cp_amount := ''9223372036854775808''\<rparr>)) < 2 ^ 63"
    by (simp_all add: demo_payment_def nat_of_digits_def char_code_def)
  show ?thesis
    using payment_accepted_iff [OF inj_demo_uid start valid(1) req hex time] payment_accepted_iff [OF inj_demo_uid start valid(2) req hex time]
      amounts by (intro conjI) blast+
qed

text \<open>
  C13: Which refunds are accepted. A request whose body passed the validation, with a fresh key, on a transaction
  of the merchant, creates its refund exactly when the transaction is a payment that is settled (and not
  disputed) and the amount is at most what is not refunded yet. Refunds still under way do not count.
\<close>

theorem refund_accepted_iff:
  assumes "inj uid" "reachable uid n0 d" "valid_create_refund dto" "fresh_request inp key d"
    "lookup_by t_reference ref (transactions d) = Some parent" "t_merchant_id parent = mid"
    "is_hex64 (refundFingerprintOf sha ref dto)"
    "in_db_now inp < computeExpiresAt (in_clock inp) (resolveExpiryMinutes config (t_provider parent))"
  shows "(\<exists>t d'. create_refund sha config inp ref dto key mid d = (Inr \<lparr>ir_transaction = t, ir_replayed = False\<rparr>, d'))
    \<longleftrightarrow> t_type parent = PAYMENT \<and> t_status parent \<in> {SUCCEEDED, PARTIALLY_REFUNDED}
      \<and> int (nat_of_digits (cr_amount dto)) \<le> t_amount parent - t_refunded_amount parent"
proof
  note amount = amount_text_value [of "cr_amount dto"]
  note parts = reachable_parts [OF assms(1,2)]
  have digits: "is_amount_text (cr_amount dto)" using assms(3) by (simp add: valid_create_refund_def)
  have deferred: "deferred d = []" using parts(5) by (simp add: ledger_ok_def)
  note found = row_by_id [OF parts(1) assms(5)]
  have checks: "\<forall>c \<in> set (transaction_checks parent). snd c" and ranges: "\<forall>c \<in> set (transaction_ranges parent). snd c"
    using parts(2) reachable_ranges [OF assms(2)] lookup_by_in [OF assms(5)] by (simp_all add: rows_ok_def ranges_ok_def)
  have merchant: "t_merchant_id parent \<in> m_id ` set (merchants d)"
    using parts(4) lookup_by_in [OF assms(5)] by (auto simp: refs_ok_def)
  have unfolded: "create_refund sha config inp ref dto key mid d = createTransactionIdempotently ''api:payments'' (in_db_now inp) key
      (refundFingerprintOf sha ref dto) (create_refund_body sha config inp ref parent dto key) d"
    using assms(5,6) by (simp add: create_refund_def findByReferenceOrThrow_def)
  {
    assume room: "t_type parent = PAYMENT \<and> t_status parent \<in> {SUCCEEDED, PARTIALLY_REFUNDED}
      \<and> int (nat_of_digits (cr_amount dto)) \<le> t_amount parent - t_refunded_amount parent"
    let ?s = "\<lparr>s_tx_id = next_tx_id d, s_now = in_db_now inp, s_actor = Some \<lparr>ac_type = SYSTEM, ac_id = ''api:payments'', ac_reason = None\<rparr>\<rparr>"
    let ?new = "\<lparr>t_id = in_id inp, t_reference = generateTransactionReference (in_iso_date inp) (in_bytes inp),
       t_type = REFUND, t_status = INITIATED, t_provider = t_provider parent, t_provider_reference = None,
       t_amount = int (nat_of_digits (cr_amount dto)), t_currency = t_currency parent, t_refunded_amount = 0,
       t_customer_msisdn = t_customer_msisdn parent, t_parent_transaction_id = Some (t_id parent),
       t_merchant_id = t_merchant_id parent, t_idempotency_key = key,
       t_request_fingerprint = refundFingerprintOf sha ref dto, t_version = 1,
       t_expires_at = Some (computeExpiresAt (in_clock inp) (resolveExpiryMinutes config (t_provider parent))),
       t_created_at = in_db_now inp, t_updated_at = in_db_now inp\<rparr>"
    have columns: "is_currency (t_currency parent)" "length (t_currency parent) \<le> 3" "is_msisdn (t_customer_msisdn parent)"
      "length (t_customer_msisdn parent) \<le> 16"
      using checks ranges by (simp_all add: transaction_ranges_def transaction_checks_def)
    have "int (nat_of_digits (cr_amount dto)) < 2 ^ 63"
      using room checks_of_row(5) [OF checks] ranges by (simp add: transaction_ranges_def in_int8_def)
    then have "\<exists>h. insert_transaction ?s ?new d = Inr (?new, d\<lparr>transactions := transactions d @ [?new], history := history d @ [h]\<rparr>)"
      using assms(4,7,8) amount(2) [OF digits] reference_short room found merchant columns
      by (intro insertion_succeeds)
        (auto simp: transaction_ranges_def transaction_checks_def transaction_unique_checks_def
          fresh_request_def is_hex64_def in_int8_def in_int4_def settled_statuses_def)
    then obtain d1 where "create_refund_body sha config inp ref parent dto key ?s d = Inr (?new, d1)" "deferred d1 = []"
      using amount(1) [OF digits] deferred by (auto simp: create_refund_body_def)
    then have "fst (create_refund sha config inp ref dto key mid d) = Inr \<lparr>ir_transaction = ?new, ir_replayed = False\<rparr>"
      unfolding unfolded by (rule idempotent_inserts)
    then show "\<exists>t d'. create_refund sha config inp ref dto key mid d = (Inr \<lparr>ir_transaction = t, ir_replayed = False\<rparr>, d')"
      by (metis prod.collapse)
  }
  assume "\<exists>t d'. create_refund sha config inp ref dto key mid d = (Inr \<lparr>ir_transaction = t, ir_replayed = False\<rparr>, d')"
  then obtain t where run: "fst (create_refund sha config inp ref dto key mid d) = Inr \<lparr>ir_transaction = t, ir_replayed = False\<rparr>" by auto
  then obtain s d1 where "create_refund_body sha config inp ref parent dto key s d = Inr (t, d1)"
    using idempotent_accepts [OF _ run [unfolded unfolded]] assms(4) by (auto simp: fresh_request_def)
  then obtain new where new: "insert_transaction s new d = Inr (t, d1)" "t_amount new = int (nat_of_digits (cr_amount dto))"
    "t_type new = REFUND" "t_parent_transaction_id new = Some (t_id parent)"
    by (auto simp: create_refund_body_def amount(1) [OF digits])
  from new(1) show "t_type parent = PAYMENT \<and> t_status parent \<in> {SUCCEEDED, PARTIALLY_REFUNDED}
      \<and> int (nat_of_digits (cr_amount dto)) \<le> t_amount parent - t_refunded_amount parent"
    by (rule insert_transaction_InrD) (use new(2-4) found in auto)
qed

theorem refund_accepted_iff_witness:
  "(\<exists>t d'. create_refund demo_sha demo_config (demo_inputs ''t2'' 2 4000) ''TXN-20260922-010101'' demo_refund ''k2'' (demo_uid 6) demo_settled
      = (Inr \<lparr>ir_transaction = t, ir_replayed = False\<rparr>, d'))
   \<and> \<not> (\<exists>t d'. create_refund demo_sha demo_config (demo_inputs ''t2'' 2 4000) ''TXN-20260922-010101''
      (demo_refund\<lparr>cr_amount := ''10001''\<rparr>) ''k2'' (demo_uid 6) demo_settled = (Inr \<lparr>ir_transaction = t, ir_replayed = False\<rparr>, d'))"
proof -
  let ?row = "demo_row ''t1'' ''TXN-20260922-010101'' ''k1'' 1000 SUCCEEDED 0 3 3000"
  have req: "fresh_request (demo_inputs ''t2'' 2 4000) ''k2'' demo_settled"
    "lookup_by t_reference ''TXN-20260922-010101'' (transactions demo_settled) = Some ?row" "t_merchant_id ?row = demo_uid 6"
    by (simp_all add: fresh_request_def demo_settled_def demo_db_def lookup_by_def demo_row_def demo_inputs_def demo_references)
  have valid: "valid_create_refund demo_refund" "valid_create_refund (demo_refund\<lparr>cr_amount := ''10001''\<rparr>)"
    by (simp_all add: valid_create_refund_def demo_refund_def is_digit_def char_code_def)
  have hex: "is_hex64 (refundFingerprintOf demo_sha ref dto)" for ref dto by (simp add: refundFingerprintOf_def)
  have time: "in_db_now (demo_inputs ''t2'' 2 4000) < computeExpiresAt (in_clock (demo_inputs ''t2'' 2 4000)) (resolveExpiryMinutes demo_config p)" for p
    by (simp add: demo_inputs_def computeExpiresAt_def resolveExpiryMinutes_def demo_config_def FALLBACK_EXPIRY_MINUTES_def)
  have room: "t_type ?row = PAYMENT \<and> t_status ?row \<in> {SUCCEEDED, PARTIALLY_REFUNDED}
      \<and> int (nat_of_digits (cr_amount demo_refund)) \<le> t_amount ?row - t_refunded_amount ?row"
    "\<not> int (nat_of_digits (cr_amount (demo_refund\<lparr>cr_amount := ''10001''\<rparr>))) \<le> t_amount ?row - t_refunded_amount ?row"
    by (simp_all add: demo_refund_def demo_row_def nat_of_digits_def char_code_def)
  show ?thesis
    using refund_accepted_iff [OF inj_demo_uid reach_demo_settled valid(1) req hex time]
      refund_accepted_iff [OF inj_demo_uid reach_demo_settled valid(2) req hex time] room by (intro conjI) blast+
qed

end
