(* ===== verification/Seed_Demo.thy ===== *)
theory Seed_Demo
  imports Sweep Js_Number
begin

text \<open>
  scripts/seed-demo.ts, the script that loads the demonstration data through the services. It is a
  program in a state (the database, the environment of the process, the calls made and the time slept),
  with exceptions. Before each call other sessions may have changed the database; what a call draws
  from its surroundings is indexed by the number of the call. The lines written to the console are
  left out.
\<close>

section \<open>The script as a program\<close>

record seed_state =
  ss_calls :: nat
  ss_slept :: int
  ss_env :: "string \<Rightarrow> string option"
  ss_db :: db

type_synonym 'a seeding = "seed_state \<Rightarrow> (app_error + 'a) \<times> seed_state"

definition seed_return :: "'a \<Rightarrow> 'a seeding" where
  "seed_return x s = (Inr x, s)"

definition seed_fail :: "app_error \<Rightarrow> 'a seeding" where
  "seed_fail e s = (Inl e, s)"

definition seed_bind :: "'a seeding \<Rightarrow> ('a \<Rightarrow> 'b seeding) \<Rightarrow> 'b seeding" where
  "seed_bind m f s = (case m s of (Inl e, s') \<Rightarrow> (Inl e, s') | (Inr x, s') \<Rightarrow> f x s')"

definition seed_try :: "'a seeding \<Rightarrow> (app_error \<Rightarrow> 'a seeding) \<Rightarrow> 'a seeding" where
  "seed_try m h s = (case m s of (Inl e, s') \<Rightarrow> h e s' | (Inr x, s') \<Rightarrow> (Inr x, s'))"

text \<open>A loop over a list, collecting the results.\<close>

fun seed_each :: "('a \<Rightarrow> 'b seeding) \<Rightarrow> 'a list \<Rightarrow> 'b list seeding" where
  "seed_each f [] = seed_return []"
| "seed_each f (x # xs) = seed_bind (f x) (\<lambda>y. seed_bind (seed_each f xs) (\<lambda>ys. seed_return (y # ys)))"

text \<open>
  The surroundings: the digest, ids, clocks and random bytes of each call, the locks a sweep meets, and what
  other sessions do to the database before a call.
\<close>

record surroundings =
  wo_sha :: "string \<Rightarrow> string"
  wo_id :: "nat \<Rightarrow> uuid"
  wo_other_id :: "nat \<Rightarrow> uuid"
  wo_clock :: "nat \<Rightarrow> timestamp"
  wo_db_now :: "nat \<Rightarrow> timestamp"
  wo_iso :: "nat \<Rightarrow> string"
  wo_bytes :: "nat \<Rightarrow> nat list"
  wo_locked :: "nat \<Rightarrow> nat \<Rightarrow> uuid \<Rightarrow> bool"
  wo_others :: "nat \<Rightarrow> db \<Rightarrow> db"

text \<open>The clocks go on by themselves and by what the script sleeps.\<close>

definition seed_time :: "surroundings \<Rightarrow> seed_state \<Rightarrow> timestamp" where
  "seed_time w s = wo_clock w (ss_calls s) + ss_slept s"

definition db_time :: "surroundings \<Rightarrow> seed_state \<Rightarrow> timestamp" where
  "db_time w s = wo_db_now w (ss_calls s) + ss_slept s"

definition call :: "surroundings \<Rightarrow> (seed_state \<Rightarrow> db \<Rightarrow> (app_error + 'a) \<times> db) \<Rightarrow> 'a seeding" where
  "call w service s =
    (case service s (wo_others w (ss_calls s) (ss_db s)) of
       (r, d') \<Rightarrow> (r, s\<lparr>ss_calls := Suc (ss_calls s), ss_db := d'\<rparr>))"

definition query :: "surroundings \<Rightarrow> (db \<Rightarrow> app_error + 'a) \<Rightarrow> 'a seeding" where
  "query w q = call w (\<lambda>s d. (q d, d))"

definition seed_clock :: "surroundings \<Rightarrow> timestamp seeding" where
  "seed_clock w s = (Inr (seed_time w s), s)"

definition sleep :: "int \<Rightarrow> unit seeding" where
  "sleep ms s = (Inr (), s\<lparr>ss_slept := ss_slept s + ms\<rparr>)"

section \<open>Merchants and API keys\<close>

definition DEMO_MERCHANTS :: "create_merchant_dto list" where
  "DEMO_MERCHANTS =
    [\<lparr>cm_code = ''boutique_akwaba'', cm_name = ''Boutique Akwaba''\<rparr>,
     \<lparr>cm_code = ''pharmacie_plateau'', cm_name = ''Pharmacie du Plateau''\<rparr>,
     \<lparr>cm_code = ''maquis_chez_tantie'', cm_name = ''Maquis Chez Tantie''\<rparr>]"









definition readFixedKeyEnv :: "string \<Rightarrow> string option seeding" where
  "readFixedKeyEnv name s = (Inr (if truthy (ss_env s name) then ss_env s name else None), s)"




section \<open>Payments\<close>

datatype scenario_outcome = To_Succeeded | To_Failed | To_Expired | To_Pending

record transaction_scenario =
  sn_index :: nat
  sn_merchant_code :: string
  sn_provider :: provider
  sn_outcome :: scenario_outcome

record seeded_transaction =
  st_reference :: string
  st_status :: transaction_status
  st_merchant_code :: string

definition PROVIDERS :: "provider list" where
  "PROVIDERS = [ORANGE_MONEY, MTN_MOMO, WAVE, MOOV_MONEY]"

definition OUTCOME_COUNTS :: "(scenario_outcome \<times> nat) list" where
  "OUTCOME_COUNTS = [(To_Succeeded, 58), (To_Failed, 6), (To_Expired, 4), (To_Pending, 3)]"

definition FAILURE_REASONS :: "string list" where
  "FAILURE_REASONS =
    [''Solde insuffisant c'' @ [CHR 0xF4] @ ''t'' @ [CHR 0xE9] @ '' client'', ''Timeout op'' @ [CHR 0xE9] @ ''rateur'',
     ''Annul'' @ [CHR 0xE9] @ '' par le client'', ''PIN erron'' @ [CHR 0xE9] @ '' (3 tentatives)'']"

definition buildScenarios :: "transaction_scenario list" where
  "buildScenarios =
    (let merchantCodes = map cm_code DEMO_MERCHANTS;
         outcomes = concat (map (\<lambda>(oc, n). replicate n oc) OUTCOME_COUNTS)
     in map (\<lambda>(i, oc).
          \<lparr>sn_index = i, sn_merchant_code = merchantCodes ! (i mod length merchantCodes),
           sn_provider = PROVIDERS ! (i mod length PROVIDERS), sn_outcome = oc\<rparr>)
        (zip [0..<length outcomes] outcomes))"

definition padStart :: "nat \<Rightarrow> string \<Rightarrow> string" where
  "padStart n s = replicate (n - length s) (CHR ''0'') @ s"

text \<open>\<open>Math.round(spread / 100) * 100\<close>\<close>

definition amountForIndex :: "nat \<Rightarrow> string" where
  "amountForIndex i = (let spread = 500 + (i * 4173) mod 49500 in dec_of_nat ((spread + 50) div 100 * 100))"

definition msisdnForIndex :: "nat \<Rightarrow> string" where
  "msisdnForIndex i = ''+2250700'' @ padStart 6 (dec_of_nat i)"

definition idempotencyKeyForIndex :: "nat \<Rightarrow> string" where
  "idempotencyKeyForIndex i = ''seed-demo-payment-'' @ padStart 4 (dec_of_nat i)"

definition providerReferenceForIndex :: "nat \<Rightarrow> string" where
  "providerReferenceForIndex i = ''SEED-OK-'' @ padStart 4 (dec_of_nat i)"

text \<open>
  The services as the script calls them. A numeric variable counts for the decimal number it writes: the
  rounding of doubles disappears when the instant of expiry is truncated to milliseconds.
\<close>

definition seed_config :: "(string \<Rightarrow> string option) \<Rightarrow> string \<Rightarrow> rat option" where
  "seed_config env k = (case env k of None \<Rightarrow> None | Some v \<Rightarrow> decimal_literal v)"

definition seed_inputs :: "surroundings \<Rightarrow> seed_state \<Rightarrow> request_inputs" where
  "seed_inputs w s =
    \<lparr>in_id = wo_id w (ss_calls s), in_iso_date = wo_iso w (ss_calls s), in_bytes = wo_bytes w (ss_calls s),
     in_clock = seed_time w s, in_db_now = db_time w s\<rparr>"

definition seed_transition :: "surroundings \<Rightarrow> string \<Rightarrow> transition_status_dto \<Rightarrow> int \<Rightarrow> transaction seeding" where
  "seed_transition w reference dto version =
    call w (\<lambda>s d. transition (wo_id w (ss_calls s)) (wo_other_id w (ss_calls s)) (db_time w s) reference dto version d)"

definition to_status :: "transaction_status \<Rightarrow> string \<Rightarrow> transition_status_dto" where
  "to_status st reason = \<lparr>ts_status = st, ts_reason = Some reason, ts_provider_reference = None\<rparr>"

definition seedOnePayment :: "surroundings \<Rightarrow> merchant \<Rightarrow> transaction_scenario \<Rightarrow> seeded_transaction seeding" where
  "seedOnePayment w m scenario =
    (let dto = \<lparr>cp_provider = sn_provider scenario, cp_amount = amountForIndex (sn_index scenario),
                cp_currency = ''XOF'', cp_customer_msisdn = msisdnForIndex (sn_index scenario)\<rparr>;
         key = idempotencyKeyForIndex (sn_index scenario);
         result = (\<lambda>t. \<lparr>st_reference = t_reference t, st_status = t_status t, st_merchant_code = sn_merchant_code scenario\<rparr>)
     in
      seed_bind (call w (\<lambda>s d. create_payment (wo_sha w) (seed_config (ss_env s)) (seed_inputs w s) dto key (m_id m) d)) (\<lambda>r.
      if ir_replayed r then seed_return (result (ir_transaction r))
      else
        seed_bind (seed_transition w (t_reference (ir_transaction r))
          (to_status PENDING (''Push USSD envoy'' @ [CHR 0xE9])) (t_version (ir_transaction r))) (\<lambda>current.
        case sn_outcome scenario of
          To_Pending \<Rightarrow> seed_return (result current)
        | To_Expired \<Rightarrow> seed_return (result current)
        | To_Succeeded \<Rightarrow>
            seed_bind (seed_transition w (t_reference current)
              \<lparr>ts_status = SUCCEEDED, ts_reason = Some (''Confirmation op'' @ [CHR 0xE9] @ ''rateur''),
               ts_provider_reference = Some (providerReferenceForIndex (sn_index scenario))\<rparr> (t_version current))
              (\<lambda>t. seed_return (result t))
        | To_Failed \<Rightarrow>
            seed_bind (seed_transition w (t_reference current)
              (to_status FAILED (FAILURE_REASONS ! (sn_index scenario mod length FAILURE_REASONS))) (t_version current))
              (\<lambda>t. seed_return (result t)))))"

definition EXPIRY_ENV_KEYS :: "string list" where
  "EXPIRY_ENV_KEYS =
    [''PAYMENT_EXPIRY_MINUTES_DEFAULT'', ''PAYMENT_EXPIRY_MINUTES_ORANGE_MONEY'', ''PAYMENT_EXPIRY_MINUTES_MTN_MOMO'',
     ''PAYMENT_EXPIRY_MINUTES_WAVE'', ''PAYMENT_EXPIRY_MINUTES_MOOV_MONEY'']"

text \<open>The variables are put back whether \<open>fn\<close> returns or throws.\<close>

definition withShortExpiry :: "string \<Rightarrow> 'a seeding \<Rightarrow> 'a seeding" where
  "withShortExpiry minutes fn s =
    (case fn (s\<lparr>ss_env := (\<lambda>k. if k \<in> set EXPIRY_ENV_KEYS then Some minutes else ss_env s k)\<rparr>) of
       (r, s') \<Rightarrow> (r, s'\<lparr>ss_env := (\<lambda>k. if k \<in> set EXPIRY_ENV_KEYS then ss_env s k else ss_env s' k)\<rparr>))"

definition EXPIRY_SETTLE_TIMEOUT_MS :: int where
  "EXPIRY_SETTLE_TIMEOUT_MS = 30000"

definition EXPIRY_SETTLE_POLL_MS :: int where
  "EXPIRY_SETTLE_POLL_MS = 500"

definition find_seeded :: "surroundings \<Rightarrow> string \<Rightarrow> transaction seeding" where
  "find_seeded w reference = query w (findByReferenceOrThrow reference)"

definition sweep :: "surroundings \<Rightarrow> nat seeding" where
  "sweep w = call w (\<lambda>s d. expireOverduePending (\<lambda>_. seed_time w s) (\<lambda>_. db_time w s) (wo_locked w (ss_calls s)) d)"

text \<open>
  The loop, with fuel; \<open>None\<close> is out of fuel. Its result is the number of transactions this script expired.
\<close>

fun settle_loop :: "surroundings \<Rightarrow> nat \<Rightarrow> timestamp \<Rightarrow> nat \<Rightarrow> string list \<Rightarrow> nat option seeding" where
  "settle_loop w 0 deadline sweptHere references = seed_return None"
| "settle_loop w (Suc fuel) deadline sweptHere references =
    seed_bind (sweep w) (\<lambda>n.
    seed_bind (seed_each (find_seeded w) references) (\<lambda>rows.
    if \<exists>t \<in> set rows. t_status t \<noteq> EXPIRED \<and> t_status t \<noteq> PENDING
    then seed_fail (Js_Error (''Statut inattendu apr'' @ [CHR 0xE8] @ ''s balayage d'' @ [CHR 0x27] @ ''expiration : ''))
    else if \<forall>t \<in> set rows. t_status t \<noteq> PENDING
    then seed_return (Some (sweptHere + n))
    else
      seed_bind (seed_clock w) (\<lambda>now.
      if deadline \<le> now
      then seed_fail (Js_Error (''Balayage d'' @ [CHR 0x27] @ ''expiration : ''
             @ dec_of_nat (length (filter (\<lambda>t. t_status t = PENDING) rows)) @ '' transaction(s) encore PENDING''))
      else
        seed_bind (sleep EXPIRY_SETTLE_POLL_MS) (\<lambda>_.
        settle_loop w fuel deadline (sweptHere + n) references))))"

definition SETTLE_FUEL :: nat where
  "SETTLE_FUEL = 61"

lemma SETTLE_FUEL_Suc: "SETTLE_FUEL = Suc 60"
  by (simp add: SETTLE_FUEL_def)

definition settleExpiredBatch :: "surroundings \<Rightarrow> string list \<Rightarrow> nat option seeding" where
  "settleExpiredBatch w references =
    seed_bind (seed_clock w) (\<lambda>now.
    settle_loop w SETTLE_FUEL (now + EXPIRY_SETTLE_TIMEOUT_MS) 0 references)"



section \<open>Refunds and a lost dispute\<close>

definition driveToSucceeded :: "surroundings \<Rightarrow> string \<Rightarrow> unit seeding" where
  "driveToSucceeded w reference =
    seed_bind (find_seeded w reference) (\<lambda>found.
    seed_bind
      (if t_status found = INITIATED
       then seed_transition w reference (to_status PENDING ''Traitement du remboursement'') (t_version found)
       else seed_return found) (\<lambda>current.
    if t_status current = PENDING
    then seed_bind (seed_transition w reference
           (to_status SUCCEEDED (''Remboursement confirm'' @ [CHR 0xE9] @ '' par l'' @ [CHR 0x27] @ ''op'' @ [CHR 0xE9] @ ''rateur''))
           (t_version current)) (\<lambda>_. seed_return ())
    else seed_return ()))"




section \<open>Reconciliation exceptions\<close>


definition first_exception :: "reconciliation_kind \<Rightarrow> uuid option \<Rightarrow> db \<Rightarrow> reconciliation_exception option" where
  "first_exception kind tid d = find (\<lambda>x. x_kind x = kind \<and> x_transaction_id x = tid) (exceptions d)"

definition reportDiscrepancyIfMissing ::
    "surroundings \<Rightarrow> reconciliation_kind \<Rightarrow> uuid option \<Rightarrow> discrepancy_input \<Rightarrow> unit seeding" where
  "reportDiscrepancyIfMissing w kind tid build =
    seed_bind (query w (\<lambda>d. Inr (first_exception kind tid d))) (\<lambda>existing.
    if existing \<noteq> None then seed_return ()
    else seed_bind (call w (\<lambda>s d. reportDiscrepancy (wo_id w (ss_calls s)) (db_time w s) build d)) (\<lambda>_. seed_return ()))"



section \<open>The final verification\<close>





section \<open>The scenarios\<close>

lemma buildScenarios_length: "length buildScenarios = 71"
  by (simp add: buildScenarios_def OUTCOME_COUNTS_def Let_def)

lemma padStart_digits: "list_all is_digit s \<Longrightarrow> list_all is_digit (padStart n s)"
  by (auto simp: padStart_def list_all_iff is_digit_def char_code_def)

lemma padStart_number: "nat_of_digits (padStart n s) = nat_of_digits s"
proof -
  have "foldl (\<lambda>n c. 10 * n + (char_code c - 48)) 0 (replicate k (CHR ''0'')) = (0::nat)" for k
    by (induction k) (simp_all add: char_code_def)
  then show ?thesis by (simp add: padStart_def nat_of_digits_def)
qed

lemma idempotencyKey_inject: "idempotencyKeyForIndex i = idempotencyKeyForIndex j \<longleftrightarrow> i = j"
proof
  assume "idempotencyKeyForIndex i = idempotencyKeyForIndex j"
  then have "padStart 4 (dec_of_nat i) = padStart 4 (dec_of_nat j)" by (simp add: idempotencyKeyForIndex_def)
  then show "i = j" using padStart_number nat_of_digits_dec_of_nat by metis
qed simp

lemma first_digit:
  assumes "0 < n"
  shows "\<exists>c cs. dec_of_nat n = c # cs \<and> is_digit c \<and> c \<noteq> CHR ''0'' \<and> list_all is_digit cs"
  using assms
proof (induction n rule: dec_of_nat.induct)
  case (1 n)
  show ?case
  proof (cases "n < 10")
    case True
    then have "char_code (digit_char n) = 48 + n" by simp
    then have "digit_char n \<noteq> CHR ''0''" using 1(2) by (auto simp: char_code_def)
    then show ?thesis using True by (subst dec_of_nat.simps) simp
  next
    case False
    then obtain c cs where "dec_of_nat (n div 10) = c # cs" "is_digit c" "c \<noteq> CHR ''0''" "list_all is_digit cs"
      using 1(1) by (auto simp: div_greater_zero_iff)
    then show ?thesis using False by (subst dec_of_nat.simps) simp
  qed
qed

lemma amountForIndex_valid: "is_amount_text (amountForIndex i)"
proof -
  let ?n = "(500 + (i * 4173) mod 49500 + 50) div 100 * 100"
  have "0 < ?n" by simp
  from first_digit [OF this] show ?thesis by (auto simp: amountForIndex_def Let_def)
qed

lemma index_digits:
  assumes "i < 71"
  shows "length (dec_of_nat i) \<le> 2"
proof -
  have "dec_of_nat i = (if i < 10 then [digit_char i] else [digit_char (i div 10), digit_char (i mod 10)])"
    using assms by (subst dec_of_nat.simps) (auto simp: dec_of_nat.simps)
  then show ?thesis by simp
qed

lemma msisdnForIndex_valid:
  assumes "i < 71"
  shows "is_msisdn (msisdnForIndex i)"
proof -
  have "length (padStart 6 (dec_of_nat i)) = 6" using index_digits [OF assms] by (simp add: padStart_def)
  moreover have "list_all is_digit (padStart 6 (dec_of_nat i))" by (rule padStart_digits [OF dec_of_nat_digits])
  ultimately show ?thesis by (simp add: is_msisdn.simps msisdnForIndex_def is_digit_def char_code_def)
qed

text \<open>
  The scenarios of the demonstration: 71 payments, of which 58 succeed, 6 fail, 4 expire and 3 stay
  pending; the first five, which the later steps of the script take by position, are successful ones; each
  has its own idempotency key and a body that passes the validation of the API.
\<close>

theorem scenarios_are_valid:
  "length buildScenarios = 71
    \<and> map (\<lambda>oc. length (filter (\<lambda>sn. sn_outcome sn = oc) buildScenarios)) [To_Succeeded, To_Failed, To_Expired, To_Pending] = [58, 6, 4, 3]
    \<and> list_all (\<lambda>sn. sn_outcome sn = To_Succeeded) (take 5 (filter (\<lambda>sn. sn_outcome sn \<noteq> To_Expired) buildScenarios))
    \<and> distinct (map (\<lambda>sn. idempotencyKeyForIndex (sn_index sn)) buildScenarios)
    \<and> list_all (\<lambda>sn. valid_create_payment
        \<lparr>cp_provider = sn_provider sn, cp_amount = amountForIndex (sn_index sn), cp_currency = ''XOF'',
         cp_customer_msisdn = msisdnForIndex (sn_index sn)\<rparr> \<and> sn_merchant_code sn \<in> cm_code ` set DEMO_MERCHANTS) buildScenarios"
proof -
  have index: "map sn_index buildScenarios = [0..<71]"
    by (simp add: buildScenarios_def OUTCOME_COUNTS_def Let_def comp_def case_prod_beta)
  have counts: "map (\<lambda>oc. length (filter (\<lambda>sn. sn_outcome sn = oc) buildScenarios)) [To_Succeeded, To_Failed, To_Expired, To_Pending] = [58, 6, 4, 3]"
    by code_simp
  have first: "list_all (\<lambda>sn. sn_outcome sn = To_Succeeded) (take 5 (filter (\<lambda>sn. sn_outcome sn \<noteq> To_Expired) buildScenarios))"
    by code_simp
  have merchants: "list_all (\<lambda>sn. sn_merchant_code sn \<in> cm_code ` set DEMO_MERCHANTS) buildScenarios"
    unfolding list_all_iff
  proof
    fix sn
    assume "sn \<in> set buildScenarios"
    then obtain i where "sn_merchant_code sn = map cm_code DEMO_MERCHANTS ! (i mod length (map cm_code DEMO_MERCHANTS))"
      unfolding buildScenarios_def Let_def set_map by (elim imageE) (simp add: case_prod_beta)
    moreover have "\<dots> \<in> set (map cm_code DEMO_MERCHANTS)" by (rule nth_mem) (simp add: DEMO_MERCHANTS_def)
    ultimately show "sn_merchant_code sn \<in> cm_code ` set DEMO_MERCHANTS" by (simp only: set_map)
  qed
  have "distinct (map idempotencyKeyForIndex [0..<71])" by (simp add: distinct_map inj_on_def idempotencyKey_inject)
  then have keys: "distinct (map (\<lambda>sn. idempotencyKeyForIndex (sn_index sn)) buildScenarios)"
    unfolding index [symmetric] by (simp add: comp_def)
  have "sn_index sn < 71" if "sn \<in> set buildScenarios" for sn
  proof -
    have "sn_index sn \<in> set (map sn_index buildScenarios)" using that by simp
    then show ?thesis unfolding index by simp
  qed
  then have bodies: "list_all (\<lambda>sn. valid_create_payment
      \<lparr>cp_provider = sn_provider sn, cp_amount = amountForIndex (sn_index sn), cp_currency = ''XOF'',
       cp_customer_msisdn = msisdnForIndex (sn_index sn)\<rparr>) buildScenarios"
    using amountForIndex_valid msisdnForIndex_valid
    by (simp add: list_all_iff valid_create_payment_def is_currency_def is_upper_def char_code_def)
  show ?thesis
    by (intro conjI buildScenarios_length counts first keys)
      (use bodies merchants in \<open>simp only: list_all_iff, blast\<close>)
qed

section \<open>The script stays within the services\<close>

definition stays :: "'a seeding \<Rightarrow> bool" where
  "stays m \<longleftrightarrow> (\<forall>s. rtranclp service_step (ss_db s) (ss_db (snd (m s))))"

definition others_use_services :: "surroundings \<Rightarrow> bool" where
  "others_use_services w \<longleftrightarrow> (\<forall>n d. rtranclp service_step d (wo_others w n d))"

named_theorems stays_intros \<open>the script changes the database by service steps only\<close>

lemma stays_return [stays_intros]: "stays (seed_return x)"
  by (simp add: stays_def seed_return_def)

lemma stays_fail [stays_intros]: "stays (seed_fail e)"
  by (simp add: stays_def seed_fail_def)

lemma stays_result:
  assumes "stays m" "m s = (r, s')"
  shows "rtranclp service_step (ss_db s) (ss_db s')"
  using assms by (metis snd_conv stays_def)

lemma stays_bind [stays_intros]:
  assumes "stays m" "\<And>x. stays (f x)"
  shows "stays (seed_bind m f)"
  unfolding stays_def
proof
  fix s :: seed_state
  obtain r s' where m: "m s = (r, s')" by (cases "m s") auto
  have "rtranclp service_step (ss_db s) (ss_db s')" by (rule stays_result [OF assms(1) m])
  moreover have "rtranclp service_step (ss_db s') (ss_db (snd (f x s')))" for x using assms(2) by (simp add: stays_def)
  ultimately show "rtranclp service_step (ss_db s) (ss_db (snd (seed_bind m f s)))"
    by (cases r) (simp_all add: seed_bind_def m rtranclp_trans)
qed

lemma stays_try [stays_intros]:
  assumes "stays m" "\<And>e. stays (h e)"
  shows "stays (seed_try m h)"
  unfolding stays_def
proof
  fix s :: seed_state
  obtain r s' where m: "m s = (r, s')" by (cases "m s") auto
  have "rtranclp service_step (ss_db s) (ss_db s')" by (rule stays_result [OF assms(1) m])
  moreover have "rtranclp service_step (ss_db s') (ss_db (snd (h e s')))" for e using assms(2) by (simp add: stays_def)
  ultimately show "rtranclp service_step (ss_db s) (ss_db (snd (seed_try m h s)))"
    by (cases r) (simp_all add: seed_try_def m rtranclp_trans)
qed

lemma stays_if [stays_intros]: "stays m \<Longrightarrow> stays n \<Longrightarrow> stays (if b then m else n)"
  by simp

lemma stays_option [stays_intros]: "stays m \<Longrightarrow> (\<And>x. stays (f x)) \<Longrightarrow> stays (case v of None \<Rightarrow> m | Some x \<Rightarrow> f x)"
  by (cases v) simp_all

lemma stays_pair [stays_intros]: "(\<And>x y. stays (f x y)) \<Longrightarrow> stays (case v of (x, y) \<Rightarrow> f x y)"
  by (cases v) simp

lemma stays_each [stays_intros]: "(\<And>x. stays (f x)) \<Longrightarrow> stays (seed_each f xs)"
  by (induction xs) (auto intro!: stays_intros)

lemma stays_clock [stays_intros]: "stays (seed_clock w)" "stays (sleep ms)" "stays (readFixedKeyEnv name)"
    "stays (\<lambda>s. (Inr (db_time w s), s))"
  by (simp_all add: stays_def seed_clock_def sleep_def readFixedKeyEnv_def)

lemma stays_call:
  assumes "others_use_services w" "\<And>s d. rtranclp service_step d (snd (service s d))"
  shows "stays (call w service)"
  unfolding stays_def
proof
  fix s :: seed_state
  have "rtranclp service_step (ss_db s) (wo_others w (ss_calls s) (ss_db s))" using assms(1) by (simp add: others_use_services_def)
  also have "rtranclp service_step \<dots> (snd (service s (wo_others w (ss_calls s) (ss_db s))))" by (rule assms(2))
  finally show "rtranclp service_step (ss_db s) (ss_db (snd (call w service s)))"
    by (simp add: call_def case_prod_beta)
qed

lemma expire_loop_steps: "rtranclp service_step d (snd (expire_loop clock now locked i tot d))"
proof (induction clock now locked i tot d rule: expire_loop.induct)
  case (1 clock now locked i tot d)
  have step: "service_step d (snd (expire_one_batch (clock i) (now i) (locked i) d))" by (rule step_expire)
  show ?case
  proof (cases "expire_one_batch (clock i) (now i) (locked i) d")
    case (Pair r d')
    then show ?thesis
      using step 1 by (cases r) (auto simp: expire_loop.simps [of clock now locked i tot d] intro: converse_rtranclp_into_rtranclp)
  qed
qed

lemma stays_services [stays_intros]:
  assumes others: "others_use_services w"
  shows
  "stays (query w q)"
  "stays (call w (\<lambda>s d. create_merchant (a1 s) (a2 s) (a3 s) dto1 d))"
  "stays (call w (\<lambda>s d. revoke_api_key kid (a4 s) d))"
  "stays (call w (\<lambda>s d. create_api_key sha (a5 s) (a6 s) given (a7 s) dto2 d))"
  "stays (call w (\<lambda>s d. create_payment sha (c1 s) (a8 s) dto3 key m d))"
  "stays (call w (\<lambda>s d. create_refund sha (c2 s) (a9 s) ref dto4 key m d))"
  "stays (call w (\<lambda>s d. transition (b1 s) (b2 s) (b3 s) ref dto5 v d))"
  "stays (call w (\<lambda>s d. reportDiscrepancy (b4 s) (b5 s) inp d))"
  "stays (call w (\<lambda>s d. resolve_exception xid (b6 s) resolution who d))"
  "stays (call w (\<lambda>s d. create_dataset_load started (b7 s) d))"
  "stays (sweep w)"
  unfolding query_def sweep_def
  by (rule stays_call [OF others], simp add: service_step.intros expireOverduePending_def expire_loop_steps r_into_rtranclp)+


lemma stays_transition [stays_intros]: "others_use_services w \<Longrightarrow> stays (seed_transition w ref dto v)"
  unfolding seed_transition_def by (rule stays_services)

lemma stays_find [stays_intros]: "others_use_services w \<Longrightarrow> stays (find_seeded w ref)"
  unfolding find_seeded_def by (rule stays_services)

lemma stays_payment [stays_intros]: "others_use_services w \<Longrightarrow> stays (seedOnePayment w m sn)"
  unfolding seedOnePayment_def Let_def by (auto intro!: stays_intros split: scenario_outcome.split)

lemma stays_short_expiry [stays_intros]: "stays fn \<Longrightarrow> stays (withShortExpiry minutes fn)"
  unfolding stays_def
proof
  fix s :: seed_state
  assume fn: "\<forall>s. rtranclp service_step (ss_db s) (ss_db (snd (fn s)))"
  let ?s = "s\<lparr>ss_env := (\<lambda>k. if k \<in> set EXPIRY_ENV_KEYS then Some minutes else ss_env s k)\<rparr>"
  have "rtranclp service_step (ss_db ?s) (ss_db (snd (fn ?s)))" using fn by blast
  then show "rtranclp service_step (ss_db s) (ss_db (snd (withShortExpiry minutes fn s)))"
    by (simp add: withShortExpiry_def case_prod_beta)
qed

lemma stays_settle [stays_intros]: "others_use_services w \<Longrightarrow> stays (settle_loop w fuel deadline n refs)"
  by (induction fuel arbitrary: n) (auto intro!: stays_intros)


lemma stays_drive [stays_intros]: "others_use_services w \<Longrightarrow> stays (driveToSucceeded w ref)"
  unfolding driveToSucceeded_def by (auto intro!: stays_intros)


lemma stays_report [stays_intros]: "others_use_services w \<Longrightarrow> stays (reportDiscrepancyIfMissing w kind tid build)"
  unfolding reportDiscrepancyIfMissing_def by (auto intro!: stays_intros)




section \<open>The trial balance\<close>








text \<open>A quiet world for the examples: nobody else acts, and the clock stands still.\<close>

definition quiet_world :: "timestamp \<Rightarrow> surroundings" where
  "quiet_world clock =
    \<lparr>wo_sha = demo_sha, wo_id = demo_uid, wo_other_id = demo_uid, wo_clock = (\<lambda>_. clock), wo_db_now = (\<lambda>_. clock),
     wo_iso = (\<lambda>_. []), wo_bytes = (\<lambda>_. []), wo_locked = (\<lambda>_ _ _. False), wo_others = (\<lambda>_ d. d)\<rparr>"

definition seed_state_of :: "db \<Rightarrow> seed_state" where
  "seed_state_of d = \<lparr>ss_calls = 0, ss_slept = 0, ss_env = (\<lambda>_. None), ss_db = d\<rparr>"

lemma quiet_world_others: "others_use_services (quiet_world clock)"
  by (simp add: others_use_services_def quiet_world_def)


section \<open>Waiting for the expiry of the short-lived payments\<close>

text \<open>A call does not sleep.\<close>

definition awake :: "'a seeding \<Rightarrow> bool" where
  "awake m \<longleftrightarrow> (\<forall>s. ss_slept (snd (m s)) = ss_slept s \<and> ss_calls s \<le> ss_calls (snd (m s)))"

lemma awake_call: "awake (call w service)"
  by (simp add: awake_def call_def case_prod_beta)

lemma awake_bind: "awake m \<Longrightarrow> (\<And>x. awake (f x)) \<Longrightarrow> awake (seed_bind m f)"
  unfolding awake_def seed_bind_def
  by (auto split: prod.split sum.split) (metis snd_conv order_trans)+

lemma awake_finds: "awake (seed_each (find_seeded w) refs)"
proof (induction refs)
  case Nil
  then show ?case by (simp add: awake_def seed_return_def)
next
  case (Cons r refs)
  then show ?case
    by (auto intro!: awake_bind simp: find_seeded_def query_def awake_call) (simp add: awake_def seed_return_def)
qed

lemma awake_time:
  assumes "awake m" "m s = (r, s')" "mono (wo_clock w)"
  shows "seed_time w s \<le> seed_time w s'"
proof -
  have "ss_slept s' = ss_slept s" "ss_calls s \<le> ss_calls s'" using assms(1,2) by (metis awake_def snd_conv)+
  then show ?thesis using assms(3) by (simp add: seed_time_def monoD)
qed

text \<open>The transactions found were in the database at some moment of the loop.\<close>

lemma finds_rows:
  assumes "others_use_services w" "seed_each (find_seeded w) refs s = (Inr rows, s')" "r \<in> set refs"
  shows "\<exists>d t. t \<in> set rows \<and> t \<in> set (transactions d) \<and> t_reference t = r
    \<and> rtranclp service_step (ss_db s) d \<and> rtranclp service_step d (ss_db s')"
  using assms(2,3)
proof (induction refs arbitrary: s rows)
  case Nil
  then show ?case by simp
next
  case (Cons r0 refs)
  let ?d = "wo_others w (ss_calls s) (ss_db s)"
  let ?s = "s\<lparr>ss_calls := Suc (ss_calls s), ss_db := ?d\<rparr>"
  have find: "find_seeded w r0 s = (findByReferenceOrThrow r0 ?d, ?s)"
    by (simp add: find_seeded_def query_def call_def)
  obtain t where t: "findByReferenceOrThrow r0 ?d = Inr t"
    using Cons.prems(1) by (cases "findByReferenceOrThrow r0 ?d") (simp_all add: seed_bind_def find)
  obtain ts where ts: "seed_each (find_seeded w) refs ?s = (Inr ts, s')" "rows = t # ts"
    using Cons.prems(1)
    by (cases "seed_each (find_seeded w) refs ?s"; cases "fst (seed_each (find_seeded w) refs ?s)")
      (auto simp: seed_bind_def find t seed_return_def)
  have before: "rtranclp service_step (ss_db s) ?d" using assms(1) by (simp add: others_use_services_def)
  have after: "rtranclp service_step ?d (ss_db s')"
    using stays_result [OF stays_each ts(1)] stays_find [OF assms(1)] by simp
  have row: "t \<in> set (transactions ?d)" "t_reference t = r0"
    using t by (auto simp: findByReferenceOrThrow_def split: option.splits dest: lookup_by_SomeD)
  show ?case
  proof (cases "r = r0")
    case True
    then show ?thesis using row before after ts(2) by (metis list.set_intros(1))
  next
    case False
    then have "r \<in> set refs" using Cons.prems(2) by simp
    from Cons.IH [OF ts(1) this] obtain d u where "u \<in> set ts" "u \<in> set (transactions d)" "t_reference u = r"
      "rtranclp service_step ?d d" "rtranclp service_step d (ss_db s')" by auto
    then show ?thesis using ts(2) before rtranclp_trans [OF before] by (metis list.set_intros(2))
  qed
qed

definition all_expired :: "string list \<Rightarrow> db \<Rightarrow> bool" where
  "all_expired refs d \<longleftrightarrow> (\<forall>r \<in> set refs. \<exists>t \<in> set (transactions d). t_reference t = r \<and> t_status t = EXPIRED)"

lemma finds_all_expired:
  assumes "system_ok (ss_db s)" "others_use_services w" "seed_each (find_seeded w) refs s = (Inr rows, s')"
    "\<forall>t \<in> set rows. t_status t = EXPIRED"
  shows "all_expired refs (ss_db s')"
  unfolding all_expired_def
proof
  fix r assume "r \<in> set refs"
  from finds_rows [OF assms(2,3) this] obtain d t where t: "t \<in> set rows" "t \<in> set (transactions d)" "t_reference t = r"
    "rtranclp service_step (ss_db s) d" "rtranclp service_step d (ss_db s')" by blast
  have "system_ok d" using steps_evolve [OF t(4) assms(1)] by simp
  from row_later [OF t(5) this t(2)] obtain u where u: "u \<in> set (transactions (ss_db s'))" "row_evolves t u" .
  have "t_status u = EXPIRED"
    using u(2) terminal_stays [of EXPIRED "t_status u"] assms(4) t(1) by (simp add: row_evolves_def is_terminal_def)
  moreover have "t_reference u = r" using u(2) t(3) by (simp add: row_evolves_def frozen_columns_kept_def)
  ultimately show "\<exists>t \<in> set (transactions (ss_db s')). t_reference t = r \<and> t_status t = EXPIRED" using u(1) by blast
qed

text \<open>The outcome of the loop: an exception, or a number when all the references have expired.\<close>

definition settled :: "string list \<Rightarrow> (app_error + nat option) \<times> seed_state \<Rightarrow> bool" where
  "settled refs outcome \<longleftrightarrow>
    (case outcome of (Inl e, s') \<Rightarrow> True | (Inr None, s') \<Rightarrow> False | (Inr (Some n), s') \<Rightarrow> all_expired refs (ss_db s'))"

lemma settle_round:
  assumes "others_use_services w" "mono (wo_clock w)" "system_ok (ss_db s)"
  shows "settled refs (settle_loop w (Suc fuel) deadline n refs s)
    \<or> (\<exists>n' s2. settle_loop w (Suc fuel) deadline n refs s = settle_loop w fuel deadline n' refs s2
        \<and> seed_time w s + 500 \<le> seed_time w s2 \<and> seed_time w s < deadline \<and> system_ok (ss_db s2))"
proof -
  obtain r1 s1 where sweep: "sweep w s = (r1, s1)" by (cases "sweep w s")
  obtain r2 s2 where finds: "seed_each (find_seeded w) refs s1 = (r2, s2)" by (cases "seed_each (find_seeded w) refs s1")
  have awake_sweep: "awake (sweep w)" unfolding sweep_def by (rule awake_call)
  have "seed_time w s \<le> seed_time w s1" by (rule awake_time [OF awake_sweep sweep assms(2)])
  also have "\<dots> \<le> seed_time w s2" by (rule awake_time [OF awake_finds finds assms(2)])
  finally have time: "seed_time w s \<le> seed_time w s2" .
  have ok1: "system_ok (ss_db s1)"
    using steps_evolve [OF stays_result [OF stays_services(11) [OF assms(1)] sweep] assms(3)] by simp
  have ok2: "system_ok (ss_db s2)"
    using steps_evolve [OF stays_result [OF stays_each finds] ok1] stays_find [OF assms(1)] by simp
  consider (failed) e where "r1 = Inl e" | (not_found) m e where "r1 = Inr m" "r2 = Inl e" | (rows) m rows where "r1 = Inr m" "r2 = Inr rows"
    by (cases r1; cases r2) auto
  then show ?thesis
  proof cases
    case failed
    then show ?thesis by (simp add: seed_bind_def sweep settled_def)
  next
    case not_found
    then show ?thesis by (simp add: seed_bind_def sweep finds settled_def)
  next
    case (rows m ts)
    consider (other) "\<exists>t \<in> set ts. t_status t \<noteq> EXPIRED \<and> t_status t \<noteq> PENDING" | (finished) "\<forall>t \<in> set ts. t_status t = EXPIRED"
      | (wait) "\<not> (\<exists>t \<in> set ts. t_status t \<noteq> EXPIRED \<and> t_status t \<noteq> PENDING)" "\<not> (\<forall>t \<in> set ts. t_status t \<noteq> PENDING)"
      by blast
    then show ?thesis
    proof cases
      case other
      then show ?thesis by (simp add: seed_bind_def sweep finds rows seed_fail_def settled_def)
    next
      case finished
      then have "all_expired refs (ss_db s2)"
        using finds_all_expired [OF ok1 assms(1)] finds rows by simp
      then show ?thesis using finished by (simp add: seed_bind_def sweep finds rows seed_return_def settled_def)
    next
      case wait
      then have conditions: "(\<exists>t \<in> set ts. t_status t \<noteq> EXPIRED \<and> t_status t \<noteq> PENDING) = False"
        "(\<forall>t \<in> set ts. t_status t \<noteq> PENDING) = False" by blast+
      show ?thesis
      proof (cases "deadline \<le> seed_time w s2")
        case True
        then show ?thesis by (simp add: seed_bind_def sweep finds rows conditions seed_clock_def seed_fail_def settled_def)
      next
        case False
        let ?s3 = "s2\<lparr>ss_slept := ss_slept s2 + 500\<rparr>"
        have "settle_loop w (Suc fuel) deadline n refs s = settle_loop w fuel deadline (n + m) refs ?s3"
          using False
          by (simp add: seed_bind_def sweep finds rows conditions seed_clock_def sleep_def EXPIRY_SETTLE_POLL_MS_def)
        moreover have "seed_time w ?s3 = seed_time w s2 + 500" by (simp add: seed_time_def)
        ultimately show ?thesis using False time ok2 by (intro disjI2 exI [of _ "n + m"] exI [of _ ?s3]) simp
      qed
    qed
  qed
qed

lemma settle_loop_settles:
  assumes "others_use_services w" "mono (wo_clock w)"
  shows "system_ok (ss_db s) \<Longrightarrow> deadline - seed_time w s \<le> 500 * int fuel
    \<Longrightarrow> settled refs (settle_loop w (Suc fuel) deadline n refs s)"
proof (induction fuel arbitrary: n s)
  case 0
  then show ?case using settle_round [OF assms 0(1), of refs 0 deadline n] by auto
next
  case (Suc fuel n s)
  from settle_round [OF assms Suc.prems(1), of refs "Suc fuel" deadline n] show ?case
  proof
    assume "\<exists>n' s2. settle_loop w (Suc (Suc fuel)) deadline n refs s = settle_loop w (Suc fuel) deadline n' refs s2
        \<and> seed_time w s + 500 \<le> seed_time w s2 \<and> seed_time w s < deadline \<and> system_ok (ss_db s2)"
    then obtain n' s2 where run: "settle_loop w (Suc (Suc fuel)) deadline n refs s = settle_loop w (Suc fuel) deadline n' refs s2"
      and s2: "seed_time w s + 500 \<le> seed_time w s2" "system_ok (ss_db s2)" by blast
    have "deadline - seed_time w s2 \<le> 500 * int fuel" using Suc.prems(2) s2(1) by simp
    from Suc.IH [OF s2(2) this] show ?thesis unfolding run .
  qed
qed

text \<open>
  C37: Waiting for the short-lived payments ends: if the clock of the process does not go back, the loop
  never needs more than the 61 rounds of its fuel, whatever the sweeps expire and whatever other sessions
  do; and when it returns a number, every one of the payments waited for is EXPIRED.
\<close>

theorem settling_ends:
  assumes "inj uid" "reachable uid n0 (ss_db s)" "others_use_services w" "mono (wo_clock w)"
    "settleExpiredBatch w refs s = (r, s')"
  shows "r \<noteq> Inr None \<and> (\<forall>n. r = Inr (Some n) \<longrightarrow> all_expired refs (ss_db s'))"
proof -
  have "system_ok (ss_db s)" using reachable_system_ok [OF assms(2,1)] .
  then have "settled refs (settle_loop w (Suc 60) (seed_time w s + 30000) 0 refs s)"
    using settle_loop_settles [OF assms(3,4), of s "seed_time w s + 30000" 60] by simp
  then have "settled refs (settleExpiredBatch w refs s)"
    by (simp add: settleExpiredBatch_def seed_bind_def seed_clock_def SETTLE_FUEL_Suc EXPIRY_SETTLE_TIMEOUT_MS_def del: settle_loop.simps)
  then show ?thesis unfolding assms(5) settled_def by (auto split: sum.splits option.splits)
qed

theorem settling_ends_witness:
  "\<exists>s'. settleExpiredBatch (quiet_world 1500000) [''TXN-20260922-030303''] (seed_state_of demo_expired) = (Inr (Some 0), s')
    \<and> all_expired [''TXN-20260922-030303''] (ss_db s')"
proof -
  let ?w = "quiet_world 1500000" and ?s = "seed_state_of demo_expired"
  obtain r s' where run: "settleExpiredBatch ?w [''TXN-20260922-030303''] ?s = (r, s')" by fastforce
  have "expireOverduePending (\<lambda>_. 1500000) (\<lambda>_. 1500000) (\<lambda>_ _. False) demo_expired = (Inr 0, demo_expired\<lparr>next_tx_id := 13\<rparr>)"
    unfolding expireOverduePending_def
    by (subst expire_loop.simps) (simp add: eval_simps demo_defs demo_expired_def)
  moreover have "findByReferenceOrThrow ''TXN-20260922-030303'' (demo_expired\<lparr>next_tx_id := 13\<rparr>)
      = Inr (demo_row ''t3'' ''TXN-20260922-030303'' ''k3'' 20000 EXPIRED 0 3 1000000)"
    by (simp add: findByReferenceOrThrow_def lookup_by_def demo_expired_def demo_db_def demo_row_def demo_refund_row_def)
  ultimately have "fst (settleExpiredBatch ?w [''TXN-20260922-030303''] ?s) = Inr (Some 0)"
    unfolding settleExpiredBatch_def SETTLE_FUEL_Suc settle_loop.simps
    by (simp add: seed_bind_def seed_clock_def seed_time_def db_time_def sweep_def call_def
      quiet_world_def seed_state_of_def find_seeded_def query_def seed_return_def demo_row_def)
  then have r: "r = Inr (Some 0)" using run by simp
  have "mono (wo_clock ?w)" by (simp add: quiet_world_def mono_def)
  moreover have "reachable demo_uid 0 (ss_db ?s)" using reach_demo_expired by (simp add: seed_state_of_def)
  ultimately show ?thesis
    using settling_ends [OF inj_demo_uid _ quiet_world_others _ run] run r by blast
qed

end
