(* ===== verification/Stats.thy ===== *)
theory Stats
  imports Lifecycle Dates
begin

text \<open>
  stats/stats.service.ts: the figures of the dashboard. PostgreSQL groups and counts, the service folds
  the groups into maps and lists every status. The order in which PostgreSQL returns the groups is not
  specified; here they come in the order of their first row. The properties: the folded figures are the
  direct counts, they add up, and a merchant's figures depend on its own transactions alone.
\<close>

section \<open>The queries\<close>

record group_count =
  g_type :: transaction_type
  g_status :: transaction_status
  g_count :: nat

text \<open>\<open>groupBy({ by: ["type", "status"], where, _count })\<close>\<close>

definition group_by_type_status :: "transaction list \<Rightarrow> group_count list" where
  "group_by_type_status rows =
    map (\<lambda>k. \<lparr>g_type = fst k, g_status = snd k, g_count = length (filter (\<lambda>t. (t_type t, t_status t) = k) rows)\<rparr>)
      (remdups (map (\<lambda>t. (t_type t, t_status t)) rows))"

definition in_scope :: "uuid option \<Rightarrow> transaction \<Rightarrow> bool" where
  "in_scope merchantId t \<longleftrightarrow> \<not> truthy merchantId \<or> t_merchant_id t = the merchantId"

definition open_exceptions :: "db \<Rightarrow> nat" where
  "open_exceptions d = length (filter (\<lambda>x. x_resolved_at x = None) (exceptions d))"

text \<open>\<open>_max\<close> and \<open>_min\<close> of a column: null on no value.\<close>

definition aggregate_max :: "int list \<Rightarrow> int option" where
  "aggregate_max xs = (if xs = [] then None else Some (fold max xs (hd xs)))"

definition aggregate_min :: "int list \<Rightarrow> int option" where
  "aggregate_min xs = (if xs = [] then None else Some (fold min xs (hd xs)))"

definition window_start :: "db \<Rightarrow> timestamp option" where
  "window_start d = aggregate_min (List.map_filter l_started_at (loads d))"

definition window_end :: "db \<Rightarrow> timestamp option" where
  "window_end d = aggregate_max (map l_loaded_at (loads d))"

section \<open>The response\<close>

record status_count =
  sc_status :: transaction_status
  sc_count :: nat

record payment_stats =
  ps_total :: nat
  ps_by_status :: "status_count list"

record reconciliation_stats =
  rs_window_start :: string
  rs_window_end :: string
  rs_settled :: int
  rs_reconciled :: int

record stats_response =
  sr_scope :: string
  sr_total :: nat
  sr_by_status :: "status_count list"
  sr_payments :: payment_stats
  sr_open_exceptions :: "nat option"
  sr_reconciliation :: "reconciliation_stats option"
  sr_loaded_at :: "string option"

section \<open>StatsService\<close>

definition ALL_STATUSES :: "transaction_status list" where
  "ALL_STATUSES = [INITIATED, PENDING, SUCCEEDED, FAILED, EXPIRED, PARTIALLY_REFUNDED, REFUNDED, DISPUTED, REVERSED]"

definition IN_PROGRESS_STATUSES :: "transaction_status list" where
  "IN_PROGRESS_STATUSES = [INITIATED, PENDING]"

definition or_zero :: "nat option \<Rightarrow> nat" where
  "or_zero n = (case n of None \<Rightarrow> 0 | Some k \<Rightarrow> k)"

definition toStatusCounts :: "(transaction_status \<rightharpoonup> nat) \<Rightarrow> status_count list" where
  "toStatusCounts counts = map (\<lambda>st. \<lparr>sc_status = st, sc_count = or_zero (counts st)\<rparr>) ALL_STATUSES"

lemma or_zero_simps [simp]: "or_zero None = 0" "or_zero (Some n) = n"
  by (simp_all add: or_zero_def)

text \<open>The two maps and the two totals, after one group more.\<close>

record tallies =
  ta_all :: "transaction_status \<rightharpoonup> nat"
  ta_payments :: "transaction_status \<rightharpoonup> nat"
  ta_total :: nat
  ta_total_payments :: nat

definition tally :: "tallies \<Rightarrow> group_count \<Rightarrow> tallies" where
  "tally acc row =
    (let acc1 = acc\<lparr>ta_all := (ta_all acc)(g_status row \<mapsto> or_zero (ta_all acc (g_status row)) + g_count row),
                    ta_total := ta_total acc + g_count row\<rparr>
     in if g_type row = PAYMENT
        then acc1\<lparr>ta_payments := (ta_payments acc1)(g_status row \<mapsto> or_zero (ta_payments acc1 (g_status row)) + g_count row),
                  ta_total_payments := ta_total_payments acc1 + g_count row\<rparr>
        else acc1)"

definition tally_all :: "group_count list \<Rightarrow> tallies" where
  "tally_all grouped =
    foldl tally \<lparr>ta_all = Map.empty, ta_payments = Map.empty, ta_total = 0, ta_total_payments = 0\<rparr> grouped"

definition in_window_and_settled :: "timestamp \<Rightarrow> timestamp \<Rightarrow> transaction \<Rightarrow> bool" where
  "in_window_and_settled lo hi t \<longleftrightarrow> lo \<le> t_created_at t \<and> t_created_at t \<le> hi \<and> t_status t \<notin> set IN_PROGRESS_STATUSES"

definition has_open_exception :: "db \<Rightarrow> transaction \<Rightarrow> bool" where
  "has_open_exception d t \<longleftrightarrow> list_ex (\<lambda>x. x_transaction_id x = Some (t_id t) \<and> x_resolved_at x = None) (exceptions d)"

definition reconciliation_stats_of :: "timestamp \<Rightarrow> timestamp \<Rightarrow> db \<Rightarrow> reconciliation_stats" where
  "reconciliation_stats_of lo hi d =
    (let settled = length (filter (in_window_and_settled lo hi) (transactions d));
         withOpenException = length (filter (\<lambda>t. in_window_and_settled lo hi t \<and> has_open_exception d t) (transactions d))
     in \<lparr>rs_window_start = toISOString lo, rs_window_end = toISOString hi, rs_settled = int settled,
         rs_reconciled = int settled - int withOpenException\<rparr>)"

definition compute_stats :: "uuid option \<Rightarrow> db \<Rightarrow> stats_response" where
  "compute_stats merchantId d =
    (let grouped = group_by_type_status (filter (in_scope merchantId) (transactions d));
         openExceptions = (if truthy merchantId then None else Some (open_exceptions d));
         figures = tally_all grouped;
         windowStart = window_start d;
         windowEnd = window_end d;
         reconciliation = (if truthy merchantId \<or> windowStart = None \<or> windowEnd = None then None
           else Some (reconciliation_stats_of (the windowStart) (the windowEnd) d))
     in \<lparr>sr_scope = (if truthy merchantId then ''MERCHANT'' else ''GLOBAL''), sr_total = ta_total figures,
         sr_by_status = toStatusCounts (ta_all figures),
         sr_payments = \<lparr>ps_total = ta_total_payments figures, ps_by_status = toStatusCounts (ta_payments figures)\<rparr>,
         sr_open_exceptions = openExceptions, sr_reconciliation = reconciliation,
         sr_loaded_at = map_option toISOString windowEnd\<rparr>)"

text \<open>stats.controller.ts: open to every key; a MERCHANT key is bounded to its merchant.\<close>

definition get_stats :: "(string \<Rightarrow> string) \<Rightarrow> string option \<Rightarrow> db \<Rightarrow> (app_error + stats_response) \<times> db" where
  "get_stats sha header =
    guarded sha (required_roles None None) header
      (\<lambda>auth d. (Inr (compute_stats (if au_role auth = MERCHANT then au_merchant_id auth else None) d), d))"

section \<open>The fold is the count\<close>

lemma sum_groups:
  "sum_list (map (\<lambda>g. if P (g_type g) (g_status g) then g_count g else 0) (group_by_type_status rows))
    = length (filter (\<lambda>t. P (t_type t) (t_status t)) rows)"
proof -
  let ?f = "\<lambda>t. (t_type t, t_status t)"
  have "sum_list (map (\<lambda>k. if P (fst k) (snd k) then length (filter (\<lambda>t. ?f t = k) rows) else 0) ks)
      = length (filter (\<lambda>t. ?f t \<in> set ks \<and> P (t_type t) (t_status t)) rows)" if "distinct ks" for ks
    using that
  proof (induction ks)
    case (Cons k ks)
    have "length (filter (\<lambda>t. ?f t \<in> set (k # ks) \<and> P (t_type t) (t_status t)) rows)
      = length (filter (\<lambda>t. ?f t = k \<and> P (t_type t) (t_status t)) rows)
        + length (filter (\<lambda>t. ?f t \<in> set ks \<and> P (t_type t) (t_status t)) rows)"
      using Cons.prems by (induction rows) auto
    moreover have "(if P (fst k) (snd k) then length (filter (\<lambda>t. ?f t = k) rows) else 0)
      = length (filter (\<lambda>t. ?f t = k \<and> P (t_type t) (t_status t)) rows)"
      by (cases k) (auto intro: arg_cong [where f = length] filter_cong simp: filter_empty_conv)
    ultimately show ?case using Cons by simp
  qed simp
  from this [of "remdups (map ?f rows)"] show ?thesis
    by (simp add: group_by_type_status_def comp_def cong: if_cong filter_cong)
qed

lemma tally_step:
  "or_zero (ta_all (tally acc g) st) = or_zero (ta_all acc st) + (if g_status g = st then g_count g else 0)"
  "or_zero (ta_payments (tally acc g) st)
    = or_zero (ta_payments acc st) + (if g_type g = PAYMENT \<and> g_status g = st then g_count g else 0)"
  "ta_total (tally acc g) = ta_total acc + g_count g"
  "ta_total_payments (tally acc g) = ta_total_payments acc + (if g_type g = PAYMENT then g_count g else 0)"
  by (auto simp: tally_def Let_def or_zero_def)

lemma tally_fold:
  "or_zero (ta_all (foldl tally acc gs) st) = or_zero (ta_all acc st) + sum_list (map (\<lambda>g. if g_status g = st then g_count g else 0) gs)"
  "or_zero (ta_payments (foldl tally acc gs) st)
    = or_zero (ta_payments acc st) + sum_list (map (\<lambda>g. if g_type g = PAYMENT \<and> g_status g = st then g_count g else 0) gs)"
  "ta_total (foldl tally acc gs) = ta_total acc + sum_list (map g_count gs)"
  "ta_total_payments (foldl tally acc gs) = ta_total_payments acc + sum_list (map (\<lambda>g. if g_type g = PAYMENT then g_count g else 0) gs)"
  by (induction gs arbitrary: acc) (simp_all add: tally_step)

lemma tally_all_counts:
  "or_zero (ta_all (tally_all (group_by_type_status rows)) st) = length (filter (\<lambda>t. t_status t = st) rows)"
  "or_zero (ta_payments (tally_all (group_by_type_status rows)) st)
    = length (filter (\<lambda>t. t_type t = PAYMENT \<and> t_status t = st) rows)"
  "ta_total (tally_all (group_by_type_status rows)) = length rows"
  "ta_total_payments (tally_all (group_by_type_status rows)) = length (filter (\<lambda>t. t_type t = PAYMENT) rows)"
  using sum_groups [of "\<lambda>ty s. s = st" rows] sum_groups [of "\<lambda>ty s. ty = PAYMENT \<and> s = st" rows]
    sum_groups [of "\<lambda>ty s. True" rows] sum_groups [of "\<lambda>ty s. ty = PAYMENT" rows]
  by (simp_all add: tally_all_def tally_fold)

lemma all_statuses: "set ALL_STATUSES = UNIV" "distinct ALL_STATUSES"
proof -
  have "st \<in> set ALL_STATUSES" for st by (cases st) (simp_all add: ALL_STATUSES_def)
  then show "set ALL_STATUSES = UNIV" by auto
  show "distinct ALL_STATUSES" by (simp add: ALL_STATUSES_def)
qed

lemma counts_sum_up:
  "sum_list (map (\<lambda>st. length (filter (\<lambda>t. P t \<and> t_status t = st) rows)) ALL_STATUSES) = length (filter P rows)"
proof (induction rows)
  case (Cons t rows)
  have "sum_list (map (\<lambda>st. if t_status t = st then 1 else 0) ALL_STATUSES) = (1::nat)"
    by (cases "t_status t") (simp_all add: ALL_STATUSES_def)
  then have "sum_list (map (\<lambda>st. (if t_status t = st then 1 else 0) + length (filter (\<lambda>t. P t \<and> t_status t = st) rows)) ALL_STATUSES)
    = 1 + sum_list (map (\<lambda>st. length (filter (\<lambda>t. P t \<and> t_status t = st) rows)) ALL_STATUSES)"
    by (simp add: sum_list_addf)
  moreover have "length (filter (\<lambda>t. P t \<and> t_status t = st) (t # rows))
    = (if t_status t = st then 1 else 0) + length (filter (\<lambda>t. P t \<and> t_status t = st) rows)" if "P t" for st
    using that by simp
  ultimately show ?case using Cons by (cases "P t") simp_all
qed simp

section \<open>Properties\<close>

text \<open>
  C38: The figures are exact: in any scope the count of each status is the number of transactions of the
  scope that have it, every status is listed once, and the counts add up to the totals.
\<close>

theorem stats_are_counts:
  "let rows = filter (in_scope merchantId) (transactions d);
       s = compute_stats merchantId d
   in sr_by_status s = map (\<lambda>st. \<lparr>sc_status = st, sc_count = length (filter (\<lambda>t. t_status t = st) rows)\<rparr>) ALL_STATUSES
    \<and> ps_by_status (sr_payments s)
      = map (\<lambda>st. \<lparr>sc_status = st, sc_count = length (filter (\<lambda>t. t_type t = PAYMENT \<and> t_status t = st) rows)\<rparr>) ALL_STATUSES
    \<and> sr_total s = length rows \<and> sum_list (map sc_count (sr_by_status s)) = sr_total s
    \<and> sum_list (map sc_count (ps_by_status (sr_payments s))) = ps_total (sr_payments s)
    \<and> ps_total (sr_payments s) \<le> sr_total s \<and> distinct (map sc_status (sr_by_status s))"
  using counts_sum_up [of "\<lambda>t. True" "filter (in_scope merchantId) (transactions d)"]
    counts_sum_up [of "\<lambda>t. t_type t = PAYMENT" "filter (in_scope merchantId) (transactions d)"] all_statuses(2)
  by (simp add: compute_stats_def Let_def toStatusCounts_def tally_all_counts comp_def del: filter_filter)

text \<open>
  A merchant's dashboard depends on its own transactions alone (and on the date of the last load):
  two databases that hold the same transactions of this merchant give the same answer, and neither the
  reconciliation figures nor the open exceptions are shown.
\<close>

theorem merchant_stats_isolated:
  assumes "m \<noteq> []" "filter (\<lambda>t. t_merchant_id t = m) (transactions d) = filter (\<lambda>t. t_merchant_id t = m) (transactions d')"
    "loads d = loads d'"
  shows "compute_stats (Some m) d = compute_stats (Some m) d'
    \<and> sr_open_exceptions (compute_stats (Some m) d) = None \<and> sr_reconciliation (compute_stats (Some m) d) = None"
proof -
  have "filter (in_scope (Some m)) ts = filter (\<lambda>t. t_merchant_id t = m) ts" for ts
    using assms(1) by (intro filter_cong) (simp_all add: in_scope_def truthy_def)
  then show ?thesis
    using assms by (simp add: compute_stats_def Let_def truthy_def window_end_def window_start_def)
qed

theorem merchant_stats_isolated_witness:
  "compute_stats (Some ''m'') demo_late = compute_stats (Some ''m'') demo_start"
proof -
  have "filter (\<lambda>t. t_merchant_id t = ''m'') (transactions demo_late) = filter (\<lambda>t. t_merchant_id t = ''m'') (transactions demo_start)"
    "loads demo_late = loads demo_start" "''m'' \<noteq> []"
    by (simp_all add: demo_late_def demo_db_def demo_row_def demo_refund_row_def demo_start_def initial_db_def demo_uid_def numeral_eq_Suc)
  then show ?thesis using merchant_stats_isolated by blast
qed

text \<open>
  The rate of reconciliation is a rate: the reconciled transactions are exactly the settled ones of the
  window without an open exception, between none and all of them.
\<close>

theorem reconciled_within_settled:
  assumes "sr_reconciliation (compute_stats merchantId d) = Some r"
  shows "0 \<le> rs_reconciled r \<and> rs_reconciled r \<le> rs_settled r
    \<and> (\<exists>lo hi. window_start d = Some lo \<and> window_end d = Some hi
       \<and> rs_reconciled r = int (length (filter (\<lambda>t. in_window_and_settled lo hi t \<and> \<not> has_open_exception d t) (transactions d))))"
proof -
  obtain lo hi where w: "window_start d = Some lo" "window_end d = Some hi" "r = reconciliation_stats_of lo hi d"
    using assms by (auto simp: compute_stats_def Let_def split: if_splits)
  let ?in = "in_window_and_settled lo hi"
  have "length (filter ?in ts) = length (filter (\<lambda>t. ?in t \<and> has_open_exception d t) ts)
      + length (filter (\<lambda>t. ?in t \<and> \<not> has_open_exception d t) ts)" for ts
    by (induction ts) auto
  then show ?thesis using w by (auto simp: reconciliation_stats_of_def Let_def)
qed

definition demo_loaded :: db where
  "demo_loaded = demo_late\<lparr>loads := [\<lparr>l_loaded_at = 2000000, l_started_at = Some 500\<rparr>]\<rparr>"

theorem reconciled_within_settled_witness:
  "\<exists>r. sr_reconciliation (compute_stats None demo_loaded) = Some r \<and> rs_settled r = 3 \<and> rs_reconciled r = 2"
proof -
  have loads: "loads demo_loaded = [\<lparr>l_loaded_at = 2000000, l_started_at = Some 500\<rparr>]" by (simp add: demo_loaded_def)
  have ends: "window_start demo_loaded = Some 500" "window_end demo_loaded = Some 2000000"
    by (simp_all add: window_start_def window_end_def loads aggregate_min_def aggregate_max_def List.map_filter_simps)
  then have r: "sr_reconciliation (compute_stats None demo_loaded) = Some (reconciliation_stats_of 500 2000000 demo_loaded)"
    by (simp add: compute_stats_def Let_def truthy_def)
  have "rs_settled (reconciliation_stats_of 500 2000000 demo_loaded) = 3"
    by (simp add: reconciliation_stats_of_def Let_def demo_loaded_def demo_late_def demo_db_def demo_row_def
        demo_refund_row_def in_window_and_settled_def IN_PROGRESS_STATUSES_def)
  moreover have "length (filter (\<lambda>t. in_window_and_settled 500 2000000 t \<and> \<not> has_open_exception demo_loaded t) (transactions demo_loaded)) = 2"
    by (simp add: demo_loaded_def demo_late_def demo_db_def demo_row_def has_open_exception_def
        demo_refund_row_def in_window_and_settled_def IN_PROGRESS_STATUSES_def)
  ultimately show ?thesis using reconciled_within_settled [OF r] ends r by auto
qed

end
