(* ===== verification/Access.thy ===== *)
theory Access
  imports Lifecycle
begin

text \<open>
  API keys and the exceptions they resolve: what the guards let through, that an issued key opens
  the API and a revoked one never does again, that an exception is resolved once.
\<close>

section \<open>The guards\<close>

lemma validate_api_key_Some:
  "validate_api_key sha raw d = Some k \<Longrightarrow> k \<in> set (api_keys d) \<and> k_is_active k \<and> k_hashed_key k = sha raw"
  by (auto simp: validate_api_key_def hashApiKey_def find_Some_iff)

lemma api_key_guard_Inr:
  assumes "api_key_guard sha header d = Inr auth"
  obtains raw k where "header = Some (BEARER_PREFIX @ raw)" "validate_api_key sha raw d = Some k"
    "auth = \<lparr>au_api_key_id = k_id k, au_role = k_role k, au_merchant_id = k_merchant_id k\<rparr>"
proof -
  obtain h where h: "header = Some h" "take (length BEARER_PREFIX) h = BEARER_PREFIX"
    using assms by (cases header) (auto simp: api_key_guard_def truthy_def split: if_splits)
  moreover from h(2) have "h = BEARER_PREFIX @ drop (length BEARER_PREFIX) h" by (metis append_take_drop_id)
  ultimately show thesis
    using assms that [of "drop (length BEARER_PREFIX) h"]
    by (auto simp: api_key_guard_def truthy_def split: if_splits option.splits)
qed

lemma api_key_guard_bearer:
  "api_key_guard sha (Some (BEARER_PREFIX @ raw)) d =
    (case validate_api_key sha raw d of
       None \<Rightarrow> Inl (Http_Exception 401
               (''Cl'' @ [CHR 0xE9] @ '' API invalide, r'' @ [CHR 0xE9] @ ''voqu'' @ [CHR 0xE9]
                 @ ''e ou d'' @ [CHR 0xE9] @ ''sactiv'' @ [CHR 0xE9] @ ''e''))
     | Some k \<Rightarrow> Inr \<lparr>au_api_key_id = k_id k, au_role = k_role k, au_merchant_id = k_merchant_id k\<rparr>)"
  by (simp add: api_key_guard_def truthy_def BEARER_PREFIX_def)

lemma api_key_guard_Inl: "api_key_guard sha header d = Inl e \<Longrightarrow> \<exists>msg. e = Http_Exception 401 msg"
  by (auto simp: api_key_guard_def split: if_splits option.splits)

lemma roles_guard_cases:
  "roles_guard (Some rs) (Some auth) =
    (if rs = [] \<or> au_role auth \<in> set rs then Inr True
     else Inl (Http_Exception 403 (''R'' @ [CHR 0xF4] @ ''le requis : '' @ join_roles rs)))"
  by (simp add: roles_guard_def)

text \<open>
  Behind the guards, a handler runs only for a bearer of an active key whose role is one of the
  roles required, and it is told who that is; every other request is answered 401 or 403 and changes
  nothing.
\<close>

theorem guarded_only_lets_keys_in:
  assumes "rs \<noteq> []"
  shows "(\<exists>code msg. code \<in> {401, 403} \<and> guarded sha (Some rs) header handler d = (Inl (Http_Exception code msg), d))
    \<or> (\<exists>raw k. header = Some (BEARER_PREFIX @ raw) \<and> k \<in> set (api_keys d) \<and> k_is_active k
        \<and> k_hashed_key k = sha raw \<and> k_role k \<in> set rs
        \<and> guarded sha (Some rs) header handler d
          = handler \<lparr>au_api_key_id = k_id k, au_role = k_role k, au_merchant_id = k_merchant_id k\<rparr> d)"
proof (cases "api_key_guard sha header d")
  case (Inl e)
  then show ?thesis using api_key_guard_Inl [OF Inl] by (auto simp: guarded_def)
next
  case (Inr auth)
  then obtain raw k where k: "header = Some (BEARER_PREFIX @ raw)" "validate_api_key sha raw d = Some k"
    "auth = \<lparr>au_api_key_id = k_id k, au_role = k_role k, au_merchant_id = k_merchant_id k\<rparr>"
    by (rule api_key_guard_Inr)
  show ?thesis
  proof (cases "k_role k \<in> set rs")
    case True
    then show ?thesis
      using Inr k validate_api_key_Some [OF k(2)] by (auto simp: guarded_def roles_guard_cases)
  next
    case False
    then show ?thesis using Inr k assms by (auto simp: guarded_def roles_guard_cases)
  qed
qed

theorem guarded_only_lets_keys_in_witness:
  "\<exists>code msg. code \<in> {401, 403} \<and>
    guarded demo_sha (Some [ADMIN]) (Some ''Bearer nobody'') (\<lambda>auth d. (Inr auth, d)) demo_start = (Inl (Http_Exception code msg), demo_start)"
proof -
  have "api_keys demo_start = []" by (simp add: demo_start_def initial_db_def)
  then show ?thesis
    using guarded_only_lets_keys_in [of "[ADMIN]" demo_sha "Some ''Bearer nobody''" "\<lambda>auth d. (Inr auth, d)" demo_start]
    by simp
qed

section \<open>Issuing and revoking keys\<close>

lemma create_api_key_Inr:
  assumes "create_api_key sha kid rnd given now dto d = (Inr c, d')"
  obtains k where "k_id k = ca_id c" "k_role k = ca_role c" "k_merchant_id k = ca_merchant_id c" "k_is_active k"
    "k_hashed_key k = sha (ca_raw_key c)" "api_keys d' = api_keys d @ [k]"
    "sha (ca_raw_key c) \<notin> k_hashed_key ` set (api_keys d)" "ca_role c = ck_role dto" "ca_label c = ck_label dto"
    "ca_raw_key c = (case given of Some r \<Rightarrow> r | None \<Rightarrow> generateApiKey rnd)"
proof -
  let ?raw = "(case given of Some r \<Rightarrow> r | None \<Rightarrow> generateApiKey rnd)"
  obtain k where run: "sql_transaction None now (create_key_body sha kid dto ?raw) d = (Inr k, d')"
    and c: "c = \<lparr>ca_id = k_id k, ca_label = k_label k, ca_role = k_role k, ca_merchant_id = k_merchant_id k, ca_raw_key = ?raw\<rparr>"
    using assms by (auto simp: create_api_key_def Let_def split: if_splits sum.splits prod.splits)
  from run obtain d1 s where d1: "create_key_body sha kid dto ?raw s d = Inr (k, d1)"
    "d' = d1\<lparr>next_tx_id := Suc (next_tx_id d), deferred := []\<rparr>" by (auto elim: sql_transaction_Inr)
  then show thesis
    using c by (intro that [of k]) (auto simp: create_key_body_def insert_api_key_def result_simps hashApiKey_def)
qed

text \<open>
  The key that is returned when it is issued, and only shown then, opens the API at once with the
  role and the merchant it was issued for.
\<close>

theorem issued_key_opens:
  assumes "create_api_key sha kid rnd given now dto d = (Inr c, d')"
  shows "api_key_guard sha (Some (BEARER_PREFIX @ ca_raw_key c)) d'
    = Inr \<lparr>au_api_key_id = ca_id c, au_role = ca_role c, au_merchant_id = ca_merchant_id c\<rparr>
    \<and> ca_role c = ck_role dto"
  using assms
proof (rule create_api_key_Inr, goal_cases)
  case (1 k)
  have "find P (xs @ [y]) = Some y" if "find P xs = None" "P y" for P and xs :: "api_key list" and y
    using that by (induction xs) (auto split: if_splits)
  moreover have "find (\<lambda>k. k_hashed_key k = sha (ca_raw_key c) \<and> k_is_active k) (api_keys d) = None"
    using 1(7) by (auto simp: find_None_iff image_iff)
  ultimately have "validate_api_key sha (ca_raw_key c) d' = Some k"
    using 1 by (simp add: validate_api_key_def hashApiKey_def)
  then show ?case using 1 by (simp add: api_key_guard_bearer)
qed

definition demo_admin_dto :: create_api_key_dto where
  "demo_admin_dto = \<lparr>ck_label = ''ops'', ck_role = ADMIN, ck_merchant_id = None\<rparr>"

definition demo_keyed :: db where
  "demo_keyed = demo_start\<lparr>api_keys := [\<lparr>k_id = ''a1'', k_label = ''ops'', k_role = ADMIN,
     k_hashed_key = demo_sha [], k_merchant_id = None, k_is_active = True, k_revoked_at = None, k_created_at = 5\<rparr>],
     next_tx_id := 2\<rparr>"

lemma run_keyed:
  "create_api_key demo_sha ''a1'' [] (Some ''secret'') 5 demo_admin_dto demo_start
    = (Inr \<lparr>ca_id = ''a1'', ca_label = ''ops'', ca_role = ADMIN, ca_merchant_id = None, ca_raw_key = ''secret''\<rparr>, demo_keyed)"
  by (simp add: create_api_key_def demo_admin_dto_def truthy_def Let_def create_key_body_def insert_api_key_def
      api_key_checks_def check_all.simps hashApiKey_def sql_transaction_run deferred_checks_def demo_start_def
      initial_db_def demo_keyed_def demo_sha_const [of "''secret''"])

lemma reach_keyed: "reachable demo_uid 0 demo_keyed"
proof -
  have "service_step demo_start demo_keyed" using step_api_key run_keyed by (metis snd_conv)
  then show ?thesis using reach_step [OF reach_initial] unfolding demo_start_def by blast
qed

theorem issued_key_opens_witness:
  "api_key_guard demo_sha (Some ''Bearer secret'') demo_keyed
    = Inr \<lparr>au_api_key_id = ''a1'', au_role = ADMIN, au_merchant_id = None\<rparr>"
  using issued_key_opens [OF run_keyed] by (simp add: BEARER_PREFIX_def)

lemma revoke_Inr:
  assumes "revoke_api_key kid clock d = (Inr k, d')"
  obtains old where "lookup_by k_id kid (api_keys d) = Some old" "k = old\<lparr>k_is_active := False, k_revoked_at := Some clock\<rparr>"
    "api_keys d' = replace_by k_id kid k (api_keys d)"
proof -
  obtain old where old: "lookup_by k_id kid (api_keys d) = Some old"
    "sql_transaction None clock (revoke_body kid clock) d = (Inr k, d')"
    using assms by (auto simp: revoke_api_key_def split: option.splits)
  then obtain s d1 where d1: "revoke_body kid clock s d = Inr (k, d1)"
    "d' = d1\<lparr>next_tx_id := Suc (next_tx_id d), deferred := []\<rparr>" by (auto elim: sql_transaction_Inr)
  then show thesis using old(1) that by (auto simp: revoke_body_def update_api_key_def result_simps)
qed

text \<open>
  A revoked key never opens the API again, whatever happens later: its bearer is answered 401, with
  exactly the answer to a key that was never issued.
\<close>

theorem revoked_key_locked_out:
  assumes "inj uid" "reachable uid n0 d" "revoke_api_key kid clock d = (Inr k, d1)" "rtranclp service_step d1 d2"
    "sha raw = k_hashed_key k" "sha unknown \<notin> k_hashed_key ` set (api_keys d2)"
  shows "(\<exists>msg. api_key_guard sha (Some (BEARER_PREFIX @ raw)) d2 = Inl (Http_Exception 401 msg))
    \<and> api_key_guard sha (Some (BEARER_PREFIX @ raw)) d2 = api_key_guard sha (Some (BEARER_PREFIX @ unknown)) d2"
  using assms(3)
proof (rule revoke_Inr, goal_cases)
  case (1 old)
  have "service_step d d1" using step_revoke assms(3) by (metis snd_conv)
  then have ok: "system_ok d1" using reachable_system_ok [OF reach_step [OF assms(2)] assms(1)] by blast
  have "old \<in> set (api_keys d)" "k_id old = kid" using lookup_by_SomeD [OF 1(1)] by auto
  then have "k \<in> set (api_keys d1)" using 1(3) by (force simp: replace_by_def)
  then obtain k' where k': "k' \<in> set (api_keys d2)" "key_evolves k k'" using key_later [OF assms(4) ok] by blast
  have off: "\<not> k_is_active k'" "k_hashed_key k' = sha raw"
    using k'(2) 1(2) assms(5) by (simp_all add: key_evolves_def)
  have "distinct (map k_hashed_key (api_keys d2))"
    using steps_evolve [OF assms(4) ok] by (simp add: system_ok_def tables_ok_def keys_ok_def)
  then have "\<not> k_is_active j" if "j \<in> set (api_keys d2)" "k_hashed_key j = sha raw" for j
    using that off k'(1) by (auto simp: distinct_map inj_on_def)
  then have "validate_api_key sha raw d2 = None" by (auto simp: validate_api_key_def hashApiKey_def find_None_iff)
  moreover have "validate_api_key sha unknown d2 = None"
    using assms(6) by (auto simp: validate_api_key_def hashApiKey_def find_None_iff image_iff)
  ultimately show ?case by (simp add: api_key_guard_bearer)
qed

definition demo_sha_kind :: "string \<Rightarrow> string" where
  "demo_sha_kind s = (if s = ''other'' then replicate 64 (CHR ''b'') else demo_sha s)"

definition demo_revoked :: db where
  "demo_revoked = demo_keyed\<lparr>api_keys := [\<lparr>k_id = ''a1'', k_label = ''ops'', k_role = ADMIN,
     k_hashed_key = demo_sha [], k_merchant_id = None, k_is_active = False, k_revoked_at = Some 9, k_created_at = 5\<rparr>],
     next_tx_id := 3\<rparr>"

lemma run_revoked:
  "revoke_api_key ''a1'' 9 demo_keyed = (Inr (hd (api_keys demo_revoked)), demo_revoked)"
  by (simp add: revoke_api_key_def demo_keyed_def revoke_body_def update_api_key_def api_keys_before_update_def
      api_key_checks_def check_all.simps sql_transaction_run deferred_checks_def lookup_by_def replace_by_def
      demo_revoked_def demo_start_def initial_db_def)

theorem revoked_key_locked_out_witness:
  "\<exists>msg. api_key_guard demo_sha_kind (Some ''Bearer secret'') demo_revoked = Inl (Http_Exception 401 msg)"
proof -
  have "demo_sha_kind ''secret'' = k_hashed_key (hd (api_keys demo_revoked))"
    "demo_sha_kind ''other'' \<notin> k_hashed_key ` set (api_keys demo_revoked)"
    by (simp_all add: demo_sha_kind_def demo_revoked_def demo_sha_def)
  then show ?thesis
    using conjunct1 [OF revoked_key_locked_out [OF inj_demo_uid reach_keyed run_revoked rtranclp.rtrancl_refl,
        of demo_sha_kind "''secret''" "''other''"]]
    by (simp add: BEARER_PREFIX_def)
qed

section \<open>bootstrap-admin-key\<close>

text \<open>
  The bootstrap script is idempotent: after a run that succeeded there is an active ADMIN key, and
  a second run, with whatever random bytes, creates nothing.
\<close>

theorem bootstrap_is_idempotent:
  assumes "bootstrap_admin_key sha kid rnd now d = (Inr c, d')"
  shows "(\<exists>k \<in> set (api_keys d'). k_role k = ADMIN \<and> k_is_active k)
    \<and> bootstrap_admin_key sha' kid' rnd' now' d' = (Inr None, d')"
proof -
  have some: "\<exists>k \<in> set (api_keys d'). k_role k = ADMIN \<and> k_is_active k"
  proof (cases "find (\<lambda>k. k_role k = ADMIN \<and> k_is_active k) (api_keys d)")
    case (Some k)
    then have "d' = d" using assms by (simp add: bootstrap_admin_key_def)
    then show ?thesis using Some by (auto simp: find_Some_iff)
  next
    case None
    then obtain x where "create_api_key sha kid rnd None now
        \<lparr>ck_label = ''bootstrap admin'', ck_role = ADMIN, ck_merchant_id = None\<rparr> d = (Inr x, d')"
      using assms by (auto simp: bootstrap_admin_key_def split: sum.splits prod.splits)
    then show ?thesis by (rule create_api_key_Inr) auto
  qed
  then have "\<exists>k. find (\<lambda>k. k_role k = ADMIN \<and> k_is_active k) (api_keys d') = Some k"
    by (metis (mono_tags, lifting) find_None_iff not_None_eq)
  then show ?thesis using some by (auto simp: bootstrap_admin_key_def)
qed

theorem bootstrap_is_idempotent_witness:
  "bootstrap_admin_key demo_sha ''a2'' [] 7 demo_keyed = (Inr None, demo_keyed)"
proof -
  have "bootstrap_admin_key demo_sha ''a9'' [] 6 demo_keyed = (Inr None, demo_keyed)"
    by (simp add: bootstrap_admin_key_def demo_keyed_def)
  then show ?thesis using bootstrap_is_idempotent by blast
qed

section \<open>Resolving a reconciliation exception\<close>

lemma resolve_Inr:
  assumes "resolve_exception xid clock resolution who d = (Inr x, d')"
  obtains old where "lookup_by x_id xid (exceptions d) = Some old" "x_resolved_at old = None"
    "x = old\<lparr>x_resolved_at := Some clock, x_resolved_by := Some who, x_resolution := Some resolution\<rparr>"
    "exceptions d' = replace_by x_id xid x (exceptions d)" "transactions d' = transactions d" "postings d' = postings d"
proof -
  obtain old where old: "lookup_by x_id xid (exceptions d) = Some old" "x_resolved_at old = None"
    "sql_transaction None clock (resolve_body xid clock who resolution) d = (Inr x, d')"
    using assms by (auto simp: resolve_exception_def find_exception_or_throw_def split: option.splits if_splits)
  then obtain s d1 where d1: "resolve_body xid clock who resolution s d = Inr (x, d1)"
    "d' = d1\<lparr>next_tx_id := Suc (next_tx_id d), deferred := []\<rparr>" by (auto elim: sql_transaction_Inr)
  then show thesis using old(1,2) that by (auto simp: resolve_body_def update_exception_def result_simps)
qed

text \<open>
  An exception is resolved once: the resolution records who and why and moves no money; at any later
  time the record is what it was then, and another resolution is refused with 409 and changes nothing.
\<close>

theorem exception_resolved_once:
  assumes "inj uid" "reachable uid n0 d" "resolve_exception xid clock resolution who d = (Inr x, d1)"
    "rtranclp service_step d1 d2"
  shows "x_resolved_by x = Some who \<and> x_resolution x = Some resolution \<and> postings d1 = postings d
    \<and> lookup_by x_id xid (exceptions d2) = Some x
    \<and> (\<exists>msg. resolve_exception xid clock' resolution' who' d2 = (Inl (Http_Exception 409 msg), d2))"
  using assms(3)
proof (rule resolve_Inr, goal_cases)
  case (1 old)
  have "service_step d d1" using step_resolve assms(3) by (metis snd_conv)
  then have ok: "system_ok d1" using reachable_system_ok [OF reach_step [OF assms(2)] assms(1)] by blast
  have "old \<in> set (exceptions d)" "x_id old = xid" using lookup_by_SomeD [OF 1(1)] by auto
  then have "x \<in> set (exceptions d1)" using 1(4) by (force simp: replace_by_def)
  then obtain x' where x': "x' \<in> set (exceptions d2)" "exception_evolves x x'" using exception_later [OF assms(4) ok] by blast
  then have "x' = x" using 1(3) by (simp add: exception_evolves_def)
  moreover have "distinct (map x_id (exceptions d2))"
    using steps_evolve [OF assms(4) ok] by (simp add: system_ok_def tables_ok_def keys_ok_def)
  moreover have "x_id x = xid" using 1(3) \<open>x_id old = xid\<close> by simp
  ultimately have found: "lookup_by x_id xid (exceptions d2) = Some x" using lookup_by_distinct [of x_id, OF _ x'(1)] by metis
  moreover have "x_resolved_at x \<noteq> None" using 1(3) by simp
  ultimately have "\<exists>msg. resolve_exception xid clock' resolution' who' d2 = (Inl (Http_Exception 409 msg), d2)"
    by (simp add: resolve_exception_def find_exception_or_throw_def)
  then show ?case using found 1(3,6) by simp
qed

definition demo_resolved :: "reconciliation_exception list" where
  "demo_resolved = map (\<lambda>x. x\<lparr>x_resolved_at := Some 40000, x_resolved_by := Some ''a1'',
     x_resolution := Some ''seen with the operator''\<rparr>) (exceptions demo_late)"

lemma run_resolved:
  "resolve_exception ''x1100000'' 40000 ''seen with the operator'' ''a1'' demo_late
    = (Inr (hd demo_resolved), demo_late\<lparr>exceptions := demo_resolved, next_tx_id := Suc (next_tx_id demo_late)\<rparr>)"
  by (simp add: demo_resolved_def resolve_exception_def find_exception_or_throw_def sql_transaction_run resolve_body_def
      update_exception_def exceptions_before_update_def exception_ranges_def exception_checks_def check_all.simps
      deferred_checks_def lookup_by_def replace_by_def demo_late_def demo_db_def demo_start_def initial_db_def)

theorem exception_resolved_once_witness:
  "x_resolved_by (hd demo_resolved) = Some ''a1'' \<and>
    (\<exists>msg. resolve_exception ''x1100000'' 50000 ''again'' ''a2''
      (demo_late\<lparr>exceptions := demo_resolved, next_tx_id := Suc (next_tx_id demo_late)\<rparr>)
      = (Inl (Http_Exception 409 msg), demo_late\<lparr>exceptions := demo_resolved, next_tx_id := Suc (next_tx_id demo_late)\<rparr>))"
  using exception_resolved_once [OF inj_demo_uid reach_demo_late run_resolved rtranclp.rtrancl_refl] by blast

end
