(* ===== verification/Server.thy ===== *)
theory Server
  imports Stats Runtime Access
begin

text \<open>
  The server as main.ts starts it: the modules that app.module.ts loads for an environment, and what one
  HTTP request does from the rate limiter to the error filter. Express, NestJS, class-validator, the
  throttler and BullMQ are third party: what they decide is a parameter (\<open>platform\<close>) or belongs to the
  occasion of the request (\<open>occasion\<close>).
\<close>

section \<open>Starting: app.module.ts, main.ts, prisma.service.ts, provider-simulator.module.ts\<close>

text \<open>The conditions of the three conditional modules.\<close>

definition simulator_loaded :: "(string \<Rightarrow> string option) \<Rightarrow> bool" where
  "simulator_loaded env \<longleftrightarrow> env ''PROVIDER_SIMULATOR_ENABLED'' = Some ''true''"

definition cron_loaded :: "(string \<Rightarrow> string option) \<Rightarrow> bool" where
  "cron_loaded env \<longleftrightarrow> env ''EXPIRATION_CRON_ENABLED'' \<noteq> Some ''false''"

definition rate_limit_loaded :: "(string \<Rightarrow> string option) \<Rightarrow> bool" where
  "rate_limit_loaded env \<longleftrightarrow> env ''RATE_LIMIT_ENABLED'' \<noteq> Some ''false''"

text \<open>\<open>process.env.PORT ?? 3000\<close>: the text is handed to \<open>listen\<close> as it is.\<close>

definition listen_port :: "(string \<Rightarrow> string option) \<Rightarrow> string" where
  "listen_port env = (case env ''PORT'' of Some port \<Rightarrow> port | None \<Rightarrow> ''3000'')"

text \<open>\<open>poolMaxRaw ? Number(poolMaxRaw) : undefined\<close>; the inner option is NaN.\<close>

definition pool_max :: "(string \<Rightarrow> string option) \<Rightarrow> rat option option" where
  "pool_max env =
    (if truthy (env ''DATABASE_POOL_MAX'') then Some (Number_of (the (env ''DATABASE_POOL_MAX''))) else None)"

text \<open>\<open>ConfigService.getOrThrow\<close>; the text of its error is that of the library.\<close>

definition getOrThrow :: "(string \<Rightarrow> string) \<Rightarrow> (string \<Rightarrow> string option) \<Rightarrow> string \<Rightarrow> app_error + string" where
  "getOrThrow missing env k = result_of_option (Js_Error (missing k)) (env k)"

record rate_limit =
  rl_ttl_ms :: nat
  rl_limit :: nat

definition RATE_LIMIT :: rate_limit where
  "RATE_LIMIT = \<lparr>rl_ttl_ms = 60000, rl_limit = 60\<rparr>"

text \<open>
  What the client of the database is made with: the default pool has 5 connections, and a SQL transaction waits
  at most 10 seconds for one.
\<close>

record prisma_client =
  pc_url :: string
  pc_pool_max :: "rat option"
  pc_max_wait_ms :: nat

definition createPrismaClient :: "string \<Rightarrow> rat option option \<Rightarrow> prisma_client" where
  "createPrismaClient connectionString poolMax =
    \<lparr>pc_url = connectionString, pc_pool_max = (case poolMax of None \<Rightarrow> Some 5 | Some n \<Rightarrow> n), pc_max_wait_ms = 10000\<rparr>"

definition prisma_service :: "(string \<Rightarrow> string) \<Rightarrow> (string \<Rightarrow> string option) \<Rightarrow> app_error + prisma_client" where
  "prisma_service missing env =
    andThen (getOrThrow missing env ''APP_DATABASE_URL'') (\<lambda>url. Inr (createPrismaClient url (pool_max env)))"

text \<open>Redis is asked for only where the module of the simulated operator is loaded.\<close>

definition redis_connection :: "(string \<Rightarrow> string) \<Rightarrow> (string \<Rightarrow> string option) \<Rightarrow> app_error + string option" where
  "redis_connection missing env =
    (if simulator_loaded env then andThen (getOrThrow missing env ''REDIS_URL'') (\<lambda>url. Inr (Some url)) else Inr None)"

record app_modules =
  am_client :: prisma_client
  am_redis_url :: "string option"
  am_cron :: bool
  am_rate_limit :: "rate_limit option"

definition load_modules ::
    "(string list \<Rightarrow> string \<Rightarrow> bool) \<Rightarrow> (string \<Rightarrow> string) \<Rightarrow> (string \<Rightarrow> string) \<Rightarrow> (string \<Rightarrow> string option) \<Rightarrow> app_error + app_modules" where
  "load_modules is_url constraints missing env =
    andThen (validate_environment is_url constraints env) (\<lambda>_.
    andThen (prisma_service missing env) (\<lambda>client.
    andThen (redis_connection missing env) (\<lambda>redis_url.
    Inr \<lparr>am_client = client, am_redis_url = redis_url, am_cron = cron_loaded env,
         am_rate_limit = (if rate_limit_loaded env then Some RATE_LIMIT else None)\<rparr>)))"

record server_setup =
  ss_modules :: app_modules
  ss_cors :: cors_origins
  ss_port :: string

definition start_server ::
    "(string list \<Rightarrow> string \<Rightarrow> bool) \<Rightarrow> (string \<Rightarrow> string) \<Rightarrow> (string \<Rightarrow> string) \<Rightarrow> (string \<Rightarrow> string option) \<Rightarrow> app_error + server_setup" where
  "start_server is_url constraints missing env =
    andThen (load_modules is_url constraints missing env) (\<lambda>modules.
    Inr \<lparr>ss_modules = modules, ss_cors = resolveCorsOrigins (env ''CORS_ALLOWED_ORIGINS''), ss_port = listen_port env\<rparr>)"

text \<open>The scripts load the same modules, with the cron switched off first (bootstrap-admin-key.ts, seed-demo.ts).\<close>

definition script_env :: "(string \<Rightarrow> string option) \<Rightarrow> string \<Rightarrow> string option" where
  "script_env env = env(''EXPIRATION_CRON_ENABLED'' := Some ''false'')"

definition bootstrap_main ::
    "(string list \<Rightarrow> string \<Rightarrow> bool) \<Rightarrow> (string \<Rightarrow> string) \<Rightarrow> (string \<Rightarrow> string) \<Rightarrow> (string \<Rightarrow> string option) \<Rightarrow> (string \<Rightarrow> string)
      \<Rightarrow> uuid \<Rightarrow> nat list \<Rightarrow> timestamp \<Rightarrow> db \<Rightarrow> (app_error + created_api_key option) \<times> db" where
  "bootstrap_main is_url constraints missing env sha kid random_bytes now d =
    (case load_modules is_url constraints missing (script_env env) of
       Inl e \<Rightarrow> (Inl e, d)
     | Inr modules \<Rightarrow> bootstrap_admin_key sha kid random_bytes now d)"

section \<open>Requests\<close>

text \<open>The routes of the controllers; a text is the raw body or query, read by the validation pipe.\<close>

datatype endpoint =
    Health
  | List_Transactions string
  | Read_Transaction string
  | Read_History string
  | Read_Audit string
  | Change_Status string string
  | Create_Payment string
  | Create_Refund string string
  | Create_Merchant string
  | Create_Key string
  | Revoke_Key uuid
  | List_Exceptions "string option"
  | Read_Exception uuid
  | Resolve_Exception uuid string
  | Read_Stats

record http_request =
  rq_endpoint :: endpoint
  rq_url :: string
  rq_authorization :: "string option"
  rq_idempotency_key :: "string option"
  rq_if_match :: "string option"

text \<open>
  The parameters of a server: its environment, SHA-256, the tolerant readers of a cursor, the text around an
  error of the database, the exception of the throttler, the default text of a \<open>ServiceUnavailableException\<close>
  and the validation pipe (app.config.ts) for each class of body.
\<close>

record platform =
  pf_env :: "string \<Rightarrow> string option"
  pf_sha :: "string \<Rightarrow> string"
  pf_lenient :: "string \<Rightarrow> json option"
  pf_other_date :: "string \<Rightarrow> int option"
  pf_uuid_of :: "string \<Rightarrow> uuid option"
  pf_prisma_text :: "string \<Rightarrow> string"
  pf_db_text :: "app_error \<Rightarrow> string"
  pf_too_many :: js_exception
  pf_unavailable_text :: string
  pf_query :: "string \<Rightarrow> js_exception + list_query"
  pf_transition :: "string \<Rightarrow> js_exception + transition_status_dto"
  pf_payment :: "string \<Rightarrow> js_exception + create_payment_dto"
  pf_refund :: "string \<Rightarrow> js_exception + create_refund_dto"
  pf_merchant :: "string \<Rightarrow> js_exception + create_merchant_dto"
  pf_key :: "string \<Rightarrow> js_exception + create_api_key_dto"
  pf_resolution :: "string \<Rightarrow> js_exception + string"

text \<open>
  What one request meets: the ids, clocks and random values it draws, whether its address is over the limit,
  whether the database answers, and which jobs the queue takes.
\<close>

record occasion =
  oc_inputs :: request_inputs
  oc_second_id :: uuid
  oc_random :: "nat list"
  oc_over_limit :: bool
  oc_database_answers :: bool
  oc_queue_takes :: "callback_job \<Rightarrow> bool"
  oc_queue_error :: string
  oc_draws :: "rat \<times> rat"

datatype api_body =
    No_Body
  | Problem_Body string
  | Health_Body "(string \<times> string) list"
  | List_Body list_response
  | Transaction_Body transaction_response
  | History_Body "history_response list"
  | Audit_Body audit_response
  | Merchant_Body merchant
  | Key_Body created_api_key
  | Exceptions_Body "exception_response list"
  | Exception_Body exception_response
  | Stats_Body stats_response

text \<open>The global filter makes the answer of any exception.\<close>

definition problem_answer :: "string \<Rightarrow> js_exception \<Rightarrow> api_body http_response" where
  "problem_answer url e =
    (let (status, content_type, text) = catch_exception e url in
     \<lparr>rp_status = status, rp_headers = [(''Content-Type'', content_type)], rp_body = Problem_Body text\<rparr>)"

definition map_body :: "('a \<Rightarrow> api_body) \<Rightarrow> 'a http_response \<Rightarrow> api_body http_response" where
  "map_body wrap resp = \<lparr>rp_status = rp_status resp, rp_headers = rp_headers resp, rp_body = wrap (rp_body resp)\<rparr>"

definition reply :: "nat \<Rightarrow> ('a \<Rightarrow> api_body) \<Rightarrow> 'a \<Rightarrow> api_body http_response" where
  "reply status wrap x = \<lparr>rp_status = status, rp_headers = [], rp_body = wrap x\<rparr>"

text \<open>An outcome of a handler, made an answer.\<close>

definition to_answer ::
    "platform \<Rightarrow> string \<Rightarrow> ('a \<Rightarrow> api_body http_response) \<Rightarrow> (app_error + 'a) \<times> db \<Rightarrow> api_body http_response \<times> db" where
  "to_answer pf url present outcome =
    (case outcome of
       (Inl e, d) \<Rightarrow> (problem_answer url (exception_of (pf_prisma_text pf) (pf_db_text pf) e), d)
     | (Inr x, d) \<Rightarrow> (present x, d))"

text \<open>
  A handler with a validated body: the guards come before the pipe, the pipe before the handler. When the
  pipe refuses the body, a request the guards let through is answered with the exception of the pipe.
\<close>

definition piped ::
    "platform \<Rightarrow> http_request \<Rightarrow> api_role list option \<Rightarrow> (js_exception + 'dto)
      \<Rightarrow> ('dto \<Rightarrow> db \<Rightarrow> (app_error + 'a) \<times> db) \<Rightarrow> ('a \<Rightarrow> api_body http_response) \<Rightarrow> db \<Rightarrow> api_body http_response \<times> db" where
  "piped pf rq required parsed handler present d =
    (case parsed of
       Inr dto \<Rightarrow> to_answer pf (rq_url rq) present (handler dto d)
     | Inl refused \<Rightarrow>
        to_answer pf (rq_url rq) (\<lambda>_. problem_answer (rq_url rq) refused)
          (guarded (pf_sha pf) required (rq_authorization rq) (\<lambda>_ d. (Inr (), d)) d))"

section \<open>The simulated operator is told of a creation (payments.service.ts)\<close>

text \<open>The jobs are added one after the other; an error of the queue ends the request.\<close>

fun add_jobs :: "(callback_job \<Rightarrow> bool) \<Rightarrow> (callback_job \<times> int) list \<Rightarrow> bool \<times> (callback_job \<times> int) list" where
  "add_jobs takes [] = (True, [])"
| "add_jobs takes (job # jobs) =
    (if takes (fst job) then (let (all_taken, added) = add_jobs takes jobs in (all_taken, job # added)) else (False, []))"

definition after_creation ::
    "platform \<Rightarrow> occasion \<Rightarrow> string \<Rightarrow> api_body http_response \<times> db
      \<Rightarrow> (api_body http_response \<times> (callback_job \<times> int) list) \<times> db" where
  "after_creation pf oc url outcome =
    (case outcome of (resp, d) \<Rightarrow>
       (case rp_body resp of
          Transaction_Body t \<Rightarrow>
            if rp_status resp = 201 \<and> simulator_loaded (pf_env pf)
            then (case add_jobs (oc_queue_takes oc) (scheduleCallbacks (fst (oc_draws oc)) (snd (oc_draws oc)) (tr_reference t)) of
                    (all_taken, added) \<Rightarrow>
                      ((if all_taken then resp
                        else problem_answer url (exception_of (pf_prisma_text pf) (pf_db_text pf) (Js_Error (oc_queue_error oc))),
                        added), d))
            else ((resp, []), d)
        | _ \<Rightarrow> ((resp, []), d)))"

definition no_jobs :: "api_body http_response \<times> db \<Rightarrow> (api_body http_response \<times> (callback_job \<times> int) list) \<times> db" where
  "no_jobs outcome = (case outcome of (resp, d) \<Rightarrow> ((resp, []), d))"

section \<open>One request\<close>

definition handle_endpoint ::
    "platform \<Rightarrow> occasion \<Rightarrow> http_request \<Rightarrow> db \<Rightarrow> (api_body http_response \<times> (callback_job \<times> int) list) \<times> db" where
  "handle_endpoint pf oc rq d =
    (let sha = pf_sha pf; url = rq_url rq; who = rq_authorization rq; inp = oc_inputs oc;
         config = config_number (pf_env pf)
     in case rq_endpoint rq of
       Health \<Rightarrow> no_jobs
         ((case health_check (pf_unavailable_text pf) (oc_database_answers oc) of
             Inl e \<Rightarrow> problem_answer url e
           | Inr members \<Rightarrow> reply 200 Health_Body members), d)
     | List_Transactions query \<Rightarrow> no_jobs
         (piped pf rq (required_roles None None) (pf_query pf query)
           (get_list sha (pf_lenient pf) (pf_other_date pf) (pf_uuid_of pf) who) (map_body List_Body) d)
     | Read_Transaction reference \<Rightarrow> no_jobs (to_answer pf url (map_body Transaction_Body) (get_transaction sha who reference d))
     | Read_History reference \<Rightarrow> no_jobs (to_answer pf url (map_body History_Body) (get_history sha who reference d))
     | Read_Audit reference \<Rightarrow> no_jobs (to_answer pf url (map_body Audit_Body) (get_audit sha who reference d))
     | Change_Status reference body \<Rightarrow> no_jobs
         (piped pf rq (required_roles (Some TRANSITION_ROLES) None) (pf_transition pf body)
           (\<lambda>dto. patch_status sha (in_id inp) (oc_second_id oc) (in_db_now inp) who reference dto (rq_if_match rq))
           (map_body Transaction_Body) d)
     | Create_Payment body \<Rightarrow> after_creation pf oc url
         (piped pf rq (required_roles None (Some PAYMENTS_ROLES)) (pf_payment pf body)
           (\<lambda>dto. post_payment sha config inp who dto (rq_idempotency_key rq)) (map_body Transaction_Body) d)
     | Create_Refund reference body \<Rightarrow> after_creation pf oc url
         (piped pf rq (required_roles None (Some PAYMENTS_ROLES)) (pf_refund pf body)
           (\<lambda>dto. post_refund sha config inp who reference dto (rq_idempotency_key rq)) (map_body Transaction_Body) d)
     | Create_Merchant body \<Rightarrow> no_jobs
         (piped pf rq (required_roles None (Some MERCHANTS_ROLES)) (pf_merchant pf body)
           (\<lambda>dto. post_merchant sha (in_id inp) (oc_second_id oc) (in_db_now inp) who dto) (map_body Merchant_Body) d)
     | Create_Key body \<Rightarrow> no_jobs
         (piped pf rq (required_roles None (Some API_KEYS_ROLES)) (pf_key pf body)
           (\<lambda>dto. post_api_key sha who (in_id inp) (oc_random oc) (in_db_now inp) dto) (reply 201 Key_Body) d)
     | Revoke_Key kid \<Rightarrow> no_jobs (to_answer pf url (reply 204 (\<lambda>_. No_Body)) (post_revoke sha who kid (in_clock inp) d))
     | List_Exceptions onlyUnresolved \<Rightarrow> no_jobs (to_answer pf url (reply 200 Exceptions_Body) (get_exceptions sha who onlyUnresolved d))
     | Read_Exception xid \<Rightarrow> no_jobs (to_answer pf url (reply 200 Exception_Body) (get_exception sha who xid d))
     | Resolve_Exception xid body \<Rightarrow> no_jobs
         (piped pf rq (required_roles None (Some RECONCILIATION_ROLES)) (pf_resolution pf body)
           (patch_resolve sha who xid (in_clock inp)) (reply 200 Exception_Body) d)
     | Read_Stats \<Rightarrow> no_jobs (to_answer pf url (reply 200 Stats_Body) (get_stats sha who d)))"

text \<open>The throttler is a global guard, before those of the controllers; the health check skips it.\<close>

definition handle_request ::
    "platform \<Rightarrow> occasion \<Rightarrow> http_request \<Rightarrow> db \<Rightarrow> (api_body http_response \<times> (callback_job \<times> int) list) \<times> db" where
  "handle_request pf oc rq d =
    (if rate_limit_loaded (pf_env pf) \<and> oc_over_limit oc \<and> rq_endpoint rq \<noteq> Health
     then ((problem_answer (rq_url rq) (pf_too_many pf), []), d)
     else handle_endpoint pf oc rq d)"

end
