(* ===== verification/Front.thy ===== *)
theory Front
  imports Server Requests
begin

text \<open>
  What the HTTP front of theory Server guarantees: a server that starts is configured within bounds, no request
  passes without a key, the key of a merchant is confined, a refused request leaves nothing behind, and
  what happens when the queue of the simulated operator fails.
\<close>

section \<open>Starting\<close>

lemma started_InrD:
  assumes "start_server is_url constraints missing env = Inr started"
  obtains ev url where "validate_environment is_url constraints env = Inr ev" "env ''APP_DATABASE_URL'' = Some url"
    "am_client (ss_modules started) = createPrismaClient url (pool_max env)" "ss_port started = listen_port env"
    "am_redis_url (ss_modules started) \<noteq> None \<longleftrightarrow> simulator_loaded env" "am_cron (ss_modules started) = cron_loaded env"
  using assms by (auto simp: start_server_def load_modules_def prisma_service_def redis_connection_def andThen_eq_Inr
      getOrThrow_def result_of_option_def split: option.splits if_splits)

text \<open>A script never runs with the cron, and a failed start leaves the database alone.\<close>

lemma script_without_cron:
  "load_modules is_url constraints missing (script_env env) = Inr modules \<Longrightarrow> \<not> am_cron modules"
  by (auto simp: load_modules_def andThen_eq_Inr script_env_def cron_loaded_def)

lemma bootstrap_without_environment:
  "validate_environment is_url constraints (script_env env) = Inl e
    \<Longrightarrow> bootstrap_main is_url constraints missing env sha kid rnd now d = (Inl e, d)"
  by (simp add: bootstrap_main_def load_modules_def)

text \<open>
  A server that starts is configured within bounds: it connects with a URL of PostgreSQL, its pool
  has 1 to 100 connections, it listens on a port from 1 to 65535, it knows Redis exactly when the
  simulated operator is loaded, and every payment it creates has between one minute and one day.
\<close>

theorem started_server_configured:
  assumes "start_server is_url constraints missing env = Inr started"
  shows "is_url [''postgresql'', ''postgres''] (pc_url (am_client (ss_modules started)))
    \<and> (\<exists>n. pc_pool_max (am_client (ss_modules started)) = Some (of_int n) \<and> 1 \<le> n \<and> n \<le> 100)
    \<and> (\<exists>n. Number_of (ss_port started) = Some (of_int n) \<and> 1 \<le> n \<and> n \<le> 65535)
    \<and> (am_redis_url (ss_modules started) \<noteq> None \<longleftrightarrow> simulator_loaded env)
    \<and> now + 60000 \<le> computeExpiresAt now (resolveExpiryMinutes (config_number env) p)
    \<and> computeExpiresAt now (resolveExpiryMinutes (config_number env) p) \<le> now + 86400000"
proof -
  obtain ev u where valid: "validate_environment is_url constraints env = Inr ev"
    and started: "env ''APP_DATABASE_URL'' = Some u" "am_client (ss_modules started) = createPrismaClient u (pool_max env)"
    "ss_port started = listen_port env" "am_redis_url (ss_modules started) \<noteq> None \<longleftrightarrow> simulator_loaded env"
    using started_InrD [OF assms] .
  note checks = environment_valid(1) [OF valid]
  have url: "case env ''APP_DATABASE_URL'' of None \<Rightarrow> False | Some s \<Rightarrow> is_url [''postgresql'', ''postgres''] s"
    and pool: "absent_or (is_int_between 1 100) (env ''DATABASE_POOL_MAX'')"
    and port: "absent_or (is_int_between 1 65535) (env ''PORT'')"
    using checks by (simp_all add: environment_checks_def)
  have whole: "\<exists>n. Number_of s = Some (of_int n) \<and> lo \<le> n \<and> n \<le> hi" if between: "is_int_between (of_int lo) (of_int hi) s" for lo hi s
  proof -
    obtain q where q: "Number_of s = Some q" using between by (auto simp: is_int_between_def split: option.splits)
    with between have "of_int \<lfloor>q\<rfloor> = q" "of_int lo \<le> q" "q \<le> of_int hi" unfolding is_int_between_def by simp_all
    then have "lo \<le> \<lfloor>q\<rfloor>" "\<lfloor>q\<rfloor> \<le> hi" by linarith+
    then show ?thesis using q \<open>of_int \<lfloor>q\<rfloor> = q\<close> by metis
  qed
  have "dec_of_int 3000 = ''3000''"
    by (simp add: dec_of_int_def digit_char_def dec_of_nat.simps char_of_def bit_Suc_0_iff)
  then have default: "Number_of ''3000'' = Some (of_int 3000)" using Number_of_dec [of 3000] by simp
  have "\<exists>n. Number_of (listen_port env) = Some (of_int n) \<and> 1 \<le> n \<and> n \<le> 65535"
    using port whole [of 1 65535] default by (auto simp: listen_port_def absent_or_def split: option.splits)
  moreover have "pool_max env = None \<or> (\<exists>n. pool_max env = Some (Some (of_int n)) \<and> 1 \<le> n \<and> n \<le> 100)"
    using pool whole [of 1 100] by (auto simp: pool_max_def truthy_def absent_or_def split: option.splits)
  then have "\<exists>n. pc_pool_max (am_client (ss_modules started)) = Some (of_int n) \<and> 1 \<le> n \<and> n \<le> 100"
    using started(2) by (auto simp: createPrismaClient_def intro: exI [of _ 5])
  ultimately show ?thesis
    using started url validated_expiry_bounds [OF valid, of p now] by (auto simp: createPrismaClient_def)
qed


section \<open>The guards before everything\<close>

text \<open>Who is admitted by the two guards of a controller.\<close>

definition admission :: "(string \<Rightarrow> string) \<Rightarrow> api_role list option \<Rightarrow> string option \<Rightarrow> db \<Rightarrow> app_error + auth_context" where
  "admission sha required header d =
    andThen (api_key_guard sha header d) (\<lambda>auth. andThen (roles_guard required (Some auth)) (\<lambda>_. Inr auth))"

lemma guarded_admission:
  "guarded sha required header handler d =
    (case admission sha required header d of Inl e \<Rightarrow> (Inl e, d) | Inr auth \<Rightarrow> handler auth d)"
  by (simp add: guarded_def admission_def andThen_def split: sum.splits)

text \<open>The roles of each route, as the decorators of the controllers give them.\<close>

fun allowed_roles :: "endpoint \<Rightarrow> api_role list" where
  "allowed_roles (Change_Status reference body) = [OPERATOR, ADMIN]"
| "allowed_roles (Create_Payment body) = [MERCHANT]"
| "allowed_roles (Create_Refund reference body) = [MERCHANT]"
| "allowed_roles (Create_Merchant body) = [ADMIN]"
| "allowed_roles (Create_Key body) = [ADMIN]"
| "allowed_roles (Revoke_Key kid) = [ADMIN]"
| "allowed_roles (List_Exceptions onlyUnresolved) = [ANALYST, ADMIN]"
| "allowed_roles (Read_Exception xid) = [ANALYST, ADMIN]"
| "allowed_roles (Resolve_Exception xid body) = [ANALYST, ADMIN]"
| "allowed_roles _ = [MERCHANT, OPERATOR, ANALYST, ADMIN]"

lemma every_role: "role \<in> set [MERCHANT, OPERATOR, ANALYST, ADMIN]"
  by (cases role) simp_all

lemma admission_open: "admission sha None header d = admission sha (Some [MERCHANT, OPERATOR, ANALYST, ADMIN]) header d"
  using every_role by (simp add: admission_def andThen_def roles_guard_def split: sum.splits)

lemmas endpoint_defs =
  handle_endpoint_def Let_def required_roles_def admission_open TRANSITION_ROLES_def PAYMENTS_ROLES_def MERCHANTS_ROLES_def
  API_KEYS_ROLES_def RECONCILIATION_ROLES_def no_jobs_def piped_def to_answer_def after_creation_def guarded_admission
  get_list_def get_transaction_def get_history_def get_audit_def patch_status_def post_payment_def post_refund_def
  post_merchant_def post_api_key_def post_revoke_def get_exceptions_def get_exception_def patch_resolve_def get_stats_def

lemma problem_body [simp]: "rp_body (problem_answer url e) = Problem_Body (snd (snd (catch_exception e url)))"
  by (simp add: problem_answer_def split: prod.splits)

text \<open>A request that is not admitted is answered by the filter and does nothing else.\<close>

lemma not_admitted:
  assumes "rq_endpoint rq \<noteq> Health"
    "admission (pf_sha pf) (Some (allowed_roles (rq_endpoint rq))) (rq_authorization rq) d = Inl e"
  shows "handle_endpoint pf oc rq d
    = ((problem_answer (rq_url rq) (exception_of (pf_prisma_text pf) (pf_db_text pf) e), []), d)"
  using assms by (cases "rq_endpoint rq") (simp_all add: endpoint_defs split: sum.splits)


lemma role_text_plain: "CHR ''['' \<notin> set (role_text r)"
  by (cases r) simp_all

lemma join_roles_plain: "CHR ''['' \<notin> set (join_roles rs)"
  by (induction rs rule: join_roles.induct) (simp_all add: role_text_plain)

lemma plain_http_status:
  assumes "CHR ''['' \<notin> set msg"
  shows "rp_status (problem_answer url (exception_of prisma_text db_text (Http_Exception status msg))) = status"
proof -
  have "CODE_IN_MESSAGE (msg @ []) = CODE_IN_MESSAGE []" using assms by (rule first_code_skip)
  then show ?thesis
    by (simp add: problem_answer_def catch_exception_def Let_def toProblem_def exception_of_def extractLedgerErrorCode_def
        fromHttpException_def)
qed

lemma admission_refused:
  assumes "admission sha required header d = Inl e"
  shows "rp_status (problem_answer url (exception_of prisma_text db_text e)) \<in> {401, 403}"
proof -
  have "\<exists>code msg. code \<in> {401, 403} \<and> e = Http_Exception code msg \<and> CHR ''['' \<notin> set msg"
    using assms join_roles_plain
    by (auto simp: admission_def andThen_eq_Inl api_key_guard_def roles_guard_def split: if_splits option.splits)
  then show ?thesis using plain_http_status by fastforce
qed

lemma admitted:
  assumes "admission sha (Some rs) header d = Inr auth" "rs \<noteq> []"
  shows "au_role auth \<in> set rs" "\<exists>raw k. header = Some (BEARER_PREFIX @ raw) \<and> k \<in> set (api_keys d) \<and> k_is_active k
    \<and> k_hashed_key k = sha raw \<and> auth = \<lparr>au_api_key_id = k_id k, au_role = k_role k, au_merchant_id = k_merchant_id k\<rparr>"
proof -
  have guards: "api_key_guard sha header d = Inr auth" "roles_guard (Some rs) (Some auth) = Inr True"
    using assms by (auto simp: admission_def andThen_eq_Inr roles_guard_def split: if_splits)
  then show "au_role auth \<in> set rs" using assms(2) by (auto simp: roles_guard_cases split: if_splits)
  from guards(1) show "\<exists>raw k. header = Some (BEARER_PREFIX @ raw) \<and> k \<in> set (api_keys d) \<and> k_is_active k
      \<and> k_hashed_key k = sha raw \<and> auth = \<lparr>au_api_key_id = k_id k, au_role = k_role k, au_merchant_id = k_merchant_id k\<rparr>"
  proof (rule api_key_guard_Inr)
    fix raw k
    assume "header = Some (BEARER_PREFIX @ raw)" "validate_api_key sha raw d = Some k"
      "auth = \<lparr>au_api_key_id = k_id k, au_role = k_role k, au_merchant_id = k_merchant_id k\<rparr>"
    then show ?thesis using validate_api_key_Some [of sha raw d k] by blast
  qed
qed

lemma allowed_roles_some: "allowed_roles ep \<noteq> []"
  by (cases ep) simp_all

text \<open>
  C9: Every route but the health check is locked: a request is refused by the rate limit, or answered 401 or
  403 (both change nothing and schedule nothing), or it bears the text of an active key whose role is one
  of those of its route.
\<close>

theorem requests_need_a_key:
  assumes "handle_request pf oc rq d = ((resp, jobs), d')" "rq_endpoint rq \<noteq> Health"
  shows "(d' = d \<and> jobs = [] \<and> (resp = problem_answer (rq_url rq) (pf_too_many pf) \<or> rp_status resp \<in> {401, 403}))
    \<or> (\<exists>raw k. rq_authorization rq = Some (BEARER_PREFIX @ raw) \<and> k \<in> set (api_keys d) \<and> k_is_active k
        \<and> k_hashed_key k = pf_sha pf raw \<and> k_role k \<in> set (allowed_roles (rq_endpoint rq)))"
proof (cases "rate_limit_loaded (pf_env pf) \<and> oc_over_limit oc")
  case True
  then show ?thesis using assms by (simp add: handle_request_def)
next
  case False
  then have run: "handle_endpoint pf oc rq d = ((resp, jobs), d')" using assms by (auto simp: handle_request_def)
  show ?thesis
  proof (cases "admission (pf_sha pf) (Some (allowed_roles (rq_endpoint rq))) (rq_authorization rq) d")
    case (Inl e)
    then show ?thesis using not_admitted [OF assms(2) Inl] run admission_refused [OF Inl] by fastforce
  next
    case (Inr auth)
    then show ?thesis using admitted [OF Inr allowed_roles_some] by fastforce
  qed
qed


section \<open>What a request does to the database\<close>

text \<open>The part of a request that reaches a service, for a caller the guards have admitted.\<close>

definition endpoint_effect :: "platform \<Rightarrow> occasion \<Rightarrow> http_request \<Rightarrow> auth_context \<Rightarrow> db \<Rightarrow> db" where
  "endpoint_effect pf oc rq auth d =
    (let inp = oc_inputs oc; config = config_number (pf_env pf) in
     case rq_endpoint rq of
       Change_Status reference body \<Rightarrow>
         (case (pf_transition pf body, parseIfMatch (rq_if_match rq)) of
            (Inr dto, Inr v) \<Rightarrow> snd (transition (in_id inp) (oc_second_id oc) (in_db_now inp) reference dto v d)
          | _ \<Rightarrow> d)
     | Create_Payment body \<Rightarrow>
         (case (pf_payment pf body, requireIdempotencyKey (rq_idempotency_key rq)) of
            (Inr dto, Inr key) \<Rightarrow> snd (create_payment_for (pf_sha pf) config inp dto key (au_merchant_id auth) d)
          | _ \<Rightarrow> d)
     | Create_Refund reference body \<Rightarrow>
         (case (pf_refund pf body, requireIdempotencyKey (rq_idempotency_key rq)) of
            (Inr dto, Inr key) \<Rightarrow> snd (create_refund_for (pf_sha pf) config inp reference dto key (au_merchant_id auth) d)
          | _ \<Rightarrow> d)
     | Create_Merchant body \<Rightarrow>
         (case pf_merchant pf body of
            Inr dto \<Rightarrow> snd (create_merchant (in_id inp) (oc_second_id oc) (in_db_now inp) dto d) | Inl _ \<Rightarrow> d)
     | Create_Key body \<Rightarrow>
         (case pf_key pf body of
            Inr dto \<Rightarrow> snd (create_api_key (pf_sha pf) (in_id inp) (oc_random oc) None (in_db_now inp) dto d) | Inl _ \<Rightarrow> d)
     | Revoke_Key kid \<Rightarrow> snd (revoke_api_key kid (in_clock inp) d)
     | Resolve_Exception xid body \<Rightarrow>
         (case pf_resolution pf body of
            Inr resolution \<Rightarrow> snd (resolve_exception xid (in_clock inp) resolution (au_api_key_id auth) d) | Inl _ \<Rightarrow> d)
     | _ \<Rightarrow> d)"

lemma after_creation_db: "snd (after_creation pf oc url outcome) = snd outcome"
  by (cases outcome) (simp add: after_creation_def split: api_body.splits prod.splits)

lemma no_jobs_db: "snd (no_jobs outcome) = snd outcome"
  by (cases outcome) (simp add: no_jobs_def)

lemma to_answer_db: "snd (to_answer pf url present outcome) = snd outcome"
  by (simp add: to_answer_def split: prod.splits sum.splits)

lemma guarded_db: "admission sha required header d = Inr auth \<Longrightarrow> snd (guarded sha required header handler d) = snd (handler auth d)"
  by (simp add: guarded_admission)

lemma piped_db:
  "snd (piped pf rq required parsed handler present d) = (case parsed of Inr dto \<Rightarrow> snd (handler dto d) | Inl _ \<Rightarrow> d)"
  by (simp add: piped_def to_answer_db guarded_def split: sum.splits)

lemma split_outcome_db: "snd (case r of (Inl e, d) \<Rightarrow> (f e, d) | (Inr x, d) \<Rightarrow> (g x d, d)) = snd r"
  by (simp split: prod.splits sum.splits)

lemmas effect_defs = endpoint_effect_def handle_endpoint_def Let_def required_roles_def admission_open
  after_creation_db no_jobs_db to_answer_db piped_db guarded_admission split_outcome_db

lemma endpoint_db:
  assumes "rq_endpoint rq \<noteq> Health"
    "admission (pf_sha pf) (Some (allowed_roles (rq_endpoint rq))) (rq_authorization rq) d = Inr auth"
  shows "snd (handle_endpoint pf oc rq d) = endpoint_effect pf oc rq auth d"
  using assms
  by (cases "rq_endpoint rq")
    (simp_all add: effect_defs TRANSITION_ROLES_def PAYMENTS_ROLES_def MERCHANTS_ROLES_def
      API_KEYS_ROLES_def RECONCILIATION_ROLES_def get_list_def get_transaction_def get_history_def get_audit_def
      patch_status_def post_payment_def post_refund_def post_merchant_def post_api_key_def post_revoke_def
      get_exceptions_def get_exception_def patch_resolve_def get_stats_def split: sum.splits)


lemma create_payment_for_db:
  "snd (create_payment_for sha config inp dto key merchant_id d) = d
   \<or> (\<exists>m. merchant_id = Some m \<and> snd (create_payment_for sha config inp dto key merchant_id d) = snd (create_payment sha config inp dto key m d))"
  by (cases merchant_id)
    (simp_all add: create_payment_for_def createTransactionIdempotently_def withActor_def sql_transaction_run split: option.splits)

lemma create_refund_for_db:
  "snd (create_refund_for sha config inp ref dto key merchant_id d) = d
   \<or> (\<exists>m. merchant_id = Some m \<and> snd (create_refund_for sha config inp ref dto key merchant_id d) = snd (create_refund sha config inp ref dto key m d))"
  by (cases merchant_id) (simp_all add: create_refund_for_def)

lemma effect_is_step: "endpoint_effect pf oc rq auth d = d \<or> service_step d (endpoint_effect pf oc rq auth d)"
proof (cases "rq_endpoint rq")
  case (Create_Payment body)
  then show ?thesis
    using create_payment_for_db by (auto simp: endpoint_effect_def Let_def split: sum.splits) (metis step_payment)
next
  case (Create_Refund reference body)
  then show ?thesis
    using create_refund_for_db by (auto simp: endpoint_effect_def Let_def split: sum.splits) (metis step_refund)
qed (auto simp: endpoint_effect_def Let_def intro: service_step.intros split: sum.splits)

lemma request_db:
  "snd (handle_request pf oc rq d) = d
   \<or> (\<exists>auth. admission (pf_sha pf) (Some (allowed_roles (rq_endpoint rq))) (rq_authorization rq) d = Inr auth
        \<and> snd (handle_request pf oc rq d) = endpoint_effect pf oc rq auth d)"
proof (cases "rate_limit_loaded (pf_env pf) \<and> oc_over_limit oc \<and> rq_endpoint rq \<noteq> Health")
  case True
  then show ?thesis by (simp add: handle_request_def)
next
  case False
  then have run: "handle_request pf oc rq d = handle_endpoint pf oc rq d" by (auto simp: handle_request_def)
  show ?thesis
  proof (cases "rq_endpoint rq = Health")
    case True
    then show ?thesis unfolding run by (simp add: handle_endpoint_def no_jobs_db)
  next
    case False
    then show ?thesis
      unfolding run using not_admitted [OF False] endpoint_db [OF False]
      by (cases "admission (pf_sha pf) (Some (allowed_roles (rq_endpoint rq))) (rq_authorization rq) d") simp_all
  qed
qed

lemma request_is_step: "snd (handle_request pf oc rq d) = d \<or> service_step d (snd (handle_request pf oc rq d))"
  using request_db [of pf oc rq d] effect_is_step [of pf oc rq _ d] by metis


section \<open>What the key of a merchant can write\<close>

text \<open>One row of transactions more, with its line of history, and nothing else.\<close>

definition adds_row :: "transaction \<Rightarrow> db \<Rightarrow> db \<Rightarrow> bool" where
  "adds_row row d d' \<longleftrightarrow> (\<exists>h n. d' = d\<lparr>transactions := transactions d @ [row], history := history d @ [h], next_tx_id := n, deferred := []\<rparr>
     \<and> h_transaction_id h = t_id row \<and> h_to_status h = INITIATED) \<and> t_status row = INITIATED"

lemma insertion_row:
  assumes "withActor who now body d = (Inr row, d')"
    "\<And>s x d1. body s d = Inr (x, d1) \<Longrightarrow> \<exists>t. insert_transaction s t d = Inr (x, d1) \<and> P t"
  obtains t where "adds_row row d d'" "P t" "t_merchant_id row = t_merchant_id t" "t_type row = t_type t"
    "t_parent_transaction_id row = t_parent_transaction_id t" "t_reference row \<notin> t_reference ` set (transactions d)"
    "t_expires_at row = t_expires_at t"
proof -
  obtain s d1 where d1: "body s d = Inr (row, d1)" "d' = d1\<lparr>next_tx_id := Suc (next_tx_id d), deferred := []\<rparr>"
    using assms(1) unfolding withActor_def by (auto elim: sql_transaction_Inr)
  from assms(2) [OF d1(1)] obtain t where t: "insert_transaction s t d = Inr (row, d1)" "P t" by blast
  from t(1) show ?thesis
  proof (rule insert_transaction_InrD, goal_cases)
    case (1 h)
    have "adds_row row d d'" using 1(1,3,22,24) d1(2) by (auto simp: adds_row_def)
    moreover have "t_reference row \<notin> t_reference ` set (transactions d)" using 1(19) by (simp add: transaction_unique_checks_def)
    ultimately show ?case using that t(2) 1(6,10,11,15) by blast
  qed
qed

lemma idempotent_Inl: "createTransactionIdempotently a now key fp ins d = (Inl e, d') \<Longrightarrow> d' = d"
  by (auto simp: createTransactionIdempotently_def withActor_def dest: sql_transaction_Inl
      split: prod.splits sum.splits option.splits if_splits)

lemma idempotent_changed:
  assumes "createTransactionIdempotently a now key fp ins d = (out, d')" "d' \<noteq> d"
  obtains r where "out = Inr r" "\<not> ir_replayed r"
  using assms idempotent_Inl by (cases out) (auto elim: idempotent_Inr)

text \<open>The row of a creation that is no replay, with the instant it expires.\<close>

lemma payment_created_row:
  assumes "create_payment sha config inp dto key m d = (Inr r, d')" "\<not> ir_replayed r"
  shows "adds_row (ir_transaction r) d d' \<and> t_merchant_id (ir_transaction r) = m \<and> t_type (ir_transaction r) = PAYMENT
    \<and> t_reference (ir_transaction r) \<notin> t_reference ` set (transactions d)
    \<and> (\<exists>p. t_expires_at (ir_transaction r) = Some (computeExpiresAt (in_clock inp) (resolveExpiryMinutes config p)))"
  using assms(1) unfolding create_payment_def
proof (cases rule: idempotent_Inr)
  case created
  then show ?thesis
    by (elim insertion_row [where P = "\<lambda>t. t_merchant_id t = m \<and> t_type t = PAYMENT
        \<and> t_expires_at t = Some (computeExpiresAt (in_clock inp) (resolveExpiryMinutes config (cp_provider dto)))"])
      (auto simp: create_payment_body_def result_simps)
qed (use assms(2) in simp)

lemma refund_created_row:
  assumes "create_refund sha config inp ref dto key m d = (Inr r, d')" "\<not> ir_replayed r"
  shows "adds_row (ir_transaction r) d d' \<and> t_merchant_id (ir_transaction r) = m
    \<and> (\<exists>parent \<in> set (transactions d). t_parent_transaction_id (ir_transaction r) = Some (t_id parent) \<and> t_merchant_id parent = m)
    \<and> t_reference (ir_transaction r) \<notin> t_reference ` set (transactions d)
    \<and> (\<exists>p. t_expires_at (ir_transaction r) = Some (computeExpiresAt (in_clock inp) (resolveExpiryMinutes config p)))"
proof -
  obtain parent where parent: "lookup_by t_reference ref (transactions d) = Some parent" "t_merchant_id parent = m"
    "createTransactionIdempotently ''api:payments'' (in_db_now inp) key (refundFingerprintOf sha ref dto)
       (create_refund_body sha config inp ref parent dto key) d = (Inr r, d')"
    using assms(1) by (auto simp: create_refund_def findByReferenceOrThrow_def split: option.splits if_splits)
  from parent(3) show ?thesis
  proof (cases rule: idempotent_Inr)
    case created
    then show ?thesis
      using lookup_by_in [OF parent(1)] parent(2)
      by (elim insertion_row [where P = "\<lambda>t. t_merchant_id t = m \<and> t_parent_transaction_id t = Some (t_id parent)
          \<and> t_expires_at t = Some (computeExpiresAt (in_clock inp) (resolveExpiryMinutes config (t_provider parent)))"])
        (auto simp: create_refund_body_def result_simps)
  qed (use assms(2) in simp)
qed

lemma payment_changed:
  assumes "create_payment sha config inp dto key m d = (out, d')" "d' \<noteq> d"
  obtains r where "out = Inr r" "\<not> ir_replayed r"
  using assms unfolding create_payment_def by (rule idempotent_changed)

lemma refund_changed:
  assumes "create_refund sha config inp ref dto key m d = (out, d')" "d' \<noteq> d"
  obtains r where "out = Inr r" "\<not> ir_replayed r"
  using assms by (auto simp: create_refund_def split: sum.splits if_splits elim: idempotent_changed)

lemma payment_adds_row:
  assumes "snd (create_payment sha config inp dto key m d) \<noteq> d"
  shows "\<exists>row. adds_row row d (snd (create_payment sha config inp dto key m d)) \<and> t_merchant_id row = m \<and> t_type row = PAYMENT"
proof -
  obtain out d' where run: "create_payment sha config inp dto key m d = (out, d')" by fastforce
  have "d' \<noteq> d" using assms run by simp
  then obtain r where "out = Inr r" "\<not> ir_replayed r" using payment_changed [OF run] by blast
  with run payment_created_row [of sha config inp dto key m d r d'] show ?thesis by fastforce
qed

lemma refund_adds_row:
  assumes "snd (create_refund sha config inp ref dto key m d) \<noteq> d"
  shows "\<exists>row parent. adds_row row d (snd (create_refund sha config inp ref dto key m d)) \<and> t_merchant_id row = m
    \<and> parent \<in> set (transactions d) \<and> t_parent_transaction_id row = Some (t_id parent) \<and> t_merchant_id parent = m"
proof -
  obtain out d' where run: "create_refund sha config inp ref dto key m d = (out, d')" by fastforce
  have "d' \<noteq> d" using assms run by simp
  then obtain r where "out = Inr r" "\<not> ir_replayed r" using refund_changed [OF run] by blast
  with run refund_created_row [of sha config inp ref dto key m d r d'] show ?thesis by fastforce
qed

lemma creation_adds_row:
  assumes "d' = endpoint_effect pf oc rq auth d" "d' \<noteq> d"
    "(\<exists>body. rq_endpoint rq = Create_Payment body) \<or> (\<exists>reference body. rq_endpoint rq = Create_Refund reference body)"
  obtains row m where "adds_row row d d'" "au_merchant_id auth = Some m" "t_merchant_id row = m"
    "t_type row = PAYMENT \<or> (\<exists>parent \<in> set (transactions d). t_parent_transaction_id row = Some (t_id parent) \<and> t_merchant_id parent = m)"
  using assms(3)
proof (elim disjE exE)
  fix body assume "rq_endpoint rq = Create_Payment body"
  then obtain dto key where "d' = snd (create_payment_for (pf_sha pf) (config_number (pf_env pf)) (oc_inputs oc) dto key (au_merchant_id auth) d)"
    using assms(1,2) by (auto simp: endpoint_effect_def Let_def split: sum.splits)
  then show thesis using assms(2) create_payment_for_db payment_adds_row that by metis
next
  fix reference body assume "rq_endpoint rq = Create_Refund reference body"
  then obtain dto key where "d' = snd (create_refund_for (pf_sha pf) (config_number (pf_env pf)) (oc_inputs oc) reference dto key (au_merchant_id auth) d)"
    using assms(1,2) by (auto simp: endpoint_effect_def Let_def split: sum.splits)
  then show thesis using assms(2) create_refund_for_db refund_adds_row that by metis
qed

text \<open>
  C8: The key of a merchant moves no money and touches nothing of another merchant: whatever a request with
  it asks for, the ledger, the accounts, the keys, the exceptions and every existing transaction with its
  history stay as they are; at most one new INITIATED row is added, of its own merchant, and a refund is
  one of a payment of that merchant.
\<close>

theorem merchant_key_confined:
  assumes "handle_request pf oc rq d = (out, d')"
    "api_key_guard (pf_sha pf) (rq_authorization rq) d = Inr auth" "au_role auth = MERCHANT"
  shows "entries d' = entries d \<and> postings d' = postings d \<and> accounts d' = accounts d \<and> merchants d' = merchants d
    \<and> api_keys d' = api_keys d \<and> exceptions d' = exceptions d \<and> loads d' = loads d
    \<and> (d' = d \<or> (\<exists>row h. transactions d' = transactions d @ [row] \<and> history d' = history d @ [h]
        \<and> h_transaction_id h = t_id row \<and> t_status row = INITIATED \<and> Some (t_merchant_id row) = au_merchant_id auth
        \<and> (t_type row = PAYMENT \<or> (\<exists>parent \<in> set (transactions d). t_parent_transaction_id row = Some (t_id parent)
            \<and> t_merchant_id parent = t_merchant_id row))))"
proof (cases "d' = d")
  case False
  then obtain auth' where auth': "admission (pf_sha pf) (Some (allowed_roles (rq_endpoint rq))) (rq_authorization rq) d = Inr auth'"
    "d' = endpoint_effect pf oc rq auth' d" using request_db [of pf oc rq d] assms(1) by auto
  moreover have "auth' = auth" using auth'(1) assms(2) by (auto simp: admission_def andThen_eq_Inr)
  ultimately have effect: "d' = endpoint_effect pf oc rq auth d" "MERCHANT \<in> set (allowed_roles (rq_endpoint rq))"
    using admitted(1) [OF auth'(1) allowed_roles_some] assms(3) by simp_all
  have "(\<exists>body. rq_endpoint rq = Create_Payment body) \<or> (\<exists>reference body. rq_endpoint rq = Create_Refund reference body)"
    using effect False by (cases "rq_endpoint rq") (auto simp: endpoint_effect_def)
  with effect(1) False show ?thesis by (elim creation_adds_row) (auto simp: adds_row_def)
qed simp


section \<open>A refused request leaves nothing behind\<close>

lemma to_answer_failed:
  assumes "to_answer pf url present outcome = (resp, d')" "400 \<le> rp_status resp"
    "\<And>x d1. outcome = (Inr x, d1) \<Longrightarrow> rp_status (present x) < 400"
  obtains e where "outcome = (Inl e, d')"
  using assms by (fastforce simp: to_answer_def split: prod.splits sum.splits)

lemma piped_failed:
  assumes "piped pf rq required parsed handler present d = (resp, d')" "400 \<le> rp_status resp"
    "\<And>dto x d1. parsed = Inr dto \<Longrightarrow> handler dto d = (Inr x, d1) \<Longrightarrow> rp_status (present x) < 400"
  shows "d' = d \<or> (\<exists>dto e. parsed = Inr dto \<and> handler dto d = (Inl e, d'))"
proof (cases parsed)
  case (Inl bad)
  then show ?thesis using arg_cong [OF assms(1), of snd] by (simp add: piped_db)
next
  case (Inr dto)
  then have "to_answer pf (rq_url rq) present (handler dto d) = (resp, d')" using assms(1) by (simp add: piped_def)
  from this assms(2) show ?thesis by (rule to_answer_failed) (use assms(3) Inr in auto)
qed

lemma split_outcome_Inl:
  "(case r of (Inl e, d) \<Rightarrow> (Inl e, d) | (Inr x, d) \<Rightarrow> (Inr (g x d), d)) = (Inl e, d') \<longleftrightarrow> r = (Inl e, d')"
  by (auto split: prod.splits sum.splits)

lemma service_Inl:
  "create_payment_for sha config inp pdto key merchant_id d = (Inl e, d') \<Longrightarrow> d' = d"
  "create_refund_for sha config inp ref rdto key merchant_id d = (Inl e, d') \<Longrightarrow> d' = d"
  "create_merchant mid aid now mdto d = (Inl e, d') \<Longrightarrow> d' = d"
  "create_api_key sha kid rnd given now kdto d = (Inl e, d') \<Longrightarrow> d' = d"
  "revoke_api_key kid clock d = (Inl e, d') \<Longrightarrow> d' = d"
  "resolve_exception xid clock resolution by_key d = (Inl e, d') \<Longrightarrow> d' = d"
  by (auto simp: create_payment_for_def create_payment_def create_refund_for_def create_refund_def create_merchant_def
      create_api_key_def revoke_api_key_def resolve_exception_def Let_def
      dest: idempotent_Inl sql_transaction_Inl split: option.splits sum.splits if_splits prod.splits)


lemma add_jobs_incomplete:
  "add_jobs takes jobs = (False, added) \<Longrightarrow> \<exists>j \<in> set jobs. \<not> takes (fst j)"
  by (induction jobs arbitrary: added) (auto split: if_splits prod.splits)

lemma scheduled_references: "j \<in> set (scheduleCallbacks draw1 draw2 reference) \<Longrightarrow> cj_reference (fst j) = reference"
  by (auto simp: scheduleCallbacks_def Let_def)

lemma after_creation_failed:
  assumes "after_creation pf oc url (resp0, d0) = ((resp, jobs), d')" "400 \<le> rp_status resp"
  shows "d' = d0 \<and> ((400 \<le> rp_status resp0 \<and> jobs = []) \<or> (simulator_loaded (pf_env pf) \<and> (\<exists>t job. rp_body resp0 = Transaction_Body t
    \<and> rp_status resp0 = 201 \<and> cj_reference job = tr_reference t \<and> \<not> oc_queue_takes oc job)))"
proof (cases "\<exists>t. rp_body resp0 = Transaction_Body t \<and> rp_status resp0 = 201 \<and> simulator_loaded (pf_env pf)")
  case False
  then have "((resp0, []), d0) = ((resp, jobs), d')"
    using assms(1) by (auto simp: after_creation_def split: api_body.splits if_splits prod.splits)
  then show ?thesis using assms(2) by simp
next
  case True
  then obtain t where t: "rp_body resp0 = Transaction_Body t" "rp_status resp0 = 201" "simulator_loaded (pf_env pf)" by blast
  let ?jobs = "scheduleCallbacks (fst (oc_draws oc)) (snd (oc_draws oc)) (tr_reference t)"
  obtain all_taken added where run: "add_jobs (oc_queue_takes oc) ?jobs = (all_taken, added)" by fastforce
  have "\<not> all_taken" "d' = d0" using assms t run by (auto simp: after_creation_def split: if_splits)
  moreover from this run obtain j where "j \<in> set ?jobs" "\<not> oc_queue_takes oc (fst j)" using add_jobs_incomplete by (metis (full_types))
  ultimately show ?thesis using t scheduled_references [of j] by blast
qed

lemma handler_statuses:
  "post_payment sha config inp header pdto key d = (Inr x, d') \<Longrightarrow> rp_status x < 400"
  "post_refund sha config inp header ref rdto key d = (Inr x, d') \<Longrightarrow> rp_status x < 400"
  "patch_status sha eid xid now header ref tdto ifm d = (Inr y, d') \<Longrightarrow> rp_status y < 400"
  "post_merchant sha mid aid now header mdto d = (Inr z, d') \<Longrightarrow> rp_status z < 400"
  by (auto simp: post_payment_def post_refund_def patch_status_def post_merchant_def guarded_admission creation_response_def
      with_etag_def split: sum.splits prod.splits)

lemma handler_Inl:
  "post_payment sha config inp header pdto key d = (Inl e, d') \<Longrightarrow> d' = d"
  "post_refund sha config inp header ref rdto key d = (Inl e, d') \<Longrightarrow> d' = d"
  "post_merchant sha mid aid now header mdto d = (Inl e, d') \<Longrightarrow> d' = d"
  "post_api_key sha header kid rnd now kdto d = (Inl e, d') \<Longrightarrow> d' = d"
  "post_revoke sha header kid clock d = (Inl e, d') \<Longrightarrow> d' = d"
  "patch_resolve sha header xid clock resolution d = (Inl e, d') \<Longrightarrow> d' = d"
  by (auto simp: post_payment_def post_refund_def post_merchant_def post_api_key_def post_revoke_def patch_resolve_def
      guarded_admission dest: service_Inl split: sum.splits prod.splits)


lemma patch_status_Inl:
  assumes "patch_status sha eid xid now header ref dto ifm d = (Inl e, d')"
  shows "d' = d \<or> (\<exists>v. transition eid xid now ref dto v d = (Inl e, d'))"
  using assms by (auto simp: patch_status_def guarded_admission split: sum.splits prod.splits)

text \<open>The one database change of a refused request: a late acknowledgment.\<close>

definition records_late :: "string \<Rightarrow> db \<Rightarrow> db \<Rightarrow> bool" where
  "records_late reference d d' \<longleftrightarrow> (\<exists>row x n. lookup_by t_reference reference (transactions d) = Some row \<and> t_status row = EXPIRED
     \<and> d' = d\<lparr>exceptions := exceptions d @ [x], next_tx_id := n, deferred := []\<rparr>
     \<and> x_kind x = LATE_ACKNOWLEDGMENT \<and> x_resolved_at x = None)"

lemma creation_failed:
  assumes "after_creation pf oc (rq_url rq) (piped pf rq required parsed handler (map_body Transaction_Body) d) = ((resp, jobs), d')"
    "400 \<le> rp_status resp"
    "\<And>dto x d1. handler dto d = (Inr x, d1) \<Longrightarrow> rp_status x < 400"
    "\<And>dto e d1. handler dto d = (Inl e, d1) \<Longrightarrow> d1 = d"
  shows "d' = d \<or> (simulator_loaded (pf_env pf) \<and> (\<exists>job. \<not> oc_queue_takes oc job))"
proof -
  obtain resp0 d0 where run: "piped pf rq required parsed handler (map_body Transaction_Body) d = (resp0, d0)" by fastforce
  note after = after_creation_failed [OF assms(1) [unfolded run] assms(2)]
  show ?thesis
  proof (cases "400 \<le> rp_status resp0")
    case True
    have "d0 = d"
      using piped_failed [OF run True] assms(3,4) by (auto simp: map_body_def)
    then show ?thesis using after by simp
  next
    case False
    then show ?thesis using after by blast
  qed
qed

fun only_reads :: "endpoint \<Rightarrow> bool" where
  "only_reads (Change_Status reference body) = False"
| "only_reads (Create_Payment body) = False"
| "only_reads (Create_Refund reference body) = False"
| "only_reads (Create_Merchant body) = False"
| "only_reads (Create_Key body) = False"
| "only_reads (Revoke_Key kid) = False"
| "only_reads (Resolve_Exception xid body) = False"
| "only_reads _ = True"

text \<open>
  C15: A request that only reads, and every request answered with an error, leaves the database as it was, with
  two exceptions: a late acknowledgment is recorded as one open exception, and a creation stays when the queue
  of the simulated operator refuses its jobs, although the client is answered with an error.
\<close>

theorem failed_requests_change_nothing:
  assumes "handle_request pf oc rq d = ((resp, jobs), d')" "400 \<le> rp_status resp \<or> only_reads (rq_endpoint rq)"
  shows "d' = d
    \<or> (\<exists>reference body. rq_endpoint rq = Change_Status reference body \<and> records_late reference d d')
    \<or> (simulator_loaded (pf_env pf) \<and> (\<exists>job. \<not> oc_queue_takes oc job) \<and> (\<exists>row. adds_row row d d'))"
proof (cases "d' = d")
  case changed: False
  obtain auth where auth: "admission (pf_sha pf) (Some (allowed_roles (rq_endpoint rq))) (rq_authorization rq) d = Inr auth"
    and effect: "d' = endpoint_effect pf oc rq auth d"
    using request_db [of pf oc rq d] assms(1) changed by auto
  then have "\<not> only_reads (rq_endpoint rq)" using changed by (cases "rq_endpoint rq") (auto simp: endpoint_effect_def)
  then have failed: "400 \<le> rp_status resp" using assms(2) by blast
  have run: "handle_endpoint pf oc rq d = ((resp, jobs), d')"
    using assms(1) changed by (auto simp: handle_request_def split: if_splits)
  show ?thesis
  proof (cases "rq_endpoint rq")
    case (Change_Status reference body)
    then obtain dto e where "patch_status (pf_sha pf) (in_id (oc_inputs oc)) (oc_second_id oc) (in_db_now (oc_inputs oc))
        (rq_authorization rq) reference dto (rq_if_match rq) d = (Inl e, d')"
      using run failed changed
      by (auto simp: handle_endpoint_def Let_def no_jobs_def map_body_def dest!: handler_statuses(3) piped_failed split: prod.splits)
    then obtain v where "transition (in_id (oc_inputs oc)) (oc_second_id oc) (in_db_now (oc_inputs oc)) reference dto v d = (Inl e, d')"
      using patch_status_Inl changed by blast
    then have "records_late reference d d'" using transition_Inl changed unfolding records_late_def by blast
    then show ?thesis using Change_Status by blast
  next
    case (Create_Payment body)
    then obtain row where "adds_row row d d'" using effect changed by (elim creation_adds_row) auto
    moreover from run [unfolded handle_endpoint_def Let_def Create_Payment endpoint.case] failed
    have "d' = d \<or> (simulator_loaded (pf_env pf) \<and> (\<exists>job. \<not> oc_queue_takes oc job))"
      by (rule creation_failed) (fact handler_statuses(1) handler_Inl(1))+
    ultimately show ?thesis using changed by blast
  next
    case (Create_Refund reference body)
    then obtain row where "adds_row row d d'" using effect changed by (elim creation_adds_row) auto
    moreover from run [unfolded handle_endpoint_def Let_def Create_Refund endpoint.case] failed
    have "d' = d \<or> (simulator_loaded (pf_env pf) \<and> (\<exists>job. \<not> oc_queue_takes oc job))"
      by (rule creation_failed) (fact handler_statuses(2) handler_Inl(2))+
    ultimately show ?thesis using changed by blast
  next
    case (Create_Merchant body)
    then show ?thesis
      using run failed changed
      by (auto simp: handle_endpoint_def Let_def no_jobs_def map_body_def dest!: handler_statuses(4) piped_failed
          dest: handler_Inl(3) split: prod.splits)
  next
    case (Create_Key body)
    then show ?thesis
      using run failed changed
      by (auto simp: handle_endpoint_def Let_def no_jobs_def reply_def dest!: piped_failed dest: handler_Inl(4) split: prod.splits)
  next
    case (Revoke_Key kid)
    then show ?thesis
      using run failed changed
      by (auto simp: handle_endpoint_def Let_def no_jobs_def reply_def elim!: to_answer_failed dest: handler_Inl(5) split: prod.splits)
  next
    case (Resolve_Exception xid body)
    then show ?thesis
      using run failed changed
      by (auto simp: handle_endpoint_def Let_def no_jobs_def reply_def dest!: piped_failed dest: handler_Inl(6) split: prod.splits)
  qed (use effect changed in \<open>auto simp: endpoint_effect_def\<close>)
qed simp


section \<open>A queue that fails strands a payment\<close>

lemma run_creation:
  assumes "rq_endpoint rq = Create_Payment body" "pf_payment pf body = Inr dto"
    "requireIdempotencyKey (rq_idempotency_key rq) = Inr key"
    "admission (pf_sha pf) (Some [MERCHANT]) (rq_authorization rq) d = Inr auth"
  shows "handle_endpoint pf oc rq d = after_creation pf oc (rq_url rq)
    (to_answer pf (rq_url rq) (\<lambda>r. map_body Transaction_Body (creation_response r))
      (create_payment_for (pf_sha pf) (config_number (pf_env pf)) (oc_inputs oc) dto key (au_merchant_id auth) d))"
  using assms
  by (simp add: handle_endpoint_def Let_def piped_def post_payment_def required_roles_def PAYMENTS_ROLES_def guarded_admission
      to_answer_def split: prod.splits sum.splits)

lemma create_payment_for_stored:
  assumes "keys_ok d" "t \<in> set (transactions d)" "t_idempotency_key t = key" "t_request_fingerprint t = fingerprintOf sha dto"
  shows "create_payment_for sha config inp dto key merchant_id d = (Inr \<lparr>ir_transaction = t, ir_replayed = True\<rparr>, d)"
proof (cases merchant_id)
  case None
  then show ?thesis
    using idempotent_stored [OF assms(1-3), of "\<lambda>s d. Inl (Js_Error ''Argument merchantId must not be null'')" _ _ "fingerprintOf sha dto"] assms(4)
    by (simp add: create_payment_for_def)
next
  case (Some m)
  then show ?thesis using payment_stored [OF assms(1-3), of sha config inp dto m] assms(4) by (simp add: create_payment_for_def)
qed

text \<open>The creation behind a request that changed the database.\<close>

lemma created_by_request:
  assumes "handle_request pf oc rq d = ((resp, jobs), d')" "d' \<noteq> d" "rq_endpoint rq = Create_Payment body"
  obtains dto key m r auth where "pf_payment pf body = Inr dto" "requireIdempotencyKey (rq_idempotency_key rq) = Inr key"
    "create_payment (pf_sha pf) (config_number (pf_env pf)) (oc_inputs oc) dto key m d = (Inr r, d')" "\<not> ir_replayed r"
    "((resp, jobs), d') = after_creation pf oc (rq_url rq) (map_body Transaction_Body (creation_response r), d')"
    "au_merchant_id auth = Some m" "admission (pf_sha pf) (Some [MERCHANT]) (rq_authorization rq) d = Inr auth"
proof -
  obtain auth where auth: "admission (pf_sha pf) (Some [MERCHANT]) (rq_authorization rq) d = Inr auth"
    and effect: "d' = endpoint_effect pf oc rq auth d"
    using request_db [of pf oc rq d] assms by auto
  then obtain dto key where dto: "pf_payment pf body = Inr dto" "requireIdempotencyKey (rq_idempotency_key rq) = Inr key"
    and for_m: "d' = snd (create_payment_for (pf_sha pf) (config_number (pf_env pf)) (oc_inputs oc) dto key (au_merchant_id auth) d)"
    using assms(2,3) by (auto simp: endpoint_effect_def Let_def split: sum.splits)
  then obtain m where m: "au_merchant_id auth = Some m" using assms(2) create_payment_for_db by metis
  obtain out where out: "create_payment (pf_sha pf) (config_number (pf_env pf)) (oc_inputs oc) dto key m d = (out, d')"
    using for_m m by (metis create_payment_for_def option.simps(5) prod.collapse)
  obtain r where r: "out = Inr r" and fresh: "\<not> ir_replayed r" using payment_changed [OF out assms(2)] .
  have "handle_endpoint pf oc rq d = ((resp, jobs), d')"
    using assms(1,2) by (auto simp: handle_request_def split: if_splits)
  then have "((resp, jobs), d') = after_creation pf oc (rq_url rq) (map_body Transaction_Body (creation_response r), d')"
    using run_creation [OF assms(3) dto auth] m out r by (simp add: create_payment_for_def to_answer_def)
  with that [OF dto out [unfolded r] fresh _ m auth] show thesis by blast
qed

text \<open>
  C28: When the queue of the simulated operator is down, a payment is stranded: its creation is committed but
  answered 500 and no callback is scheduled; at any later time the same request is a replay, which schedules
  nothing either, so the retry that the key is for can never repair it.
\<close>

theorem queue_failure_strands:
  assumes "inj uid" "reachable uid n0 d" "simulator_loaded (pf_env pf)" "rq_endpoint rq = Create_Payment body"
    "\<And>job. \<not> oc_queue_takes oc job" "CODE_IN_MESSAGE (oc_queue_error oc) = None"
    "handle_request pf oc rq d = ((resp, jobs), d1)" "d1 \<noteq> d" "rtranclp service_step d1 d2"
    "handle_request pf oc' rq d2 = ((resp', jobs'), d3)"
  shows "rp_status resp = 500 \<and> jobs = [] \<and> jobs' = [] \<and> d3 = d2
    \<and> (resp' = problem_answer (rq_url rq) (pf_too_many pf) \<or> rp_status resp' \<in> {200, 401, 403})"
proof -
  obtain dto key m r auth where made: "pf_payment pf body = Inr dto" "requireIdempotencyKey (rq_idempotency_key rq) = Inr key"
    "create_payment (pf_sha pf) (config_number (pf_env pf)) (oc_inputs oc) dto key m d = (Inr r, d1)" "\<not> ir_replayed r"
    "((resp, jobs), d1) = after_creation pf oc (rq_url rq) (map_body Transaction_Body (creation_response r), d1)"
    "au_merchant_id auth = Some m" "admission (pf_sha pf) (Some [MERCHANT]) (rq_authorization rq) d = Inr auth"
    using created_by_request [OF assms(7,8,4)] .
  have "add_jobs (oc_queue_takes oc) (scheduleCallbacks a b ref) = (False, [])" for a b ref
    using assms(5) by (simp add: scheduleCallbacks_def Let_def)
  then have first: "resp = problem_answer (rq_url rq) (exception_of (pf_prisma_text pf) (pf_db_text pf) (Js_Error (oc_queue_error oc)))" "jobs = []"
    using made(4,5) assms(3) by (simp_all add: after_creation_def map_body_def creation_response_def)
  have status: "rp_status resp = 500"
    using assms(6) unfolding first(1)
    by (simp add: problem_answer_def catch_exception_def Let_def toProblem_def exception_of_def extractLedgerErrorCode_def internal_problem_def)
  have "service_step d d1" using step_payment made(3) by (metis snd_conv)
  then have ok: "system_ok d1" using reachable_system_ok [OF reach_step [OF assms(2)] assms(1)] by blast
  from made(3,4) obtain t where t: "t \<in> set (transactions d1)" "t_idempotency_key t = key" "t_request_fingerprint t = fingerprintOf (pf_sha pf) dto"
    by (rule create_payment_created) auto
  obtain t' where t': "t' \<in> set (transactions d2)" "row_evolves t t'" using row_later [OF assms(9) ok t(1)] .
  have "keys_ok d2" using steps_evolve [OF assms(9) ok] by (simp add: system_ok_def tables_ok_def)
  moreover have "t_idempotency_key t' = key" "t_request_fingerprint t' = fingerprintOf (pf_sha pf) dto"
    using t'(2) t(2,3) by (simp_all add: row_evolves_def frozen_columns_kept_def)
  ultimately have replay: "create_payment_for (pf_sha pf) config inp dto key merchant_id d2 = (Inr \<lparr>ir_transaction = t', ir_replayed = True\<rparr>, d2)"
    for config inp merchant_id using create_payment_for_stored t'(1) by blast
  have retry: "jobs' = [] \<and> d3 = d2 \<and> (resp' = problem_answer (rq_url rq) (pf_too_many pf) \<or> rp_status resp' \<in> {200, 401, 403})"
  proof (cases "rate_limit_loaded (pf_env pf) \<and> oc_over_limit oc'")
    case True
    then show ?thesis using assms(4,10) by (simp add: handle_request_def)
  next
    case False
    then have run: "handle_endpoint pf oc' rq d2 = ((resp', jobs'), d3)" using assms(10) by (auto simp: handle_request_def)
    show ?thesis
    proof (cases "admission (pf_sha pf) (Some [MERCHANT]) (rq_authorization rq) d2")
      case (Inl e)
      then show ?thesis using not_admitted [of rq pf d2 e oc'] assms(4) run admission_refused [OF Inl] by fastforce
    next
      case (Inr auth')
      then show ?thesis using run run_creation [OF assms(4) made(1,2) Inr, of oc'] replay
        by (auto simp: to_answer_def after_creation_def creation_response_def map_body_def)
    qed
  qed
  then show ?thesis using status first(2) by blast
qed


section \<open>A server that runs\<close>

definition demo_refusal :: js_exception where
  "demo_refusal = \<lparr>ex_message = ''Bad Request Exception'', ex_original = None,
     ex_http = Some \<lparr>he_status = 400, he_name = http_exception_name 400, he_message = Many [''invalid'']\<rparr>\<rparr>"

definition demo_server_env :: "string \<Rightarrow> string option" where
  "demo_server_env k =
    (if k = ''APP_DATABASE_URL'' then Some ''postgresql://app'' else if k = ''REDIS_URL'' then Some ''redis://queue''
     else if k = ''PROVIDER_SIMULATOR_ENABLED'' then Some ''true'' else None)"

theorem started_server_configured_witness:
  "computeExpiresAt 0 (resolveExpiryMinutes (config_number demo_server_env) WAVE) \<le> 86400000
    \<and> (\<exists>started. start_server (\<lambda>ps s. True) (\<lambda>n. n) (\<lambda>k. k) demo_server_env = Inr started \<and> am_redis_url (ss_modules started) \<noteq> None)"
proof -
  have "\<exists>started. start_server (\<lambda>ps s. True) (\<lambda>n. n) (\<lambda>k. k) demo_server_env = Inr started"
    by (simp add: start_server_def load_modules_def prisma_service_def redis_connection_def validate_environment_def environment_checks_def demo_server_env_def absent_or_def is_flag_def
        getOrThrow_def result_of_option_def simulator_loaded_def)
  then obtain started where start: "start_server (\<lambda>ps s. True) (\<lambda>n. n) (\<lambda>k. k) demo_server_env = Inr started" by blast
  have "simulator_loaded demo_server_env" by (simp add: simulator_loaded_def demo_server_env_def)
  then show ?thesis using started_server_configured [OF start, of 0 WAVE] start by auto
qed

text \<open>A pipe that knows one body and refuses every other.\<close>

definition demo_pipe :: "'a \<Rightarrow> string \<Rightarrow> js_exception + 'a" where
  "demo_pipe dto raw = (if raw = ''body'' then Inr dto else Inl demo_refusal)"

definition demo_platform :: platform where
  "demo_platform =
    \<lparr>pf_env = demo_server_env, pf_sha = demo_sha, pf_lenient = (\<lambda>s. None), pf_other_date = (\<lambda>s. None), pf_uuid_of = Some,
     pf_prisma_text = (\<lambda>t. t), pf_db_text = (\<lambda>e. ''refused''), pf_too_many = demo_refusal, pf_unavailable_text = ''unavailable'',
     pf_query = (\<lambda>s. Inl demo_refusal), pf_transition = demo_pipe (demo_to PENDING), pf_payment = demo_pipe demo_payment,
     pf_refund = demo_pipe demo_refund, pf_merchant = (\<lambda>s. Inl demo_refusal), pf_key = demo_pipe demo_admin_dto,
     pf_resolution = demo_pipe ''seen''\<rparr>"

definition demo_occasion :: "bool \<Rightarrow> occasion" where
  "demo_occasion takes =
    \<lparr>oc_inputs = demo_inputs ''t1'' 1 1000, oc_second_id = ''x1'', oc_random = [], oc_over_limit = False,
     oc_database_answers = True, oc_queue_takes = (\<lambda>job. takes), oc_queue_error = ''connection refused'', oc_draws = (0, 0)\<rparr>"

definition demo_request :: "endpoint \<Rightarrow> http_request" where
  "demo_request ep =
    \<lparr>rq_endpoint = ep, rq_url = ''/v1'', rq_authorization = Some ''Bearer shop'', rq_idempotency_key = Some ''k1'', rq_if_match = Some ''1''\<rparr>"

text \<open>The demonstration merchant has a key.\<close>

definition demo_shop_dto :: create_api_key_dto where
  "demo_shop_dto = \<lparr>ck_label = ''shop'', ck_role = MERCHANT, ck_merchant_id = Some (demo_uid 6)\<rparr>"

definition demo_shop_key :: api_key where
  "demo_shop_key = \<lparr>k_id = ''a3'', k_label = ''shop'', k_role = MERCHANT, k_hashed_key = demo_sha [],
     k_merchant_id = Some (demo_uid 6), k_is_active = True, k_revoked_at = None, k_created_at = 5\<rparr>"

definition demo_shop :: db where
  "demo_shop = demo_start\<lparr>api_keys := [demo_shop_key], next_tx_id := 2\<rparr>"

lemma run_shop:
  "create_api_key demo_sha ''a3'' [] (Some ''shop'') 5 demo_shop_dto demo_start
    = (Inr \<lparr>ca_id = ''a3'', ca_label = ''shop'', ca_role = MERCHANT, ca_merchant_id = Some (demo_uid 6), ca_raw_key = ''shop''\<rparr>, demo_shop)"
  by (simp add: create_api_key_def demo_shop_dto_def demo_shop_key_def truthy_def Let_def create_key_body_def insert_api_key_def
      api_key_checks_def check_all.simps hashApiKey_def sql_transaction_run deferred_checks_def demo_start_def
      initial_db_def demo_shop_def demo_sha_const [of "''shop''"] demo_uid_def)


lemma reach_shop: "reachable demo_uid 0 demo_shop"
proof -
  have "service_step demo_start demo_shop" using step_api_key run_shop by (metis snd_conv)
  then show ?thesis using reach_step [OF reach_initial] unfolding demo_start_def by blast
qed

definition demo_sold :: db where
  "demo_sold = demo_created\<lparr>api_keys := [demo_shop_key], next_tx_id := 3\<rparr>"

lemma demo_server_config [simp]:
  "config_number demo_server_env ''PAYMENT_EXPIRY_MINUTES_WAVE'' = None"
  "config_number demo_server_env ''PAYMENT_EXPIRY_MINUTES_DEFAULT'' = None"
  by (simp_all add: config_number_def demo_server_env_def)

lemma run_sold:
  "create_payment demo_sha (config_number demo_server_env) (demo_inputs ''t1'' 1 1000) demo_payment ''k1'' (demo_uid 6) demo_shop =
    (Inr \<lparr>ir_transaction = demo_row ''t1'' ''TXN-20260922-010101'' ''k1'' 1000 INITIATED 0 1 1000, ir_replayed = False\<rparr>, demo_sold)"
  by (simp add: eval_simps demo_defs demo_created_def demo_sold_def demo_shop_def demo_sha_const [of "canonical_payment _"])

lemma demo_admission:
  "admission demo_sha (Some [MERCHANT]) (Some ''Bearer shop'') demo_shop
    = Inr \<lparr>au_api_key_id = ''a3'', au_role = MERCHANT, au_merchant_id = Some (demo_uid 6)\<rparr>"
  by (simp add: admission_def api_key_guard_def truthy_def BEARER_PREFIX_def validate_api_key_def hashApiKey_def demo_shop_def
      demo_shop_key_def demo_sha_const [of "''shop''"] roles_guard_def)

lemma demo_guard:
  "api_key_guard demo_sha (Some ''Bearer shop'') demo_shop
    = Inr \<lparr>au_api_key_id = ''a3'', au_role = MERCHANT, au_merchant_id = Some (demo_uid 6)\<rparr>"
  using demo_admission by (auto simp: admission_def andThen_eq_Inr)

text \<open>The sale: the request of the merchant reaches the service.\<close>

lemma demo_sale_run:
  "handle_request demo_platform (demo_occasion takes) (demo_request (Create_Payment ''body'')) demo_shop
    = after_creation demo_platform (demo_occasion takes) ''/v1'' (map_body Transaction_Body
        (creation_response \<lparr>ir_transaction = demo_row ''t1'' ''TXN-20260922-010101'' ''k1'' 1000 INITIATED 0 1 1000, ir_replayed = False\<rparr>), demo_sold)"
proof -
  have "requireIdempotencyKey (Some ''k1'') = Inr ''k1''" by (simp add: requireIdempotencyKey_def)
  then have "handle_endpoint demo_platform (demo_occasion takes) (demo_request (Create_Payment ''body'')) demo_shop
    = after_creation demo_platform (demo_occasion takes) ''/v1'' (to_answer demo_platform ''/v1'' (\<lambda>r. map_body Transaction_Body (creation_response r))
        (create_payment_for demo_sha (config_number demo_server_env) (demo_inputs ''t1'' 1 1000) demo_payment ''k1'' (Some (demo_uid 6)) demo_shop))"
    using run_creation [of "demo_request (Create_Payment ''body'')" "''body''" demo_platform demo_payment "''k1''" demo_shop] demo_admission
    by (simp add: demo_request_def demo_platform_def demo_pipe_def demo_occasion_def)
  then show ?thesis
    using run_sold by (simp add: handle_request_def demo_occasion_def create_payment_for_def to_answer_def)
qed

lemma demo_sale: "snd (handle_request demo_platform (demo_occasion takes) (demo_request (Create_Payment ''body'')) demo_shop) = demo_sold"
  by (simp add: demo_sale_run after_creation_db)

theorem requests_need_a_key_witness:
  "snd (handle_request demo_platform (demo_occasion True) (demo_request (Revoke_Key ''a3'')) demo_shop) = demo_shop"
proof -
  obtain resp jobs d' where run: "handle_request demo_platform (demo_occasion True) (demo_request (Revoke_Key ''a3'')) demo_shop = ((resp, jobs), d')"
    by (metis prod.collapse)
  have "rq_endpoint (demo_request (Revoke_Key ''a3'')) \<noteq> Health" by (simp add: demo_request_def)
  from requests_need_a_key [OF run this] run show ?thesis
    by (auto simp: demo_request_def demo_shop_def demo_shop_key_def)
qed

theorem merchant_key_confined_witness:
  "entries demo_sold = [] \<and> length (transactions demo_sold) = 1 \<and> api_keys demo_sold = [demo_shop_key]"
proof -
  obtain out where run: "handle_request demo_platform (demo_occasion True) (demo_request (Create_Payment ''body'')) demo_shop = (out, demo_sold)"
    using demo_sale [of True] by (metis prod.collapse)
  have "api_key_guard (pf_sha demo_platform) (rq_authorization (demo_request (Create_Payment ''body''))) demo_shop
      = Inr \<lparr>au_api_key_id = ''a3'', au_role = MERCHANT, au_merchant_id = Some (demo_uid 6)\<rparr>"
    using demo_guard by (simp add: demo_platform_def demo_request_def)
  moreover have "entries demo_shop = []" "transactions demo_shop = []" "api_keys demo_shop = [demo_shop_key]" "transactions demo_sold \<noteq> []"
    by (simp_all add: demo_shop_def demo_start_def initial_db_def demo_sold_def demo_created_def demo_db_def)
  ultimately show ?thesis using merchant_key_confined [OF run] by fastforce
qed

theorem failed_requests_change_nothing_witness:
  "snd (handle_request demo_platform (demo_occasion True) (demo_request Read_Stats) demo_shop) = demo_shop"
proof -
  obtain resp jobs d' where run: "handle_request demo_platform (demo_occasion True) (demo_request Read_Stats) demo_shop = ((resp, jobs), d')"
    by (metis prod.collapse)
  have "400 \<le> rp_status resp \<or> only_reads (rq_endpoint (demo_request Read_Stats))" by (simp add: demo_request_def)
  from failed_requests_change_nothing [OF run this] run show ?thesis
    by (auto simp: demo_request_def demo_occasion_def)
qed

theorem queue_failure_strands_witness:
  "\<exists>resp jobs. handle_request demo_platform (demo_occasion False) (demo_request (Create_Payment ''body'')) demo_shop = ((resp, jobs), demo_sold)
    \<and> rp_status resp = 500 \<and> jobs = []"
proof -
  let ?rq = "demo_request (Create_Payment ''body'')"
  obtain resp jobs where run: "handle_request demo_platform (demo_occasion False) ?rq demo_shop = ((resp, jobs), demo_sold)"
    using demo_sale [of False] by (metis prod.collapse)
  obtain resp' jobs' d3 where retry: "handle_request demo_platform (demo_occasion True) ?rq demo_sold = ((resp', jobs'), d3)"
    by (metis prod.collapse)
  have "simulator_loaded (pf_env demo_platform)" "rq_endpoint ?rq = Create_Payment ''body''"
    "\<And>job. \<not> oc_queue_takes (demo_occasion False) job" "CODE_IN_MESSAGE (oc_queue_error (demo_occasion False)) = None"
    using first_code_skip [of "''connection refused''" "[]"]
    by (simp_all add: simulator_loaded_def demo_platform_def demo_server_env_def demo_request_def demo_occasion_def)
  moreover have "demo_sold \<noteq> demo_shop"
    by (simp add: demo_shop_def demo_start_def initial_db_def demo_sold_def demo_created_def demo_db_def)
  ultimately show ?thesis
    using queue_failure_strands [OF inj_demo_uid reach_shop _ _ _ _ run _ rtranclp.rtrancl_refl retry] run by blast
qed

end
