(* ===== verification/World.thy ===== *)
theory World
  imports Front Sweep
begin

text \<open>
  The running system: one database, the HTTP front, the cron of the expiration module, the queue and the
  worker of the simulated operator, and other processes (the scripts) that call the services. A job of the
  worker reads the transaction in one step and tries its transition in a later one, so requests,
  batches of the sweep and other jobs come in between.
\<close>

section \<open>The state and its steps\<close>

text \<open>
  A job waits with the time it is due; a running job has read the transaction in the state it holds. BullMQ
  keeps the jobs that ended.
\<close>

record world =
  w_db :: db
  w_queue :: "(callback_job \<times> timestamp) list"
  w_running :: "(callback_job \<times> db) list"
  w_ended :: "callback_job list"
  w_clock :: timestamp

definition enqueued :: "timestamp \<Rightarrow> (callback_job \<times> int) list \<Rightarrow> (callback_job \<times> timestamp) list" where
  "enqueued now jobs = map (\<lambda>(job, delay). (job, now + delay)) jobs"

definition is_draw :: "rat \<Rightarrow> bool" where
  "is_draw r \<longleftrightarrow> 0 \<le> r \<and> r < 1"

inductive world_step :: "platform \<Rightarrow> world \<Rightarrow> world \<Rightarrow> bool" for pf where
  time_passes: "w_clock w \<le> t \<Longrightarrow> world_step pf w (w\<lparr>w_clock := t\<rparr>)"
| request_comes:
    "handle_request pf oc rq (w_db w) = ((resp, jobs), d') \<Longrightarrow> in_clock (oc_inputs oc) = w_clock w
      \<Longrightarrow> is_draw (fst (oc_draws oc)) \<Longrightarrow> is_draw (snd (oc_draws oc))
      \<Longrightarrow> world_step pf w (w\<lparr>w_db := d', w_queue := w_queue w @ enqueued (w_clock w) jobs\<rparr>)"
| batch_runs:
    "cron_loaded (pf_env pf)
      \<Longrightarrow> world_step pf w (w\<lparr>w_db := snd (expire_one_batch (w_clock w) db_now locked (w_db w))\<rparr>)"
| job_starts:
    "simulator_loaded (pf_env pf) \<Longrightarrow> w_queue w = before @ (job, due) # after \<Longrightarrow> due \<le> w_clock w
      \<Longrightarrow> world_step pf w (w\<lparr>w_queue := before @ after, w_running := (job, w_db w) # w_running w\<rparr>)"
| job_ends:
    "w_running w = before @ (job, seen) # after
      \<Longrightarrow> process_job (config_number (pf_env pf)) draw eid xid db_now job seen (w_db w) = (out, d')
      \<Longrightarrow> world_step pf w (w\<lparr>w_db := d', w_running := before @ after, w_ended := job # w_ended w\<rparr>)"
| other_process: "service_step (w_db w) d' \<Longrightarrow> world_step pf w (w\<lparr>w_db := d'\<rparr>)"

definition initial_world :: "(nat \<Rightarrow> uuid) \<Rightarrow> timestamp \<Rightarrow> world" where
  "initial_world uid now = \<lparr>w_db = initial_db uid now, w_queue = [], w_running = [], w_ended = [], w_clock = now\<rparr>"

inductive world_reachable :: "platform \<Rightarrow> (nat \<Rightarrow> uuid) \<Rightarrow> timestamp \<Rightarrow> world \<Rightarrow> bool" for pf uid now where
  world_initial: "world_reachable pf uid now (initial_world uid now)"
| world_later: "world_reachable pf uid now w \<Longrightarrow> world_step pf w w' \<Longrightarrow> world_reachable pf uid now w'"

section \<open>The database of the running system\<close>

lemma process_job_step:
  "snd (process_job config draw eid xid now job seen d) = d \<or> service_step d (snd (process_job config draw eid xid now job seen d))"
  by (cases "cj_name job")
    (auto simp: process_job_def transitionIfStillAt_def Let_def intro: step_transition split: sum.splits if_splits option.splits)

lemma world_step_db:
  assumes "world_step pf w w'"
  shows "w_db w' = w_db w \<or> service_step (w_db w) (w_db w')"
  using assms
proof cases
  case (request_comes oc rq resp jobs d')
  then show ?thesis using request_is_step [of pf oc rq "w_db w"] by simp
next
  case (job_ends before job seen after draw eid xid db_now out d')
  then show ?thesis using process_job_step [of "config_number (pf_env pf)" draw eid xid db_now job seen "w_db w"] by simp
qed (auto intro: step_expire)


section \<open>The jobs a request adds\<close>

lemma add_jobs_added: "add_jobs takes jobs = (all_taken, added) \<Longrightarrow> \<exists>rest. jobs = added @ rest"
  by (induction jobs arbitrary: all_taken added) (auto split: if_splits prod.splits)

lemma after_creation_jobs:
  assumes "after_creation pf oc url (resp0, d0) = ((resp, jobs), d')" "jobs \<noteq> []"
  obtains t rest where "simulator_loaded (pf_env pf)" "rp_status resp0 = 201" "rp_body resp0 = Transaction_Body t"
    "scheduleCallbacks (fst (oc_draws oc)) (snd (oc_draws oc)) (tr_reference t) = jobs @ rest" "d' = d0"
  using assms by (auto simp: after_creation_def dest!: add_jobs_added split: api_body.splits if_splits prod.splits)

text \<open>Jobs are only added for a row the request has just created.\<close>

definition jobs_of_creation :: "platform \<Rightarrow> occasion \<Rightarrow> (callback_job \<times> int) list \<Rightarrow> db \<Rightarrow> db \<Rightarrow> bool" where
  "jobs_of_creation pf oc jobs d d' \<longleftrightarrow>
    (\<exists>row rest p. adds_row row d d' \<and> t_reference row \<notin> t_reference ` set (transactions d) \<and> simulator_loaded (pf_env pf)
      \<and> scheduleCallbacks (fst (oc_draws oc)) (snd (oc_draws oc)) (t_reference row) = jobs @ rest
      \<and> t_expires_at row = Some (computeExpiresAt (in_clock (oc_inputs oc)) (resolveExpiryMinutes (config_number (pf_env pf)) p)))"

lemma creation_jobs:
  assumes "after_creation pf oc url (to_answer pf url (\<lambda>r. map_body Transaction_Body (creation_response r)) (out, d1)) = ((resp, jobs), d')"
    "jobs \<noteq> []"
    "\<And>r. out = Inr r \<Longrightarrow> \<not> ir_replayed r \<Longrightarrow> adds_row (ir_transaction r) d d1 \<and> t_reference (ir_transaction r) \<notin> t_reference ` set (transactions d)
      \<and> (\<exists>p. t_expires_at (ir_transaction r) = Some (computeExpiresAt (in_clock (oc_inputs oc)) (resolveExpiryMinutes (config_number (pf_env pf)) p)))"
  shows "jobs_of_creation pf oc jobs d d'"
proof (cases out)
  case (Inl e)
  then show ?thesis
    using assms(1,2) by (auto simp: to_answer_def after_creation_def)
next
  case (Inr r)
  have "after_creation pf oc url (map_body Transaction_Body (creation_response r), d1) = ((resp, jobs), d')"
    using assms(1) Inr by (simp add: to_answer_def)
  from this assms(2) show ?thesis
  proof (rule after_creation_jobs)
    fix t rest
    assume "simulator_loaded (pf_env pf)" "rp_status (map_body Transaction_Body (creation_response r)) = 201"
      "rp_body (map_body Transaction_Body (creation_response r)) = Transaction_Body t" "d' = d1"
      "scheduleCallbacks (fst (oc_draws oc)) (snd (oc_draws oc)) (tr_reference t) = jobs @ rest"
    then show ?thesis
      using assms(3) [OF Inr] unfolding jobs_of_creation_def
      by (fastforce simp: map_body_def creation_response_def toTransactionResponse_def split: if_splits)
  qed
qed

lemma run_refund_creation:
  assumes "rq_endpoint rq = Create_Refund reference body" "pf_refund pf body = Inr dto"
    "requireIdempotencyKey (rq_idempotency_key rq) = Inr key"
    "admission (pf_sha pf) (Some [MERCHANT]) (rq_authorization rq) d = Inr auth"
  shows "handle_endpoint pf oc rq d = after_creation pf oc (rq_url rq)
    (to_answer pf (rq_url rq) (\<lambda>r. map_body Transaction_Body (creation_response r))
      (create_refund_for (pf_sha pf) (config_number (pf_env pf)) (oc_inputs oc) reference dto key (au_merchant_id auth) d))"
  using assms
  by (simp add: handle_endpoint_def Let_def piped_def post_refund_def required_roles_def PAYMENTS_ROLES_def guarded_admission
      to_answer_def split: prod.splits sum.splits)


lemma payment_jobs:
  assumes "handle_endpoint pf oc rq d = ((resp, jobs), d')" "jobs \<noteq> []" "rq_endpoint rq = Create_Payment body"
    "admission (pf_sha pf) (Some [MERCHANT]) (rq_authorization rq) d = Inr auth"
  shows "jobs_of_creation pf oc jobs d d'"
proof -
  obtain dto key where dto: "pf_payment pf body = Inr dto" "requireIdempotencyKey (rq_idempotency_key rq) = Inr key"
    using assms
    by (cases "pf_payment pf body"; cases "requireIdempotencyKey (rq_idempotency_key rq)") (auto simp: endpoint_defs)
  obtain out d1 where made:
    "create_payment_for (pf_sha pf) (config_number (pf_env pf)) (oc_inputs oc) dto key (au_merchant_id auth) d = (out, d1)" by fastforce
  show ?thesis
  proof (rule creation_jobs [OF assms(1) [unfolded run_creation [OF assms(3) dto assms(4)] made] assms(2)])
    fix r assume r: "out = Inr r" "\<not> ir_replayed r"
    then obtain m where "create_payment (pf_sha pf) (config_number (pf_env pf)) (oc_inputs oc) dto key m d = (Inr r, d1)"
      using made by (cases "au_merchant_id auth")
        (auto simp: create_payment_for_def createTransactionIdempotently_def withActor_def sql_transaction_run split: option.splits if_splits)
    from payment_created_row [OF this r(2)]
    show "adds_row (ir_transaction r) d d1 \<and> t_reference (ir_transaction r) \<notin> t_reference ` set (transactions d)
      \<and> (\<exists>p. t_expires_at (ir_transaction r) = Some (computeExpiresAt (in_clock (oc_inputs oc)) (resolveExpiryMinutes (config_number (pf_env pf)) p)))"
      by blast
  qed
qed

lemma refund_jobs:
  assumes "handle_endpoint pf oc rq d = ((resp, jobs), d')" "jobs \<noteq> []" "rq_endpoint rq = Create_Refund reference body"
    "admission (pf_sha pf) (Some [MERCHANT]) (rq_authorization rq) d = Inr auth"
  shows "jobs_of_creation pf oc jobs d d'"
proof -
  obtain dto key where dto: "pf_refund pf body = Inr dto" "requireIdempotencyKey (rq_idempotency_key rq) = Inr key"
    using assms
    by (cases "pf_refund pf body"; cases "requireIdempotencyKey (rq_idempotency_key rq)") (auto simp: endpoint_defs)
  obtain out d1 where made:
    "create_refund_for (pf_sha pf) (config_number (pf_env pf)) (oc_inputs oc) reference dto key (au_merchant_id auth) d = (out, d1)" by fastforce
  show ?thesis
  proof (rule creation_jobs [OF assms(1) [unfolded run_refund_creation [OF assms(3) dto assms(4)] made] assms(2)])
    fix r assume r: "out = Inr r" "\<not> ir_replayed r"
    then obtain m where "create_refund (pf_sha pf) (config_number (pf_env pf)) (oc_inputs oc) reference dto key m d = (Inr r, d1)"
      using made by (cases "au_merchant_id auth") (auto simp: create_refund_for_def)
    from refund_created_row [OF this r(2)]
    show "adds_row (ir_transaction r) d d1 \<and> t_reference (ir_transaction r) \<notin> t_reference ` set (transactions d)
      \<and> (\<exists>p. t_expires_at (ir_transaction r) = Some (computeExpiresAt (in_clock (oc_inputs oc)) (resolveExpiryMinutes (config_number (pf_env pf)) p)))"
      by blast
  qed
qed

lemma request_jobs:
  assumes "handle_request pf oc rq d = ((resp, jobs), d')" "jobs \<noteq> []"
  shows "jobs_of_creation pf oc jobs d d'"
proof -
  have run: "handle_endpoint pf oc rq d = ((resp, jobs), d')"
    using assms by (auto simp: handle_request_def split: if_splits)
  have creates: "(\<exists>body. rq_endpoint rq = Create_Payment body) \<or> (\<exists>reference body. rq_endpoint rq = Create_Refund reference body)"
    using run assms(2) by (cases "rq_endpoint rq") (auto simp: handle_endpoint_def Let_def no_jobs_def split: prod.splits sum.splits)
  then have "rq_endpoint rq \<noteq> Health" "allowed_roles (rq_endpoint rq) = [MERCHANT]" by auto
  then obtain auth where "admission (pf_sha pf) (Some [MERCHANT]) (rq_authorization rq) d = Inr auth"
    using not_admitted [of rq pf d _ oc] run assms(2)
    by (cases "admission (pf_sha pf) (Some [MERCHANT]) (rq_authorization rq) d") auto
  then show ?thesis using creates payment_jobs [OF run assms(2)] refund_jobs [OF run assms(2)] by blast
qed


section \<open>What holds of the running system\<close>

definition all_jobs :: "world \<Rightarrow> callback_job list" where
  "all_jobs w = map fst (w_queue w) @ map fst (w_running w) @ w_ended w"

definition references :: "db \<Rightarrow> string set" where
  "references d = t_reference ` set (transactions d)"

definition world_ok :: "(nat \<Rightarrow> uuid) \<Rightarrow> timestamp \<Rightarrow> world \<Rightarrow> bool" where
  "world_ok uid now w \<longleftrightarrow> reachable uid now (w_db w) \<and> distinct (all_jobs w)
     \<and> cj_reference ` set (all_jobs w) \<subseteq> references (w_db w)
     \<and> (\<forall>(job, seen) \<in> set (w_running w). reachable uid now seen \<and> rtranclp service_step seen (w_db w) \<and> cj_reference job \<in> references seen)"

lemma references_grow:
  assumes "service_step d d'" "reachable uid now d" "inj uid"
  shows "references d \<subseteq> references d'"
proof
  fix r assume "r \<in> references d"
  then obtain t where t: "t \<in> set (transactions d)" "t_reference t = r" by (auto simp: references_def)
  obtain t' where "t' \<in> set (transactions d')" "row_evolves t t'"
    using row_later [OF r_into_rtranclp [of service_step, OF assms(1)] reachable_system_ok [OF assms(2,3)] t(1)] .
  moreover from this have "t_reference t' = r" using t(2) by (simp add: row_evolves_def frozen_columns_kept_def)
  ultimately show "r \<in> references d'" unfolding references_def by blast
qed

lemma world_okI:
  assumes "reachable uid now (w_db w)" "distinct (all_jobs w)" "cj_reference ` set (all_jobs w) \<subseteq> references (w_db w)"
    "\<And>job seen. (job, seen) \<in> set (w_running w)
      \<Longrightarrow> reachable uid now seen \<and> rtranclp service_step seen (w_db w) \<and> cj_reference job \<in> references seen"
  shows "world_ok uid now w"
  using assms unfolding world_ok_def by blast

lemma world_okD:
  assumes "world_ok uid now w"
  shows "reachable uid now (w_db w)" "distinct (all_jobs w)" "job \<in> set (all_jobs w) \<Longrightarrow> cj_reference job \<in> references (w_db w)"
    "(job, seen) \<in> set (w_running w)
      \<Longrightarrow> reachable uid now seen \<and> rtranclp service_step seen (w_db w) \<and> cj_reference job \<in> references seen"
  using assms unfolding world_ok_def by blast+

lemma world_ok_db:
  assumes "world_ok uid now w" "d' = w_db w \<or> service_step (w_db w) d'" "inj uid"
  shows "world_ok uid now (w\<lparr>w_db := d'\<rparr>)"
  using assms(2)
proof
  assume "d' = w_db w"
  then show ?thesis using assms(1) by simp
next
  assume step: "service_step (w_db w) d'"
  note ok = world_okD [OF assms(1)]
  have grow: "references (w_db w) \<subseteq> references d'" by (rule references_grow [OF step ok(1) assms(3)])
  have same: "all_jobs (w\<lparr>w_db := d'\<rparr>) = all_jobs w" by (simp add: all_jobs_def)
  show ?thesis
  proof (rule world_okI, unfold same)
    show "reachable uid now (w_db (w\<lparr>w_db := d'\<rparr>))" using reach_step [OF ok(1) step] by simp
    show "distinct (all_jobs w)" by (rule ok(2))
    show "cj_reference ` set (all_jobs w) \<subseteq> references (w_db (w\<lparr>w_db := d'\<rparr>))" using ok(3) grow by auto
    fix job seen assume "(job, seen) \<in> set (w_running (w\<lparr>w_db := d'\<rparr>))"
    then show "reachable uid now seen \<and> rtranclp service_step seen (w_db (w\<lparr>w_db := d'\<rparr>)) \<and> cj_reference job \<in> references seen"
      using ok(4) [of job seen] step by (auto intro: rtranclp.rtrancl_into_rtrancl)
  qed
qed

text \<open>A job that moves from one list to the next.\<close>

lemma world_ok_moved:
  assumes "world_ok uid now w" "w_db w' = w_db w" "mset (all_jobs w') = mset (all_jobs w)"
    "\<And>job seen. (job, seen) \<in> set (w_running w') \<Longrightarrow> (job, seen) \<in> set (w_running w) \<or> (seen = w_db w \<and> job \<in> set (all_jobs w))"
  shows "world_ok uid now w'"
proof (rule world_okI, unfold assms(2) mset_eq_setD [OF assms(3)])
  note ok = world_okD [OF assms(1)]
  show "reachable uid now (w_db w)" by (rule ok(1))
  show "distinct (all_jobs w')" using ok(2) mset_eq_imp_distinct_iff [OF assms(3)] by simp
  show "cj_reference ` set (all_jobs w) \<subseteq> references (w_db w)" using ok(3) by blast
  fix job seen assume "(job, seen) \<in> set (w_running w')"
  from assms(4) [OF this]
  show "reachable uid now seen \<and> rtranclp service_step seen (w_db w) \<and> cj_reference job \<in> references seen"
    using ok(1,3,4) by blast
qed

lemma world_ok_new_jobs:
  assumes "world_ok uid now w" "jobs_of_creation pf oc jobs (w_db w) d'" "service_step (w_db w) d'" "inj uid"
  shows "world_ok uid now (w\<lparr>w_db := d', w_queue := w_queue w @ enqueued clock jobs\<rparr>)"
proof -
  obtain row rest where row: "adds_row row (w_db w) d'" "t_reference row \<notin> references (w_db w)"
    "scheduleCallbacks (fst (oc_draws oc)) (snd (oc_draws oc)) (t_reference row) = jobs @ rest"
    using assms(2) unfolding jobs_of_creation_def references_def by blast
  let ?new = "map fst jobs" and ?v = "w\<lparr>w_db := d'\<rparr>"
  let ?w = "w\<lparr>w_db := d', w_queue := w_queue w @ enqueued clock jobs\<rparr>"
  have fsts: "map fst (enqueued clock jobs) = ?new" by (simp add: enqueued_def comp_def case_prod_beta)
  then have jobs: "mset (all_jobs ?w) = mset (?new @ all_jobs w)" "set (all_jobs ?w) = set ?new \<union> set (all_jobs w)"
    by (auto simp: all_jobs_def)
  have "distinct (map fst (jobs @ rest))" by (simp add: row(3) [symmetric] scheduleCallbacks_def Let_def)
  then have new: "distinct ?new" by simp
  have refs: "cj_reference job = t_reference row" if "job \<in> set ?new" for job
    using that scheduled_references [of _ "fst (oc_draws oc)" "snd (oc_draws oc)" "t_reference row"] row(3) by auto
  note ok = world_okD [OF world_ok_db [OF assms(1) disjI2 [OF assms(3)] assms(4)]]
  have same: "all_jobs ?v = all_jobs w" by (simp add: all_jobs_def)
  have "set ?new \<inter> set (all_jobs w) = {}"
    unfolding disjoint_iff using refs row(2) world_okD(3) [OF assms(1)] by metis
  then have "distinct (?new @ all_jobs w)" using new world_okD(2) [OF assms(1)] by simp
  then have distinct_jobs: "distinct (all_jobs ?w)" using mset_eq_imp_distinct_iff [OF jobs(1)] by simp
  have known: "t_reference row \<in> references d'" using row(1) by (auto simp: adds_row_def references_def)
  show ?thesis
  proof (rule world_okI [OF _ distinct_jobs], unfold jobs(2))
    show "reachable uid now (w_db ?w)" using ok(1) by simp
    have "cj_reference job \<in> references d'" if "job \<in> set ?new \<union> set (all_jobs w)" for job
      using that ok(3) [of job] refs [of job] known by (auto simp: same simp del: set_map)
    then show "cj_reference ` (set ?new \<union> set (all_jobs w)) \<subseteq> references (w_db ?w)" by (simp add: image_subset_iff del: set_map)
    fix job seen assume "(job, seen) \<in> set (w_running ?w)"
    then show "reachable uid now seen \<and> rtranclp service_step seen (w_db ?w) \<and> cj_reference job \<in> references seen"
      using ok(4) [of job seen] by simp
  qed
qed

lemma world_ok_step:
  assumes "world_step pf w w'" "world_ok uid now w" "inj uid"
  shows "world_ok uid now w'"
  using assms(1)
proof cases
  case (time_passes t)
  then show ?thesis using assms(2) by (simp add: world_ok_def all_jobs_def)
next
  case (request_comes oc rq resp jobs d')
  have step: "d' = w_db w \<or> service_step (w_db w) d'" using request_is_step [of pf oc rq "w_db w"] request_comes(2) by simp
  show ?thesis
  proof (cases "jobs = []")
    case True
    then show ?thesis using request_comes(1) world_ok_db [OF assms(2) step assms(3)] by (simp add: enqueued_def)
  next
    case False
    note made = request_jobs [OF request_comes(2) False]
    then have "d' \<noteq> w_db w" by (auto simp: jobs_of_creation_def adds_row_def dest: arg_cong [of _ _ transactions])
    then show ?thesis using world_ok_new_jobs [OF assms(2) made _ assms(3)] step request_comes(1) by blast
  qed
next
  case (batch_runs db_now locked)
  then show ?thesis using world_ok_db [OF assms(2) _ assms(3)] step_expire by blast
next
  case (job_starts before job due after)
  show ?thesis
    by (rule world_ok_moved [OF assms(2)]) (use job_starts in \<open>auto simp: all_jobs_def\<close>)
next
  case (job_ends before job seen after draw eid xid db_now out d')
  have step: "d' = w_db w \<or> service_step (w_db w) d'"
    using process_job_step [of "config_number (pf_env pf)" draw eid xid db_now job seen "w_db w"] job_ends(3) by simp
  show ?thesis
    by (rule world_ok_moved [OF world_ok_db [OF assms(2) step assms(3)]]) (use job_ends in \<open>auto simp: all_jobs_def\<close>)
next
  case (other_process d')
  then show ?thesis using world_ok_db [OF assms(2) _ assms(3)] by blast
qed

lemma world_reachable_ok: "world_reachable pf uid now w \<Longrightarrow> inj uid \<Longrightarrow> world_ok uid now w"
proof (induction rule: world_reachable.induct)
  case world_initial
  then show ?case by (simp add: world_ok_def initial_world_def all_jobs_def reach_initial)
next
  case (world_later w w')
  then show ?case using world_ok_step by blast
qed


text \<open>A day of the demonstration: the merchant sells, the simulated operator starts to acknowledge.\<close>

lemma demo_sale_jobs:
  "\<exists>resp. handle_request demo_platform (demo_occasion True) (demo_request (Create_Payment ''body'')) demo_shop
    = ((resp, scheduleCallbacks 0 0 ''TXN-20260922-010101''), demo_sold)"
  unfolding demo_sale_run
  by (simp add: demo_occasion_def after_creation_def map_body_def creation_response_def toTransactionResponse_def
      simulator_loaded_def demo_platform_def demo_server_env_def scheduleCallbacks_def Let_def demo_row_def)

definition demo_acknowledge :: callback_job where
  "demo_acknowledge = \<lparr>cj_name = Acknowledge, cj_reference = ''TXN-20260922-010101''\<rparr>"

definition demo_settle :: callback_job where
  "demo_settle = \<lparr>cj_name = Settle, cj_reference = ''TXN-20260922-010101''\<rparr>"

definition demo_world :: world where
  "demo_world = \<lparr>w_db = demo_sold, w_queue = [(demo_settle, 4000)], w_running = [(demo_acknowledge, demo_sold)], w_ended = [], w_clock = 2000\<rparr>"

lemma world_demo: "world_reachable demo_platform demo_uid 0 demo_world"
proof -
  note later = world_reachable.world_later
  let ?w = "\<lambda>d q r c. \<lparr>w_db = d, w_queue = q, w_running = r, w_ended = [], w_clock = c\<rparr>"
  have "world_reachable demo_platform demo_uid 0 (?w demo_start [] [] 0)"
    using world_initial by (simp add: initial_world_def demo_start_def)
  moreover have "world_step demo_platform (?w demo_start [] [] 0) (?w demo_shop [] [] 0)"
    using other_process [of "?w demo_start [] [] 0" demo_shop] step_api_key run_shop by (metis select_convs(1) snd_conv update_convs(1))
  moreover have "world_step demo_platform (?w demo_shop [] [] 0) (?w demo_shop [] [] 1000)"
    using time_passes [of "?w demo_shop [] [] 0" 1000] by simp
  moreover have "world_step demo_platform (?w demo_shop [] [] 1000) (?w demo_sold [(demo_acknowledge, 2000), (demo_settle, 4000)] [] 1000)"
  proof -
    obtain resp where "handle_request demo_platform (demo_occasion True) (demo_request (Create_Payment ''body'')) demo_shop
      = ((resp, scheduleCallbacks 0 0 ''TXN-20260922-010101''), demo_sold)" using demo_sale_jobs by blast
    from request_comes [of demo_platform _ _ "?w demo_shop [] [] 1000", simplified, OF this] show ?thesis
      by (simp add: demo_occasion_def demo_inputs_def is_draw_def enqueued_def scheduleCallbacks_def Let_def randomDelayMs_def
          demo_acknowledge_def demo_settle_def)
  qed
  moreover have "world_step demo_platform (?w demo_sold [(demo_acknowledge, 2000), (demo_settle, 4000)] [] 1000)
      (?w demo_sold [(demo_acknowledge, 2000), (demo_settle, 4000)] [] 2000)"
    using time_passes [of "?w demo_sold [(demo_acknowledge, 2000), (demo_settle, 4000)] [] 1000" 2000] by simp
  moreover have "world_step demo_platform (?w demo_sold [(demo_acknowledge, 2000), (demo_settle, 4000)] [] 2000) demo_world"
    using job_starts [of demo_platform "?w demo_sold [(demo_acknowledge, 2000), (demo_settle, 4000)] [] 2000" "[]" demo_acknowledge 2000]
    by (simp add: simulator_loaded_def demo_platform_def demo_server_env_def demo_world_def)
  ultimately show ?thesis using later by meson
qed


section \<open>The running system is the services\<close>

text \<open>
  C2: Whatever the interleaving of requests, batches of the sweep, callbacks of the simulated operator, scripts and
  the clock, the database of the running system is a state of the service machine (so every property of
  reachable states holds of it), and what a running callback has read is an earlier state of it.
\<close>

theorem running_system_is_services:
  assumes "inj uid" "world_reachable pf uid now w"
  shows "reachable uid now (w_db w)
    \<and> (\<forall>(job, seen) \<in> set (w_running w). reachable uid now seen \<and> rtranclp service_step seen (w_db w))"
  using world_reachable_ok [OF assms(2,1)] unfolding world_ok_def by blast

theorem running_system_is_services_witness:
  "reachable demo_uid 0 (w_db demo_world) \<and> rtranclp service_step demo_sold (w_db demo_world)"
  using running_system_is_services [OF inj_demo_uid world_demo] by (simp add: demo_world_def)



section \<open>Callbacks come before the expiry\<close>











section \<open>No acknowledged payment stays open\<close>

lemma never_initiated_again: "rtranclp allowed a b \<Longrightarrow> a \<noteq> INITIATED \<Longrightarrow> b \<noteq> INITIATED"
  by (induction rule: rtranclp_induct) (auto simp: allowed_def status_transitions_def)






section \<open>A change to the same status\<close>

text \<open>
  C35: A PATCH to the status a transaction already has is accepted: the version grows and the history says nothing. An
  acknowledgment callback that read the row before then finds a newer version and ends without a word, so a
  payment that was INITIATED stays so: no other callback acknowledges it, and the sweep does not take it.
\<close>

theorem same_status_patch_strands:
  assumes "inj uid" "reachable uid n0 d" "lookup_by t_reference r (transactions d) = Some row" "t_status row = INITIATED"
    "t_version row < 2147483647" "ts_status dto = INITIATED"
    "transition eid xid now r dto (t_version row) d = (out, d1)"
    "process_job config draw eid' xid' now' \<lparr>cj_name = Acknowledge, cj_reference = r\<rparr> d d1 = (ended, d2)"
  shows "\<exists>row'. out = Inr row' \<and> t_version row' = t_version row + 1 \<and> history d1 = history d
    \<and> ended = Inr () \<and> lookup_by t_reference r (transactions d2) = Some row' \<and> t_status row' = INITIATED \<and> \<not> overdue later row'"
proof -
  let ?row' = "row\<lparr>t_version := t_version row + 1, t_updated_at := now\<rparr>"
  note parts = reachable_parts [OF assms(1,2)]
  have row: "lookup_by t_id (t_id row) (transactions d) = Some row" using row_by_id [OF parts(1) assms(3)] .
  have rows: "row \<in> set (transactions d)" "t_reference row = r" using lookup_by_SomeD [OF assms(3)] by simp_all
  then have "\<forall>c \<in> set (transaction_checks row). snd c" "\<forall>c \<in> set (transaction_ranges row). snd c"
    using parts(2) reachable_ranges [OF assms(2)] by (simp_all add: rows_ok_def ranges_ok_def)
  from status_update_succeeds [OF row assms(5) this, of "t_status row"]
  have "update_transaction s (t_id row) (\<lambda>t. t\<lparr>t_status := t_status row\<rparr>) d
    = Inr (row\<lparr>t_version := t_version row + 1, t_updated_at := s_now s\<rparr>,
        d\<lparr>transactions := replace_by t_id (t_id row) (row\<lparr>t_version := t_version row + 1, t_updated_at := s_now s\<rparr>) (transactions d)\<rparr>)" for s
    by simp
  note upd = this [unfolded assms(4)]
  have "deferred d = []" using parts(5) by (simp add: ledger_ok_def)
  then have patched: "out = Inr ?row'"
    "d1 = d\<lparr>transactions := replace_by t_id (t_id row) ?row' (transactions d), next_tx_id := Suc (next_tx_id d), deferred := []\<rparr>"
    using assms(3,4,6,7) upd
    by (simp_all add: transition_def withActor_def sql_transaction_run transition_body_def deferred_checks_def)
  have "keys_ok d1" using reachable_parts(1) [OF assms(1) reach_transition [OF assms(7,2)]] .
  moreover have "?row' \<in> set (transactions d1)" using patched(2) rows(1) by (force simp: replace_by_def)
  ultimately have found: "lookup_by t_reference r (transactions d1) = Some ?row'"
    using lookup_by_distinct [OF keys_okD(2), of d1 ?row'] rows(2) by simp
  have "ended = Inr ()" "d2 = d1"
    using assms(3,4,8) found
    by (auto simp: process_job_def transitionIfStillAt_def findByReferenceOrThrow_def transition_def withActor_def sql_transaction_run transition_body_def)
  then show ?thesis using patched found assms(4) by (intro exI [of _ ?row']) (simp add: overdue_def)
qed

theorem same_status_patch_strands_witness:
  "\<exists>row'. lookup_by t_reference ''TXN-20260922-010101'' (transactions (snd (process_job (\<lambda>k. None) 0 ''e2'' ''x2'' 3000 demo_acknowledge demo_created
      (snd (transition ''e1'' ''x1'' 2000 ''TXN-20260922-010101'' (demo_to INITIATED) 1 demo_created))))) = Some row'
    \<and> t_status row' = INITIATED \<and> t_version row' = 2"
proof -
  let ?r = "''TXN-20260922-010101''" and ?row = "demo_row ''t1'' ''TXN-20260922-010101'' ''k1'' 1000 INITIATED 0 1 1000"
  obtain out d1 where patch: "transition ''e1'' ''x1'' 2000 ?r (demo_to INITIATED) 1 demo_created = (out, d1)" by fastforce
  obtain ended d2 where job: "process_job (\<lambda>k. None) 0 ''e2'' ''x2'' 3000 \<lparr>cj_name = Acknowledge, cj_reference = ?r\<rparr> demo_created d1 = (ended, d2)"
    by fastforce
  have row: "lookup_by t_reference ?r (transactions demo_created) = Some ?row" "t_status ?row = INITIATED" "t_version ?row < 2147483647"
    by (simp_all add: demo_created_def demo_db_def demo_row_def lookup_by_def)
  have version: "t_version ?row = 1" "ts_status (demo_to INITIATED) = INITIATED" by (simp_all add: demo_row_def demo_to_def)
  show ?thesis
    using same_status_patch_strands [OF inj_demo_uid reach_demo_created row version(2) _ job, of "''e1''" "''x1''" 2000 out 0] patch job version(1)
    by (auto simp: demo_acknowledge_def)
qed

section \<open>A callback delivered again\<close>

text \<open>A queue delivers at least once: a worker that stalls has its job taken again by another one.\<close>

lemma never_pending_again: "rtranclp allowed a b \<Longrightarrow> a \<noteq> INITIATED \<Longrightarrow> a \<noteq> PENDING \<Longrightarrow> b \<noteq> PENDING"
proof -
  have "rtranclp allowed a b \<Longrightarrow> a \<noteq> INITIATED \<and> a \<noteq> PENDING \<Longrightarrow> b \<noteq> INITIATED \<and> b \<noteq> PENDING"
    by (induction rule: rtranclp_induct) (auto simp: allowed_def status_transitions_def)
  then show "rtranclp allowed a b \<Longrightarrow> a \<noteq> INITIATED \<Longrightarrow> a \<noteq> PENDING \<Longrightarrow> b \<noteq> PENDING" by blast
qed

text \<open>A status change leaves the row at the new status, or past it.\<close>

lemma transition_reaches:
  assumes "keys_ok d" "transition eid xid now ref dto v d = (Inr t, d')"
  shows "\<exists>w \<in> set (transactions d'). t_reference w = ref \<and> rtranclp allowed (ts_status dto) (t_status w)"
  using assms(2)
proof (rule transition_Inr, goal_cases)
  case (1 row u d1 d2 d3)
  note change = status_change_row [OF assms(1) 1(1) 1(4)]
  have u: "u \<in> set (transactions d1)" "t_reference u = ref" "t_status u = ts_status dto"
    using change(1,2) lookup_by_in [OF 1(1)] lookup_by_key [OF 1(1)] by (force simp: replace_by_def)+
  have keys: "keys_ok d1" by (rule keys_ok_stmt [OF upd_transaction [OF 1(4)] assms(1)])
  have later: "rows_evolve d1 d2" "rows_evolve d2 d3"
    using 1(5,6)
    by (auto split: if_splits intro: evolution.evolution_refl evolution.stmts_evolve [OF bookPaymentSuccess_stmts]
        evolution.stmts_evolve [OF bookRefundSuccess_stmts] evolution.stmts_evolve [OF bookDisputeReversal_stmts])
  then have "evolves d1 d3" using keys unfolding rows_evolve_def by (blast intro: evolves_trans)
  then obtain w where "w \<in> set (transactions d3)" "row_evolves u w" using u(1) unfolding evolves_def by blast
  then show ?case using u(2,3) 1(8) by (intro bexI [of _ w]) (simp_all add: row_evolves_def frozen_columns_kept_def)
qed

text \<open>The status a callback has left is not the one it starts from, then or later.\<close>

lemma callback_leaves:
  assumes "inj uid" "reachable uid n0 seen" "rtranclp service_step seen d"
    "process_job config draw eid xid now job seen d = (out, d1)" "d1 \<noteq> d" "rtranclp service_step d1 d2"
    "lookup_by t_reference (cj_reference job) (transactions d2) = Some row2"
  shows "t_status row2 \<noteq> (if cj_name job = Acknowledge then INITIATED else PENDING)"
proof -
  let ?ref = "cj_reference job" and ?from = "if cj_name job = Acknowledge then INITIATED else PENDING"
  obtain row where row: "lookup_by t_reference ?ref (transactions seen) = Some row"
    "lookup_by t_reference ?ref (transactions d) = Some row" "t_status row = ?from"
    using simulator_never_forces [OF assms(1-5)] by blast
  obtain target where target: "transitionIfStillAt eid xid now ?ref ?from target seen d = (out, d1)" "?from = INITIATED \<longrightarrow> target = PENDING"
    "?from = PENDING \<longrightarrow> target \<in> {FAILED, SUCCEEDED}"
    using assms(4,5) by (cases "cj_name job") (auto simp: process_job_def Let_def)
  then obtain dto where dto: "d1 = snd (transition eid xid now ?ref dto (t_version row) d)" "ts_status dto = target"
    using row(1,3) by (auto simp: transitionIfStillAt_def findByReferenceOrThrow_def)
  have reach: "reachable uid n0 d" using assms(3,2) by (rule reachable_steps)
  obtain r where run: "transition eid xid now ?ref dto (t_version row) d = (r, d1)" using dto(1) by (metis prod.collapse)
  show ?thesis
  proof (cases r)
    case (Inl e)
    then show ?thesis using transition_Inl [OF run [unfolded Inl]] assms(5) row(2,3) by (auto split: if_splits)
  next
    case (Inr t)
    have ok: "system_ok d" "system_ok d1" "system_ok d2"
      using reachable_system_ok [OF reach assms(1)] steps_evolve assms(6)
        reachable_system_ok [OF reach_transition [OF run reach] assms(1)] by blast+
    obtain w1 where w1: "w1 \<in> set (transactions d1)" "t_reference w1 = ?ref" "rtranclp allowed target (t_status w1)"
      using transition_reaches [OF _ run [unfolded Inr]] ok(1) dto(2) by (auto simp: system_ok_def tables_ok_def)
    obtain w2 where w2: "w2 \<in> set (transactions d2)" "row_evolves w1 w2" using row_later [OF assms(6) ok(2) w1(1)] .
    have "distinct (map t_reference (transactions d2))" using ok(3) by (simp add: system_ok_def tables_ok_def keys_ok_def)
    then have "w2 = row2"
      using w2 w1(2) assms(7) lookup_by_distinct [of t_reference "transactions d2" w2]
      by (simp add: row_evolves_def frozen_columns_kept_def)
    then have "rtranclp allowed target (t_status row2)" using w1(3) w2(2) by (auto simp: row_evolves_def)
    note past = never_initiated_again [OF this] never_pending_again [OF this]
    show ?thesis
    proof (cases "cj_name job = Acknowledge")
      case True
      then show ?thesis using past(1) target(2) by simp
    next
      case False
      then have "target = FAILED \<or> target = SUCCEEDED" using target(3) by simp
      then show ?thesis using past(2) False by (elim disjE) simp_all
    qed
  qed
qed

text \<open>
  C23: A callback delivered twice acts once: when a job has changed the database, a second run of it, by a worker
  that took it again, that has read the transaction at any moment and with any draw, changes nothing, whatever
  happened in between.
\<close>

theorem redelivered_callback_harmless:
  assumes "inj uid" "reachable uid n0 seen" "rtranclp service_step seen d"
    "process_job config draw eid xid now job seen d = (out, d1)" "d1 \<noteq> d" "rtranclp service_step d1 d2"
    "reachable uid n0 again" "rtranclp service_step again d2"
    "process_job config' draw' eid' xid' now' job again d2 = (out', d3)"
  shows "d3 = d2"
  using simulator_never_forces [OF assms(1,7,8,9)] callback_leaves [OF assms(1-6)] by blast

theorem redelivered_callback_harmless_witness:
  "\<exists>d1. snd (process_job (\<lambda>k. None) 0 ''e2000'' ''x2000'' 2000 demo_acknowledge demo_created demo_created) = d1 \<and> d1 \<noteq> demo_created
    \<and> snd (process_job (\<lambda>k. None) 0 ''e2500'' ''x2500'' 2500 demo_acknowledge demo_created d1) = d1"
proof -
  let ?run = "process_job (\<lambda>k. None) 0 ''e2000'' ''x2000'' 2000 demo_acknowledge demo_created demo_created"
  obtain out d1 where run: "?run = (out, d1)" by fastforce
  have "transactions (snd ?run) = [demo_row ''t1'' ''TXN-20260922-010101'' ''k1'' 1000 PENDING 0 2 2000]"
    by (simp add: process_job_def transitionIfStillAt_def findByReferenceOrThrow_def eval_simps demo_defs demo_created_def demo_acknowledge_def)
  then have changed: "d1 \<noteq> demo_created" using run by (auto simp: demo_created_def demo_db_def demo_row_def)
  have step: "rtranclp service_step demo_created d1"
    using process_job_step [of "\<lambda>k. None" 0 "''e2000''" "''x2000''" 2000 demo_acknowledge demo_created demo_created] run by auto
  obtain out' d3 where again: "process_job (\<lambda>k. None) 0 ''e2500'' ''x2500'' 2500 demo_acknowledge demo_created d1 = (out', d3)" by fastforce
  have "d3 = d1"
    by (rule redelivered_callback_harmless [OF inj_demo_uid reach_demo_created rtranclp.rtrancl_refl run changed rtranclp.rtrancl_refl
          reach_demo_created step again])
  then show ?thesis using run changed again by simp
qed

end
