(* ===== verification/Defence.thy ===== *)
theory Defence
  imports Demo_Run
begin

text \<open>
  The database as the last line of defence (ADR 0003): what holds whatever program is connected with the role
  of the application. A program is any sequence of SQL transactions, each any list of statements; the role
  has the privileges of the migration least_privilege_app_role, and the triggers of the tables that are
  only appended to stand behind them.
\<close>

section \<open>Tables and privileges\<close>

datatype db_table =
    Entries_Table | Postings_Table | History_Table | Transitions_Table | Accounts_Table | Merchants_Table
  | Transactions_Table | Api_Keys_Table | Exceptions_Table | Loads_Table

fun table_name :: "db_table \<Rightarrow> string" where
  "table_name Entries_Table = ''journal_entries''"
| "table_name Postings_Table = ''ledger_postings''"
| "table_name History_Table = ''transaction_status_history''"
| "table_name Transitions_Table = ''transaction_status_transitions''"
| "table_name Accounts_Table = ''ledger_accounts''"
| "table_name Merchants_Table = ''merchants''"
| "table_name Transactions_Table = ''transactions''"
| "table_name Api_Keys_Table = ''api_keys''"
| "table_name Exceptions_Table = ''reconciliation_exceptions''"
| "table_name Loads_Table = ''demo_dataset_loads''"

datatype privilege = Select_Rows | Insert_Rows | Update_Rows | Delete_Rows | Truncate_Rows

fun privilege_name :: "privilege \<Rightarrow> string" where
  "privilege_name Select_Rows = ''SELECT''"
| "privilege_name Insert_Rows = ''INSERT''"
| "privilege_name Update_Rows = ''UPDATE''"
| "privilege_name Delete_Rows = ''DELETE''"
| "privilege_name Truncate_Rows = ''TRUNCATE''"

text \<open>The \<open>GRANT ... TO "ledger_app"\<close>; that of demo_dataset_loads is in the migration of that table.\<close>

fun app_grants :: "db_table \<Rightarrow> privilege list" where
  "app_grants Entries_Table = [Select_Rows, Insert_Rows]"
| "app_grants Postings_Table = [Select_Rows, Insert_Rows]"
| "app_grants History_Table = [Select_Rows, Insert_Rows]"
| "app_grants Transitions_Table = [Select_Rows]"
| "app_grants Accounts_Table = [Select_Rows, Insert_Rows]"
| "app_grants Merchants_Table = [Select_Rows, Insert_Rows]"
| "app_grants Transactions_Table = [Select_Rows, Insert_Rows, Update_Rows]"
| "app_grants Api_Keys_Table = [Select_Rows, Insert_Rows, Update_Rows]"
| "app_grants Exceptions_Table = [Select_Rows, Insert_Rows, Update_Rows]"
| "app_grants Loads_Table = [Select_Rows, Insert_Rows]"

definition require_privilege :: "privilege \<Rightarrow> db_table \<Rightarrow> app_error + unit" where
  "require_privilege p table = require (p \<in> set (app_grants table)) (Insufficient_Privilege (table_name table))"

text \<open>
  The triggers of \<open>fn_forbid_mutation\<close>: UPDATE, DELETE and TRUNCATE on the tables that are only appended to, DELETE
  and TRUNCATE on the others.
\<close>

definition forbids_mutation :: "privilege \<Rightarrow> db_table \<Rightarrow> bool" where
  "forbids_mutation p table \<longleftrightarrow>
     (if table \<in> {Entries_Table, Postings_Table, History_Table, Transitions_Table, Loads_Table}
      then p \<in> {Update_Rows, Delete_Rows, Truncate_Rows} else p \<in> {Delete_Rows, Truncate_Rows})"

definition fn_forbid_mutation :: "privilege \<Rightarrow> db_table \<Rightarrow> app_error" where
  "fn_forbid_mutation p table =
    Ledger_Error APPEND_ONLY (''Table \"'' @ table_name table @ ''\" en ajout seul : '' @ privilege_name p @ '' interdit'')"

section \<open>Statements\<close>

text \<open>
  \<open>Set_Actor\<close> is the call of \<open>set_config\<close> that withActor also makes. \<open>Mutate\<close> is an UPDATE, DELETE or TRUNCATE that
  meets a row; the UPDATE of transactions, keys and exceptions has statements of its own, and that of accounts and
  merchants is not granted, so what \<open>Mutate\<close> does when nothing refuses it is left empty.
\<close>

datatype statement =
    Set_Actor "actor option"
  | Insert_Transaction transaction
  | Update_Transaction uuid "transaction \<Rightarrow> transaction"
  | Insert_Account ledger_account
  | Insert_Entry uuid string "uuid option" "uuid option"
  | Insert_Posting ledger_posting
  | Insert_History status_history
  | Insert_Merchant merchant
  | Insert_Exception reconciliation_exception
  | Update_Exception uuid "reconciliation_exception \<Rightarrow> reconciliation_exception"
  | Insert_Api_Key api_key
  | Update_Api_Key uuid "api_key \<Rightarrow> api_key"
  | Insert_Load "timestamp option"
  | Mutate privilege db_table

text \<open>An INSERT into transaction_status_history that is not that of the trigger.\<close>

definition insert_history :: "status_history \<Rightarrow> db \<Rightarrow> app_error + db" where
  "insert_history h d =
    andThen (check_all
      [(Out_Of_Range ''actor_id'', (case h_actor_id h of None \<Rightarrow> True | Some s \<Rightarrow> length s \<le> 100)),
       (Out_Of_Range ''reason'', (case h_reason h of None \<Rightarrow> True | Some s \<Rightarrow> length s \<le> 500)),
       (Foreign_Key_Violation ''transaction_status_history_transaction_id_fkey'', h_transaction_id h \<in> t_id ` set (transactions d))])
      (\<lambda>_. Inr (d\<lparr>history := history d @ [h]\<rparr>))"

definition keep :: "session \<Rightarrow> app_error + db \<Rightarrow> app_error + (session \<times> db)" where
  "keep s r = andThen r (\<lambda>d. Inr (s, d))"

definition written :: "session \<Rightarrow> app_error + ('a \<times> db) \<Rightarrow> app_error + (session \<times> db)" where
  "written s r = andThen r (\<lambda>(_, d). Inr (s, d))"

text \<open>
  The privileges a statement needs, those of the statements of its triggers included: they run with the role that
  fires them (no SECURITY DEFINER). An UPDATE reads the row it changes. Foreign keys are checked by the owner.
\<close>

fun needs :: "statement \<Rightarrow> (privilege \<times> db_table) list" where
  "needs (Set_Actor a) = []"
| "needs (Insert_Transaction t) =
    [(Insert_Rows, Transactions_Table), (Select_Rows, Transactions_Table), (Insert_Rows, History_Table)]"
| "needs (Update_Transaction i f) =
    [(Select_Rows, Transactions_Table), (Update_Rows, Transactions_Table), (Select_Rows, Transitions_Table),
     (Insert_Rows, History_Table)]"
| "needs (Insert_Account a) = [(Insert_Rows, Accounts_Table)]"
| "needs (Insert_Entry i descr t r) = [(Insert_Rows, Entries_Table)]"
| "needs (Insert_Posting p) = [(Insert_Rows, Postings_Table), (Select_Rows, Accounts_Table), (Select_Rows, Entries_Table)]"
| "needs (Insert_History h) = [(Insert_Rows, History_Table)]"
| "needs (Insert_Merchant m) = [(Insert_Rows, Merchants_Table)]"
| "needs (Insert_Exception x) = [(Insert_Rows, Exceptions_Table)]"
| "needs (Update_Exception i f) = [(Select_Rows, Exceptions_Table), (Update_Rows, Exceptions_Table)]"
| "needs (Insert_Api_Key k) = [(Insert_Rows, Api_Keys_Table)]"
| "needs (Update_Api_Key i f) = [(Select_Rows, Api_Keys_Table), (Update_Rows, Api_Keys_Table)]"
| "needs (Insert_Load st) = [(Insert_Rows, Loads_Table)]"
| "needs (Mutate p table) = [(p, table)]"

fun execute :: "statement \<Rightarrow> session \<times> db \<Rightarrow> app_error + (session \<times> db)" where
  "execute (Set_Actor a) (s, d) = Inr (s\<lparr>s_actor := a\<rparr>, d)"
| "execute (Insert_Transaction t) (s, d) = written s (insert_transaction s t d)"
| "execute (Update_Transaction i f) (s, d) = written s (update_transaction s i f d)"
| "execute (Insert_Account a) (s, d) = written s (insert_account a d)"
| "execute (Insert_Entry i descr t r) (s, d) = written s (insert_entry s i descr t r d)"
| "execute (Insert_Posting p) (s, d) = keep s (insert_posting s p d)"
| "execute (Insert_History h) (s, d) = keep s (insert_history h d)"
| "execute (Insert_Merchant m) (s, d) = written s (insert_merchant m d)"
| "execute (Insert_Exception x) (s, d) = written s (insert_exception x d)"
| "execute (Update_Exception i f) (s, d) = written s (update_exception i f d)"
| "execute (Insert_Api_Key k) (s, d) = written s (insert_api_key k d)"
| "execute (Update_Api_Key i f) (s, d) = written s (update_api_key i f d)"
| "execute (Insert_Load st) (s, d) = written s (insert_load s st d)"
| "execute (Mutate p table) (s, d) = (if forbids_mutation p table then Inl (fn_forbid_mutation p table) else Inr (s, d))"

definition run_statement :: "statement \<Rightarrow> session \<times> db \<Rightarrow> app_error + (session \<times> db)" where
  "run_statement st sd =
    andThen (fold_result (\<lambda>(p, table) _. require_privilege p table) (needs st) ()) (\<lambda>_. execute st sd)"

text \<open>A SQL transaction of such a program: the first error rolls it back.\<close>

definition run_program :: "timestamp \<Rightarrow> statement list \<Rightarrow> db \<Rightarrow> (app_error + unit) \<times> db" where
  "run_program now program d =
    sql_transaction None now (\<lambda>s d. andThen (fold_result run_statement program (s, d)) (\<lambda>(_, d'). Inr ((), d'))) d"

inductive app_step :: "db \<Rightarrow> db \<Rightarrow> bool" where
  any_program: "app_step d (snd (run_program now program d))"


text \<open>A day of such programs, from the database the migrations leave.\<close>

definition any_use :: "(nat \<Rightarrow> uuid) \<Rightarrow> timestamp \<Rightarrow> db \<Rightarrow> bool" where
  "any_use uid now d \<longleftrightarrow> rtranclp app_step (initial_db uid now) d"

section \<open>What every statement keeps\<close>

definition intact :: "db \<Rightarrow> bool" where
  "intact d \<longleftrightarrow> keys_ok d \<and> rows_ok d \<and> refs_ok d"

lemma written_Inr: "written s r = Inr (s', d') \<longleftrightarrow> s' = s \<and> (\<exists>x. r = Inr (x, d'))"
  by (auto simp: written_def result_simps)

lemma keep_Inr: "keep s r = Inr (s', d') \<longleftrightarrow> s' = s \<and> r = Inr d'"
  by (auto simp: keep_def result_simps)

lemma execute_effect:
  assumes "execute st (s, d) = Inr (s', d')"
  shows "s_tx_id s' = s_tx_id s \<and> (d' = d \<or> stmt s d d'
    \<or> (\<exists>h. d' = d\<lparr>history := history d @ [h]\<rparr> \<and> h_transaction_id h \<in> t_id ` set (transactions d)))"
proof (cases st)
  case (Insert_History h)
  then have "insert_history h d = Inr d'" "s' = s" using assms by (simp_all add: keep_Inr)
  then show ?thesis by (auto simp: insert_history_def result_simps simp del: image_iff)
next
  case (Insert_Posting p)
  then have "insert_posting s p d = Inr d'" "s' = s" using assms by (simp_all add: keep_Inr)
  then show ?thesis using ins_posting by blast
next
  case (Mutate p table)
  then show ?thesis using assms by (simp split: if_splits)
qed (use assms in \<open>auto simp: written_Inr dest: stmt.intros\<close>)

lemma forged_line:
  assumes "d' = d\<lparr>history := history d @ [h]\<rparr>" "h_transaction_id h \<in> t_id ` set (transactions d)"
  shows "intact d \<Longrightarrow> intact d'" "evolves d d'" "pending_ledger s d0 d \<Longrightarrow> pending_ledger s d0 d'"
proof -
  show "intact d \<Longrightarrow> intact d'" using assms by (auto simp: intact_def keys_ok_def rows_ok_def refs_ok_def)
  show "evolves d d'" using evolves_refl [of d] assms(1) by (simp add: evolves_def)
  show "pending_ledger s d0 d \<Longrightarrow> pending_ledger s d0 d'" using assms(1) by (simp add: pending_ledger_def)
qed

lemma statement_keeps:
  assumes "run_statement st (s, d) = Inr (s', d')" "intact d" "pending_ledger s d0 d" "ledger_ok d0" "s_tx_id s = next_tx_id d0"
  shows "intact d'" "evolves d d'" "pending_ledger s' d0 d'" "s_tx_id s' = next_tx_id d0"
proof -
  have run: "execute st (s, d) = Inr (s', d')" using assms(1) by (auto simp: run_statement_def result_simps)
  have same: "s_tx_id s' = s_tx_id s" using execute_effect [OF run] by blast
  then show "s_tx_id s' = next_tx_id d0" using assms(5) by simp
  have other: "pending_ledger s' d0 x = pending_ledger s d0 x" for x using same by (simp add: pending_ledger_def)
  consider "d' = d" | "stmt s d d'"
    | h where "d' = d\<lparr>history := history d @ [h]\<rparr>" "h_transaction_id h \<in> t_id ` set (transactions d)"
    using execute_effect [OF run] by blast
  then have "intact d' \<and> evolves d d' \<and> pending_ledger s d0 d'"
  proof cases
    case 1
    then show ?thesis using assms(2,3) evolves_refl by simp
  next
    case 2
    have keys: "keys_ok d" "rows_ok d" "refs_ok d" using assms(2) by (simp_all add: intact_def)
    show ?thesis
      using keys_ok_stmt [OF 2 keys(1)] rows_ok_stmt [OF 2 keys(2)] refs_ok_stmt [OF 2 keys(3)] evolves_stmt [OF 2 keys(1)]
        pending_ledger_stmt [OF 2 assms(3-5)] by (simp add: intact_def)
  next
    case 3
    then show ?thesis using forged_line [OF 3] assms(2,3) by simp
  qed
  then show "intact d'" "evolves d d'" "pending_ledger s' d0 d'" unfolding other by simp_all
qed

lemma program_keeps:
  assumes "fold_result run_statement program (s, d) = Inr (s', d')" "intact d" "pending_ledger s d0 d" "ledger_ok d0" "s_tx_id s = next_tx_id d0"
  shows "intact d' \<and> evolves d d' \<and> pending_ledger s' d0 d' \<and> s_tx_id s' = next_tx_id d0"
  using assms
proof (induction program arbitrary: s d)
  case Nil
  then show ?case by (simp add: evolves_refl)
next
  case (Cons st program)
  obtain s1 d1 where d1: "run_statement st (s, d) = Inr (s1, d1)" "fold_result run_statement program (s1, d1) = Inr (s', d')"
    using Cons.prems(1) by (auto simp: result_simps)
  note now = statement_keeps [OF d1(1) Cons.prems(2-5)]
  show ?case using Cons.IH [OF d1(2) now(1,3) Cons.prems(4) now(4)] evolves_trans [OF now(2)] by blast
qed

lemma program_commits:
  assumes "intact d" "ledger_ok d" "d' = snd (run_program now program d)"
  shows "intact d'" "ledger_ok d'" "evolves d d'" "i \<in> e_id ` set (entries d) \<Longrightarrow> lines_of i d' = lines_of i d"
proof -
  obtain r where run: "run_program now program d = (r, d')" using assms(3) by (metis prod.collapse)
  have "intact d' \<and> ledger_ok d' \<and> evolves d d' \<and> (i \<in> e_id ` set (entries d) \<longrightarrow> lines_of i d' = lines_of i d)"
  proof (cases r)
    case (Inl e)
    then have "d' = d" using run sql_transaction_Inl unfolding run_program_def by blast
    then show ?thesis using assms(1,2) evolves_refl by simp
  next
    case (Inr u)
    define s where "s = \<lparr>s_tx_id = next_tx_id d, s_now = now, s_actor = None\<rparr>"
    obtain d1 s1 where body: "fold_result run_statement program (s, d) = Inr (s1, d1)" "deferred_checks d1 = Inr ()"
      and d': "d' = d1\<lparr>next_tx_id := Suc (next_tx_id d), deferred := []\<rparr>"
      using run unfolding run_program_def Inr s_def by (elim sql_transaction_Inr) (auto simp: result_simps)
    have s: "s_tx_id s = next_tx_id d" by (simp add: s_def)
    note kept = program_keeps [OF body(1) assms(1) pending_ledger_start [OF assms(2)] assms(2) s]
    then have "ledger_ok d'" unfolding d' using ledger_ok_commit [OF _ assms(2) _ body(2)] by blast
    moreover have "intact d' = intact d1" "evolves d d' = evolves d d1" "lines_of i d' = lines_of i d1"
      unfolding d' by (simp_all add: intact_def keys_ok_def rows_ok_def refs_ok_def evolves_def lines_of_def)
    ultimately show ?thesis using kept committed_lines_kept(1) [of s1 d d1 i] by simp
  qed
  then show "intact d'" "ledger_ok d'" "evolves d d'" "i \<in> e_id ` set (entries d) \<Longrightarrow> lines_of i d' = lines_of i d" by blast+
qed

lemma use_keeps:
  assumes "rtranclp app_step d d'" "intact d" "ledger_ok d"
  shows "intact d' \<and> ledger_ok d' \<and> evolves d d' \<and> (\<forall>i \<in> e_id ` set (entries d). lines_of i d' = lines_of i d)"
  using assms
proof (induction rule: rtranclp_induct)
  case base
  then show ?case by (simp add: evolves_refl)
next
  case (step d1 d2)
  obtain now program where d2: "d2 = snd (run_program now program d1)" using step.hyps(2) by (auto elim: app_step.cases)
  have ok: "intact d1" "ledger_ok d1" "evolves d d1" using step.IH [OF step.prems] by simp_all
  have "i \<in> e_id ` set (entries d1)" if "i \<in> e_id ` set (entries d)" for i
    using ok(3) that by (auto simp: evolves_def extends_iff)
  then show ?case
    using program_commits [OF ok(1,2) d2] evolves_trans [OF ok(3)] step.IH [OF step.prems] by simp
qed

lemma use_intact:
  assumes "any_use uid now d" "inj uid"
  shows "intact d" "ledger_ok d"
proof -
  have "system_ok (initial_db uid now)" using reachable_system_ok [OF reach_initial assms(2)] .
  then have "intact (initial_db uid now)" "ledger_ok (initial_db uid now)"
    by (simp_all add: system_ok_def tables_ok_def intact_def)
  then show "intact d" "ledger_ok d" using use_keeps assms(1) unfolding any_use_def by blast+
qed

section \<open>The services are such programs\<close>







section \<open>Programs of no service\<close>

definition demo_by_hand :: "uuid \<Rightarrow> (uuid \<times> entry_direction \<times> int) list \<Rightarrow> statement list" where
  "demo_by_hand i ls =
    Insert_Entry i ''by hand'' None None
    # map (\<lambda>(a, dir, n). Insert_Posting \<lparr>p_entry_id = i, p_account_id = a, p_direction = dir, p_amount = n, p_currency = ''XOF''\<rparr>) ls"

definition demo_raw_payment :: "statement list" where
  "demo_raw_payment =
    [Set_Actor (Some \<lparr>ac_type = SYSTEM, ac_id = ''psql'', ac_reason = None\<rparr>),
     Insert_Transaction
       \<lparr>t_id = demo_uid 60, t_reference = ''TXN-BY-HAND'', t_type = PAYMENT, t_status = INITIATED, t_provider = WAVE,
        t_provider_reference = None, t_amount = 700, t_currency = ''XOF'', t_refunded_amount = 0,
        t_customer_msisdn = ''+2250700000000'', t_parent_transaction_id = None, t_merchant_id = demo_uid 6,
        t_idempotency_key = ''by-hand'', t_request_fingerprint = demo_sha ''x'', t_version = 1, t_expires_at = None,
        t_created_at = 0, t_updated_at = 0\<rparr>]"

definition demo_entered :: db where
  "demo_entered = snd (run_program 100 (demo_by_hand (demo_uid 50) [(demo_uid 0, DEBIT, 700), (demo_uid 5, CREDIT, 700)])
     (initial_db demo_uid 0))"


definition demo_raw :: db where "demo_raw = snd (run_program 200 demo_raw_payment demo_entered)"

definition demo_forged_line :: status_history where
  "demo_forged_line = \<lparr>h_transaction_id = demo_uid 60, h_from_status = Some PENDING, h_to_status = SUCCEEDED,
     h_actor_type = PROVIDER, h_actor_id = None, h_reason = None, h_created_at = 5\<rparr>"

lemma demo_use: "any_use demo_uid 0 demo_entered" "rtranclp app_step demo_entered demo_raw" "any_use demo_uid 0 demo_raw"
proof -
  show first: "any_use demo_uid 0 demo_entered" "rtranclp app_step demo_entered demo_raw"
    unfolding any_use_def demo_entered_def demo_raw_def by (rule r_into_rtranclp, rule any_program)+
  then show "any_use demo_uid 0 demo_raw" unfolding any_use_def by (rule rtranclp_trans)
qed

lemmas program_simps =
  run_program_def run_statement_def require_privilege_def keep_def written_def demo_by_hand_def result_simps require_def

lemma demo_entered_rows:
  "length (entries demo_entered) = 1" "length (postings demo_entered) = 2"
  "e_id ` set (entries demo_entered) = {demo_uid 50}" "length (lines_of (demo_uid 50) demo_entered) = 2"
  "accounts demo_entered = accounts (initial_db demo_uid 0)" "merchants demo_entered = merchants (initial_db demo_uid 0)"
  "transactions demo_entered = []" "history demo_entered = []" "deferred demo_entered = []"
  by (simp_all add: demo_entered_def program_simps eval_simps initial_db_def chart_account_def)


lemma demo_raw_rows:
  "map t_id (transactions demo_raw) = [demo_uid 60]" "map t_status (transactions demo_raw) = [INITIATED]"
  "length (history demo_raw) = 1"
  by (simp_all add: demo_raw_def demo_raw_payment_def demo_entered_rows program_simps eval_simps initial_db_def chart_account_def)

section \<open>The ledger whatever the application does\<close>







text \<open>
  C30: the history is not covered by this: the role has INSERT on transaction_status_history, which the trigger needs, so
  one statement adds a line that no change of the transaction made, and the history no longer leads to the status of the row.
\<close>

theorem history_can_be_forged:
  assumes "any_use uid now d" "inj uid" "t \<in> set (transactions d)" "h_transaction_id h = t_id t" "h_to_status h \<noteq> t_status t"
    "h_actor_id h = None" "h_reason h = None"
  shows "fst (run_program now' [Insert_History h] d) = Inr ()
    \<and> history (snd (run_program now' [Insert_History h] d)) = history d @ [h]
    \<and> \<not> history_ok (snd (run_program now' [Insert_History h] d))"
proof -
  have walk: "walks a (hs @ [h]) b \<Longrightarrow> b = Some (h_to_status h)" for a hs b
    by (induction a hs b rule: walks.induct) auto
  have ok: "deferred d = []" using use_intact(2) [OF assms(1,2)] by (simp add: ledger_ok_def)
  have "t_id t \<in> t_id ` set (transactions d)" using assms(3) by simp
  then have run: "run_program now' [Insert_History h] d
      = (Inr (), d\<lparr>history := history d @ [h], next_tx_id := Suc (next_tx_id d), deferred := []\<rparr>)"
    using assms(4,6,7) ok
    by (simp add: run_program_def sql_transaction_def run_statement_def require_privilege_def insert_history_def keep_def
        result_simps require_def check_all.simps fold_result.simps andThen_def deferred_checks_def Let_def)
  have "\<not> walks None (history_of (t_id t) d @ [h]) (Some (t_status t))" using walk [of None "history_of (t_id t) d" "Some (t_status t)"] assms(5) by auto
  then have "\<not> history_ok (snd (run_program now' [Insert_History h] d))"
    using assms(3,4) run by (auto simp: history_ok_def history_of_def)
  then show ?thesis using run by simp
qed

theorem history_can_be_forged_witness:
  "length (history demo_raw) = 1 \<and> length (history (snd (run_program 300 [Insert_History demo_forged_line] demo_raw))) = 2
    \<and> \<not> history_ok (snd (run_program 300 [Insert_History demo_forged_line] demo_raw))"
proof -
  obtain t where t: "t \<in> set (transactions demo_raw)" "h_transaction_id demo_forged_line = t_id t"
    "h_to_status demo_forged_line \<noteq> t_status t"
    using demo_raw_rows(1,2) by (auto simp: map_eq_Cons_conv demo_forged_line_def)
  show ?thesis
    using history_can_be_forged [OF demo_use(3) inj_demo_uid t, of 300] demo_raw_rows(3) by (simp add: demo_forged_line_def)
qed

end
