(* ===== verification/Interleaving.thy ===== *)
theory Interleaving
  imports Requests Access Errors
begin

text \<open>
  Services among other sessions. The services of the model run as one step, but some of the code asks the
  database more than once: a creation reads the parent of a refund, inserts in a SQL transaction of its own
  and, when the insertion fails, looks for the key in a third query; the resolution of an exception reads it
  and updates it later; the guards of a request read its key before the handler runs. Here the queries are taken apart: a
  creation answers as a call made at one moment whatever comes in between; a resolution that loses a race overwrites
  nothing, but its answer is another; a key that is revoked under way opens the request that was let through.
\<close>

section \<open>The three queries at three moments\<close>

definition create_interleaved ::
    "string \<Rightarrow> timestamp \<Rightarrow> string \<Rightarrow> string \<Rightarrow> (session \<Rightarrow> db \<Rightarrow> app_error + (transaction \<times> db)) \<Rightarrow> db \<Rightarrow> db
      \<Rightarrow> (app_error + idempotent_create_result) \<times> db" where
  "create_interleaved actorId now idempotencyKey fingerprint insert_row d1 d2 =
    (case withActor \<lparr>ac_type = SYSTEM, ac_id = actorId, ac_reason = None\<rparr> now insert_row d1 of
       (Inr t, d') \<Rightarrow> (Inr \<lparr>ir_transaction = t, ir_replayed = False\<rparr>, d')
     | (Inl error, _) \<Rightarrow>
        (case lookup_by t_idempotency_key idempotencyKey (transactions d2) of
           None \<Rightarrow> (Inl error, d2)
         | Some existing \<Rightarrow>
            if t_request_fingerprint existing \<noteq> fingerprint
            then (Inl (Http_Exception 422
                    (''Idempotency-Key d'' @ [CHR 0xE9] @ ''j'' @ [CHR 0xE0] @ '' utilis'' @ [CHR 0xE9]
                      @ ''e avec un corps de requ'' @ [CHR 0xEA] @ ''te diff'' @ [CHR 0xE9] @ ''rent'')), d2)
            else (Inr \<lparr>ir_transaction = existing, ir_replayed = True\<rparr>, d2)))"

definition payment_interleaved ::
    "(string \<Rightarrow> string) \<Rightarrow> (string \<Rightarrow> rat option) \<Rightarrow> request_inputs \<Rightarrow> create_payment_dto \<Rightarrow> string \<Rightarrow> uuid \<Rightarrow> db \<Rightarrow> db
      \<Rightarrow> (app_error + idempotent_create_result) \<times> db" where
  "payment_interleaved sha config inp dto key merchantId =
    create_interleaved ''api:payments'' (in_db_now inp) key (fingerprintOf sha dto)
      (create_payment_body sha config inp dto key merchantId)"

definition refund_interleaved ::
    "(string \<Rightarrow> string) \<Rightarrow> (string \<Rightarrow> rat option) \<Rightarrow> request_inputs \<Rightarrow> string \<Rightarrow> create_refund_dto \<Rightarrow> string \<Rightarrow> uuid \<Rightarrow> db \<Rightarrow> db \<Rightarrow> db
      \<Rightarrow> (app_error + idempotent_create_result) \<times> db" where
  "refund_interleaved sha config inp parentReference dto key merchantId d0 d1 d2 =
    (case findByReferenceOrThrow parentReference d0 of
       Inl e \<Rightarrow> (Inl e, d0)
     | Inr parent \<Rightarrow>
        if t_merchant_id parent \<noteq> merchantId
        then (Inl (Http_Exception 404 (''Transaction '' @ parentReference @ '' introuvable'')), d0)
        else create_interleaved ''api:payments'' (in_db_now inp) key (refundFingerprintOf sha parentReference dto)
               (create_refund_body sha config inp parentReference parent dto key) d1 d2)"

lemma create_at_once: "create_interleaved a now key fp ins d d = createTransactionIdempotently a now key fp ins d"
proof (cases "withActor \<lparr>ac_type = SYSTEM, ac_id = a, ac_reason = None\<rparr> now ins d")
  case (Pair r d')
  then show ?thesis
    using sql_transaction_Inl [of "Some \<lparr>ac_type = SYSTEM, ac_id = a, ac_reason = None\<rparr>" now ins d]
    by (cases r) (auto simp: create_interleaved_def createTransactionIdempotently_def withActor_def split: option.splits)
qed

text \<open>
  Where the insertion succeeds it is the call at that moment; where it fails and the key is there when it is looked
  for, the call at that later moment; else the call at the moment of the insertion.
\<close>

lemma create_interleaved_as_if:
  assumes fails: "\<And>s x d d'. ins s d = Inr (x, d') \<Longrightarrow> key \<notin> t_idempotency_key ` set (transactions d)"
    and kept: "key \<in> t_idempotency_key ` set (transactions d1) \<Longrightarrow> key \<in> t_idempotency_key ` set (transactions d2)"
    and out: "create_interleaved a now key fp ins d1 d2 = (answer, d3)"
  shows "createTransactionIdempotently a now key fp ins d1 = (answer, d3)
    \<or> d3 = d2 \<and> (\<exists>d \<in> {d1, d2}. createTransactionIdempotently a now key fp ins d = (answer, d))"
proof -
  define who where "who = \<lparr>ac_type = SYSTEM, ac_id = a, ac_reason = None\<rparr>"
  obtain r d' where attempt: "withActor who now ins d1 = (r, d')" by fastforce
  show ?thesis
  proof (cases r)
    case (Inr t)
    then show ?thesis using out attempt by (simp add: create_interleaved_def createTransactionIdempotently_def who_def)
  next
    case (Inl e)
    then have failed: "withActor who now ins d1 = (Inl e, d1)"
      using attempt sql_transaction_Inl unfolding withActor_def by blast
    show ?thesis
    proof (cases "lookup_by t_idempotency_key key (transactions d2)")
      case None
      then have "lookup_by t_idempotency_key key (transactions d1) = None"
        using kept by (metis lookup_by_eq_None)
      then have "createTransactionIdempotently a now key fp ins d1 = (Inl e, d1)"
        using failed by (simp add: createTransactionIdempotently_def who_def)
      then show ?thesis using out failed None by (auto simp: create_interleaved_def who_def)
    next
      case (Some t)
      then have "key \<in> t_idempotency_key ` set (transactions d2)" by (metis lookup_by_eq_None option.distinct(1))
      then obtain e' where "ins \<lparr>s_tx_id = next_tx_id d2, s_now = now, s_actor = Some who\<rparr> d2 = Inl e'"
        using fails by (metis surj_pair sumE)
      then have "withActor who now ins d2 = (Inl e', d2)" by (simp add: withActor_def sql_transaction_run)
      then show ?thesis
        using out failed Some by (auto simp: create_interleaved_def createTransactionIdempotently_def who_def split: if_splits)
    qed
  qed
qed

section \<open>What a later state keeps\<close>

lemma key_stays:
  assumes "rtranclp service_step d d'" "system_ok d" "key \<in> t_idempotency_key ` set (transactions d)"
  shows "key \<in> t_idempotency_key ` set (transactions d')"
proof -
  obtain t where t: "t \<in> set (transactions d)" "t_idempotency_key t = key" using assms(3) by blast
  obtain t' where "t' \<in> set (transactions d')" "row_evolves t t'" using row_later [OF assms(1,2) t(1)] .
  then show ?thesis using t(2) by (metis row_evolves_def frozen_columns_kept_def image_eqI)
qed

lemma refund_of_seen_parent:
  assumes "rtranclp service_step d0 d" "system_ok d0" "findByReferenceOrThrow ref d0 = Inr parent"
  shows "create_refund sha config inp ref dto key m d =
    (if t_merchant_id parent \<noteq> m then (Inl (Http_Exception 404 (''Transaction '' @ ref @ '' introuvable'')), d)
     else createTransactionIdempotently ''api:payments'' (in_db_now inp) key (refundFingerprintOf sha ref dto)
            (create_refund_body sha config inp ref parent dto key) d)"
proof -
  have parent: "parent \<in> set (transactions d0)" "t_reference parent = ref"
    using assms(3) lookup_by_SomeD [of t_reference ref "transactions d0" parent]
    by (auto simp: findByReferenceOrThrow_def split: option.splits)
  obtain t where t: "t \<in> set (transactions d)" "row_evolves parent t" using row_later [OF assms(1,2) parent(1)] .
  have "keys_ok d" using steps_evolve [OF assms(1,2)] by (simp add: system_ok_def tables_ok_def)
  then have "lookup_by t_reference ref (transactions d) = Some t"
    using lookup_by_distinct [OF keys_okD(2) t(1)] t(2) parent(2) by (simp add: row_evolves_def frozen_columns_kept_def)
  moreover have "t_merchant_id t = t_merchant_id parent"
    "create_refund_body sha config inp ref t dto key = create_refund_body sha config inp ref parent dto key"
    using t(2) by (auto simp: row_evolves_def frozen_columns_kept_def create_refund_body_def fun_eq_iff)
  ultimately show ?thesis by (simp add: create_refund_def findByReferenceOrThrow_def)
qed

section \<open>As if at one moment\<close>

text \<open>
  C16: A request to create a refund whose three queries meet three states, other sessions acting in between, is
  answered as the same call made in one of those states: it writes what the call writes in the second
  one, or neither writes. The parent read earlier does no harm, for what is used of it is frozen.
\<close>

theorem interleaved_refund_as_if_at_once:
  assumes "inj uid" "reachable uid n0 d0" "rtranclp service_step d0 d1" "rtranclp service_step d1 d2"
    "refund_interleaved sha config inp ref dto key m d0 d1 d2 = (answer, d3)"
  shows "create_refund sha config inp ref dto key m d1 = (answer, d3)
    \<or> d3 \<in> {d0, d2} \<and> (\<exists>d \<in> {d0, d1, d2}. create_refund sha config inp ref dto key m d = (answer, d))"
proof -
  have ok: "system_ok d0" using reachable_system_ok [OF assms(2,1)] .
  then have ok1: "system_ok d1" using steps_evolve [OF assms(3)] by simp
  show ?thesis
  proof (cases "findByReferenceOrThrow ref d0")
    case (Inl e)
    then show ?thesis using assms(5) by (auto simp: refund_interleaved_def create_refund_def)
  next
    case (Inr parent)
    note seen = refund_of_seen_parent [OF _ ok Inr]
    show ?thesis
    proof (cases "t_merchant_id parent = m")
      case False
      then show ?thesis using assms(5) Inr seen [of d0] by (auto simp: refund_interleaved_def)
    next
      case True
      then have out: "create_interleaved ''api:payments'' (in_db_now inp) key (refundFingerprintOf sha ref dto)
          (create_refund_body sha config inp ref parent dto key) d1 d2 = (answer, d3)"
        using assms(5) Inr by (simp add: refund_interleaved_def)
      have same: "create_refund sha config inp ref dto key m d = createTransactionIdempotently ''api:payments'' (in_db_now inp) key
          (refundFingerprintOf sha ref dto) (create_refund_body sha config inp ref parent dto key) d" if "d \<in> {d1, d2}" for d
        using seen [of d] True that assms(3) rtranclp_trans [OF assms(3,4)] by auto
      have "createTransactionIdempotently ''api:payments'' (in_db_now inp) key (refundFingerprintOf sha ref dto)
            (create_refund_body sha config inp ref parent dto key) d1 = (answer, d3)
        \<or> d3 = d2 \<and> (\<exists>d \<in> {d1, d2}. createTransactionIdempotently ''api:payments'' (in_db_now inp) key
              (refundFingerprintOf sha ref dto) (create_refund_body sha config inp ref parent dto key) d = (answer, d))"
        by (rule create_interleaved_as_if [OF _ _ out], erule create_refund_body_fresh, rule key_stays [OF assms(4) ok1])
      then show ?thesis using same by auto
    qed
  qed
qed

theorem interleaved_payment_as_if_at_once:
  assumes "inj uid" "reachable uid n0 d1" "rtranclp service_step d1 d2"
    "payment_interleaved sha config inp dto key m d1 d2 = (answer, d3)"
  shows "create_payment sha config inp dto key m d1 = (answer, d3)
    \<or> d3 = d2 \<and> (\<exists>d \<in> {d1, d2}. create_payment sha config inp dto key m d = (answer, d))"
  unfolding create_payment_def
  by (rule create_interleaved_as_if [OF _ _ assms(4) [unfolded payment_interleaved_def]], erule create_payment_body_fresh)
     (rule key_stays [OF assms(3) reachable_system_ok [OF assms(2,1)]])

theorem interleaved_refund_as_if_at_once_witness:
  "\<exists>answer d3. refund_interleaved demo_sha demo_config (demo_inputs ''t9'' 3 4500) ''TXN-20260922-010101'' demo_refund ''k2'' (demo_uid 6)
      demo_settled demo_refund_created demo_refund_created = (answer, d3)
    \<and> (create_refund demo_sha demo_config (demo_inputs ''t9'' 3 4500) ''TXN-20260922-010101'' demo_refund ''k2'' (demo_uid 6) demo_refund_created
          = (answer, d3)
       \<or> (\<exists>d \<in> {demo_settled, demo_refund_created}.
            create_refund demo_sha demo_config (demo_inputs ''t9'' 3 4500) ''TXN-20260922-010101'' demo_refund ''k2'' (demo_uid 6) d = (answer, d)))
    \<and> (\<exists>r. answer = Inr r \<and> ir_replayed r)"
proof -
  let ?inp = "demo_inputs ''t9'' 3 4500" and ?ref = "''TXN-20260922-010101''"
  have steps: "rtranclp service_step demo_settled demo_refund_created"
    using step_refund [of demo_settled demo_sha demo_config "demo_inputs ''t2'' 2 4000" ?ref demo_refund "''k2''" "demo_uid 6"] run_refund_created
    by (metis r_into_rtranclp snd_conv)
  have run: "refund_interleaved demo_sha demo_config ?inp ?ref demo_refund ''k2'' (demo_uid 6) demo_settled demo_refund_created demo_refund_created
      = (Inr \<lparr>ir_transaction = demo_refund_row INITIATED 1 4000, ir_replayed = True\<rparr>, demo_refund_created)"
    by (simp add: refund_interleaved_def create_interleaved_def eval_simps demo_defs demo_settled_def demo_refund_created_def
        demo_sha_const [of "canonical_refund _ _"])
  show ?thesis
    using interleaved_refund_as_if_at_once [OF inj_demo_uid reach_demo_settled steps rtranclp.rtrancl_refl run] run by auto
qed

section \<open>Two resolutions of one exception\<close>

definition resolve_interleaved ::
    "uuid \<Rightarrow> timestamp \<Rightarrow> string \<Rightarrow> string \<Rightarrow> db \<Rightarrow> db \<Rightarrow> (app_error + reconciliation_exception) \<times> db" where
  "resolve_interleaved xid clock resolution resolvedBy d0 d1 =
    (case find_exception_or_throw xid d0 of
       Inl e \<Rightarrow> (Inl e, d0)
     | Inr x \<Rightarrow>
        if x_resolved_at x \<noteq> None
        then (Inl (Http_Exception 409
               (''Exception de rapprochement '' @ xid @ '' d'' @ [CHR 0xE9] @ ''j'' @ [CHR 0xE0] @ '' r''
                 @ [CHR 0xE9] @ ''solue'')), d0)
        else sql_transaction None clock (resolve_body xid clock resolvedBy resolution) d1)"

lemma second_resolution:
  assumes "lookup_by x_id xid (exceptions d) = Some x" "x_resolved_at x = Some clock" "clock' \<noteq> clock"
    "list_all snd (exception_ranges (x\<lparr>x_resolved_at := Some clock', x_resolved_by := Some who', x_resolution := Some resolution'\<rparr>))"
  shows "\<exists>msg. sql_transaction None clock' (resolve_body xid clock' who' resolution') d = (Inl (Ledger_Error FROZEN_FIELD msg), d)"
proof -
  let ?new = "x\<lparr>x_resolved_at := Some clock', x_resolved_by := Some who', x_resolution := Some resolution'\<rparr>"
  have "check_all (exception_ranges ?new) = Inr ()" using assms(4) by (simp add: check_all_eq_Inr list_all_iff)
  moreover obtain msg where "exceptions_before_update x ?new = Inl (Ledger_Error FROZEN_FIELD msg)"
    using assms(2,3) by (simp add: exceptions_before_update_def check_all.simps)
  ultimately have "resolve_body xid clock' who' resolution' s d = Inl (Ledger_Error FROZEN_FIELD msg)" for s
    using assms(1) by (simp only: resolve_body_def update_exception_def option.case andThen_simps)
  then show ?thesis by (simp add: sql_transaction_run)
qed

text \<open>
  C36: An analyst who read an exception as open and resolves it after another did is refused by the trigger: the first
  resolution stands as it was recorded and nothing changes. But the check that answers 409 has been passed,
  so the error is LX006, which the filter takes for a broken invariant and answers 500.
\<close>

theorem resolution_race_refused:
  assumes "inj uid" "reachable uid n0 d" "lookup_by x_id xid (exceptions d0) = Some old" "x_resolved_at old = None"
    "resolve_exception xid clock resolution who d = (Inr x, d1)" "rtranclp service_step d1 d2" "clock' \<noteq> clock"
    "list_all snd (exception_ranges (x\<lparr>x_resolved_at := Some clock', x_resolved_by := Some who', x_resolution := Some resolution'\<rparr>))"
  shows "\<exists>msg. resolve_interleaved xid clock' resolution' who' d0 d2 = (Inl (Ledger_Error FROZEN_FIELD msg), d2)
    \<and> lookup_by x_id xid (exceptions d2) = Some x \<and> fst (LX_ERROR_MAP FROZEN_FIELD) = 500"
proof -
  have found: "lookup_by x_id xid (exceptions d2) = Some x"
    using exception_resolved_once [OF assms(1,2,5,6)] by simp
  have "x_resolved_at x = Some clock" using assms(5) by (rule resolve_Inr) simp
  then show ?thesis
    using second_resolution [OF found _ assms(7,8)] found assms(3,4)
    by (auto simp: resolve_interleaved_def find_exception_or_throw_def)
qed

theorem resolution_race_refused_witness:
  "\<exists>msg. resolve_interleaved ''x1100000'' 50000 ''again'' ''a2'' demo_late
      (demo_late\<lparr>exceptions := demo_resolved, next_tx_id := Suc (next_tx_id demo_late)\<rparr>)
    = (Inl (Ledger_Error FROZEN_FIELD msg), demo_late\<lparr>exceptions := demo_resolved, next_tx_id := Suc (next_tx_id demo_late)\<rparr>)"
proof -
  obtain old where "lookup_by x_id ''x1100000'' (exceptions demo_late) = Some old" "x_resolved_at old = None"
    by (rule resolve_Inr [OF run_resolved])
  moreover have "list_all snd (exception_ranges ((hd demo_resolved)\<lparr>x_resolved_at := Some 50000, x_resolved_by := Some ''a2'',
      x_resolution := Some ''again''\<rparr>))"
    by (simp add: demo_resolved_def exception_ranges_def demo_late_def demo_db_def)
  ultimately show ?thesis
    using resolution_race_refused [OF inj_demo_uid reach_demo_late _ _ run_resolved rtranclp.rtrancl_refl] by fastforce
qed

section \<open>A key revoked under way\<close>

text \<open>The guards read the key in one state, the handler runs in a later one.\<close>

definition guarded_interleaved ::
    "(string \<Rightarrow> string) \<Rightarrow> api_role list option \<Rightarrow> string option \<Rightarrow> (auth_context \<Rightarrow> db \<Rightarrow> (app_error + 'a) \<times> db)
      \<Rightarrow> db \<Rightarrow> db \<Rightarrow> (app_error + 'a) \<times> db" where
  "guarded_interleaved sha required header handler d0 d1 =
    (case api_key_guard sha header d0 of
       Inl e \<Rightarrow> (Inl e, d1)
     | Inr auth \<Rightarrow>
        (case roles_guard required (Some auth) of
           Inl e \<Rightarrow> (Inl e, d1)
         | Inr _ \<Rightarrow> handler auth d1))"

lemma validate_api_key_is:
  assumes "distinct (map k_hashed_key (api_keys d))" "k \<in> set (api_keys d)" "k_hashed_key k = sha raw" "k_is_active k"
  shows "validate_api_key sha raw d = Some k"
proof (cases "validate_api_key sha raw d")
  case None
  then show ?thesis using assms(2-4) by (auto simp: validate_api_key_def hashApiKey_def find_None_iff)
next
  case (Some j)
  then have "j \<in> set (api_keys d)" "k_hashed_key j = sha raw" using validate_api_key_Some by blast+
  then show ?thesis using Some assms(1-3) by (auto simp: distinct_map inj_on_def)
qed

text \<open>
  A request whose guards and handler meet two states is answered as the same request made at one of the two moments,
  for what the guards read of a key is frozen. One case is left: a key that is switched off in between still opens this
  one request, for the caller it was issued to.
\<close>

theorem guards_as_if_at_once:
  assumes "inj uid" "reachable uid n0 d0" "rtranclp service_step d0 d1"
    "guarded_interleaved sha required header handler d0 d1 = (answer, d2)"
  shows "guarded sha required header handler d1 = (answer, d2)
    \<or> d2 = d1 \<and> (\<exists>e. answer = Inl e \<and> guarded sha required header handler d0 = (Inl e, d0))
    \<or> (\<exists>auth k. api_key_guard sha header d0 = Inr auth \<and> handler auth d1 = (answer, d2)
         \<and> k \<in> set (api_keys d1) \<and> k_id k = au_api_key_id auth \<and> \<not> k_is_active k)"
proof (cases "api_key_guard sha header d0")
  case (Inl e)
  then show ?thesis using assms(4) by (auto simp: guarded_interleaved_def guarded_def)
next
  case (Inr auth)
  have ok: "system_ok d0" using reachable_system_ok [OF assms(2,1)] .
  then have keys: "distinct (map k_hashed_key (api_keys d1))"
    using steps_evolve [OF assms(3)] by (simp add: system_ok_def tables_ok_def keys_ok_def)
  obtain raw k where k: "header = Some (BEARER_PREFIX @ raw)" "validate_api_key sha raw d0 = Some k"
    "auth = \<lparr>au_api_key_id = k_id k, au_role = k_role k, au_merchant_id = k_merchant_id k\<rparr>"
    using api_key_guard_Inr [OF Inr] .
  then have "k \<in> set (api_keys d0)" "k_hashed_key k = sha raw" using validate_api_key_Some by blast+
  moreover then obtain k' where k': "k' \<in> set (api_keys d1)" "key_evolves k k'" using key_later [OF assms(3) ok] by blast
  ultimately have same: "k_hashed_key k' = sha raw" "k_id k' = k_id k"
    "auth = \<lparr>au_api_key_id = k_id k', au_role = k_role k', au_merchant_id = k_merchant_id k'\<rparr>"
    using k(3) by (simp_all add: key_evolves_def)
  show ?thesis
  proof (cases "roles_guard required (Some auth)")
    case (Inl e)
    then show ?thesis using Inr assms(4) by (auto simp: guarded_interleaved_def guarded_def)
  next
    case passed: (Inr b)
    then have out: "handler auth d1 = (answer, d2)" using Inr assms(4) by (simp add: guarded_interleaved_def)
    show ?thesis
    proof (cases "k_is_active k'")
      case True
      then have "api_key_guard sha header d1 = Inr auth"
        using validate_api_key_is [of d1 k' sha raw] keys k'(1) same(1) k(1) same(3) by (simp add: api_key_guard_bearer)
      then show ?thesis using passed out by (simp add: guarded_def)
    next
      case False
      then show ?thesis using Inr out k'(1) k(3) same(2) by fastforce
    qed
  qed
qed

theorem guards_as_if_at_once_witness:
  "guarded_interleaved demo_sha (Some [ADMIN]) (Some ''Bearer secret'') (\<lambda>auth d. (Inr (au_api_key_id auth), d)) demo_keyed demo_revoked
      = (Inr ''a1'', demo_revoked)
    \<and> (\<exists>k \<in> set (api_keys demo_revoked). k_id k = ''a1'' \<and> \<not> k_is_active k)"
proof -
  let ?handler = "\<lambda>auth d. (Inr (au_api_key_id auth), d)"
  have key: "api_key_guard demo_sha (Some ''Bearer secret'') demo_keyed = Inr \<lparr>au_api_key_id = ''a1'', au_role = ADMIN, au_merchant_id = None\<rparr>"
    by (simp add: api_key_guard_def truthy_def BEARER_PREFIX_def validate_api_key_def hashApiKey_def demo_keyed_def demo_sha_def)
  then have run: "guarded_interleaved demo_sha (Some [ADMIN]) (Some ''Bearer secret'') ?handler demo_keyed demo_revoked = (Inr ''a1'', demo_revoked)"
    by (simp add: guarded_interleaved_def roles_guard_cases)
  have off: "\<exists>msg. api_key_guard demo_sha (Some ''Bearer secret'') demo_revoked = Inl (Http_Exception 401 msg)"
    by (simp add: api_key_guard_def truthy_def BEARER_PREFIX_def validate_api_key_def hashApiKey_def demo_revoked_def demo_keyed_def)
  have step: "rtranclp service_step demo_keyed demo_revoked" using step_revoke run_revoked by (metis r_into_rtranclp snd_conv)
  show ?thesis
    using guards_as_if_at_once [OF inj_demo_uid reach_keyed step run] run off key by (auto simp: guarded_def)
qed

end
