(* ===== verification/Routes.thy ===== *)
theory Routes
  imports Front
begin

text \<open>
  The routes: which method and path reaches which handler, as the decorators of the controllers say. The
  framework splits the path at its slashes, decodes the parts and reads the query and the body; what it
  does with a path no controller has is its exception.
\<close>

section \<open>Calls\<close>

datatype http_method = GET | HEAD | POST | PATCH | Other_Method string

record http_call =
  ca_method :: http_method
  ca_segments :: "string list"
  ca_query :: string
  ca_only_unresolved :: "string option"
  ca_body :: string

text \<open>Express serves HEAD by the handlers of GET.\<close>

definition reading :: "http_method \<Rightarrow> bool" where
  "reading m \<longleftrightarrow> m = GET \<or> m = HEAD"

definition route_if :: "bool \<Rightarrow> endpoint \<Rightarrow> endpoint option" where
  "route_if matches e = (if matches then Some e else None)"

section \<open>The controllers\<close>

definition health_routes :: "http_call \<Rightarrow> string list \<Rightarrow> endpoint option" where
  "health_routes call rest = route_if (reading (ca_method call) \<and> rest = []) Health"

definition transactions_routes :: "http_call \<Rightarrow> string list \<Rightarrow> endpoint option" where
  "transactions_routes call rest =
    (case rest of
       [] \<Rightarrow> route_if (reading (ca_method call)) (List_Transactions (ca_query call))
     | [reference] \<Rightarrow> route_if (reading (ca_method call)) (Read_Transaction reference)
     | [reference, part] \<Rightarrow>
        if part = ''history'' then route_if (reading (ca_method call)) (Read_History reference)
        else if part = ''audit'' then route_if (reading (ca_method call)) (Read_Audit reference)
        else route_if (ca_method call = PATCH \<and> part = ''status'') (Change_Status reference (ca_body call))
     | _ \<Rightarrow> None)"

definition payments_routes :: "http_call \<Rightarrow> string list \<Rightarrow> endpoint option" where
  "payments_routes call rest =
    (case rest of
       [] \<Rightarrow> route_if (ca_method call = POST) (Create_Payment (ca_body call))
     | [reference, part] \<Rightarrow>
        route_if (ca_method call = POST \<and> part = ''refunds'') (Create_Refund reference (ca_body call))
     | _ \<Rightarrow> None)"

definition merchants_routes :: "http_call \<Rightarrow> string list \<Rightarrow> endpoint option" where
  "merchants_routes call rest = route_if (ca_method call = POST \<and> rest = []) (Create_Merchant (ca_body call))"

definition api_keys_routes :: "http_call \<Rightarrow> string list \<Rightarrow> endpoint option" where
  "api_keys_routes call rest =
    (case rest of
       [] \<Rightarrow> route_if (ca_method call = POST) (Create_Key (ca_body call))
     | [kid, part] \<Rightarrow> route_if (ca_method call = POST \<and> part = ''revoke'') (Revoke_Key kid)
     | _ \<Rightarrow> None)"

definition reconciliation_routes :: "http_call \<Rightarrow> string list \<Rightarrow> endpoint option" where
  "reconciliation_routes call rest =
    (case rest of
       [] \<Rightarrow> route_if (reading (ca_method call)) (List_Exceptions (ca_only_unresolved call))
     | [xid] \<Rightarrow> route_if (reading (ca_method call)) (Read_Exception xid)
     | [xid, part] \<Rightarrow> route_if (ca_method call = PATCH \<and> part = ''resolve'') (Resolve_Exception xid (ca_body call))
     | _ \<Rightarrow> None)"

definition stats_routes :: "http_call \<Rightarrow> string list \<Rightarrow> endpoint option" where
  "stats_routes call rest = route_if (reading (ca_method call) \<and> rest = []) Read_Stats"

definition route :: "http_call \<Rightarrow> endpoint option" where
  "route call =
    (case ca_segments call of
       [] \<Rightarrow> None
     | first # rest \<Rightarrow>
        if first = ''health'' then health_routes call rest
        else if first \<noteq> ''v1'' then None
        else (case rest of
            [] \<Rightarrow> None
          | controller # rest' \<Rightarrow>
             if controller = ''transactions'' then transactions_routes call rest'
             else if controller = ''payments'' then payments_routes call rest'
             else if controller = ''merchants'' then merchants_routes call rest'
             else if controller = ''api-keys'' then api_keys_routes call rest'
             else if controller = ''reconciliation-exceptions'' then reconciliation_routes call rest'
             else if controller = ''stats'' then stats_routes call rest'
             else None))"

definition serve ::
    "platform \<Rightarrow> occasion \<Rightarrow> js_exception \<Rightarrow> http_call \<Rightarrow> http_request \<Rightarrow> db
      \<Rightarrow> (api_body http_response \<times> (callback_job \<times> int) list) \<times> db" where
  "serve pf oc no_such_route call rq d =
    (case route call of
       None \<Rightarrow> ((problem_answer (rq_url rq) no_such_route, []), d)
     | Some e \<Rightarrow> handle_request pf oc (rq\<lparr>rq_endpoint := e\<rparr>) d)"

section \<open>One address for each endpoint\<close>

fun address :: "endpoint \<Rightarrow> http_method \<times> string list" where
  "address Health = (GET, [''health''])"
| "address (List_Transactions query) = (GET, [''v1'', ''transactions''])"
| "address (Read_Transaction reference) = (GET, [''v1'', ''transactions'', reference])"
| "address (Read_History reference) = (GET, [''v1'', ''transactions'', reference, ''history''])"
| "address (Read_Audit reference) = (GET, [''v1'', ''transactions'', reference, ''audit''])"
| "address (Change_Status reference body) = (PATCH, [''v1'', ''transactions'', reference, ''status''])"
| "address (Create_Payment body) = (POST, [''v1'', ''payments''])"
| "address (Create_Refund reference body) = (POST, [''v1'', ''payments'', reference, ''refunds''])"
| "address (Create_Merchant body) = (POST, [''v1'', ''merchants''])"
| "address (Create_Key body) = (POST, [''v1'', ''api-keys''])"
| "address (Revoke_Key kid) = (POST, [''v1'', ''api-keys'', kid, ''revoke''])"
| "address (List_Exceptions only) = (GET, [''v1'', ''reconciliation-exceptions''])"
| "address (Read_Exception xid) = (GET, [''v1'', ''reconciliation-exceptions'', xid])"
| "address (Resolve_Exception xid body) = (PATCH, [''v1'', ''reconciliation-exceptions'', xid, ''resolve''])"
| "address Read_Stats = (GET, [''v1'', ''stats''])"

lemmas routes_simps = route_def route_if_def health_routes_def transactions_routes_def payments_routes_def merchants_routes_def
  api_keys_routes_def reconciliation_routes_def stats_routes_def

text \<open>A call that is routed has the address of its endpoint, HEAD taken for GET.\<close>

lemma routed_by_address:
  assumes "route call = Some e"
  shows "address e = (if ca_method call = HEAD then GET else ca_method call, ca_segments call)"
  using assms by (auto simp: routes_simps reading_def split: list.splits if_splits)

text \<open>And the call to an address, with the texts of the endpoint, is routed there.\<close>

fun call_of :: "endpoint \<Rightarrow> http_call" where
  "call_of e =
    \<lparr>ca_method = fst (address e), ca_segments = snd (address e),
     ca_query = (case e of List_Transactions q \<Rightarrow> q | _ \<Rightarrow> []),
     ca_only_unresolved = (case e of List_Exceptions x \<Rightarrow> x | _ \<Rightarrow> None),
     ca_body = (case e of Change_Status r b \<Rightarrow> b | Create_Payment b \<Rightarrow> b | Create_Refund r b \<Rightarrow> b | Create_Merchant b \<Rightarrow> b
       | Create_Key b \<Rightarrow> b | Resolve_Exception x b \<Rightarrow> b | _ \<Rightarrow> [])\<rparr>"

lemma address_routed: "route (call_of e) = Some e"
  by (cases e) (simp_all add: routes_simps reading_def)

lemma reading_routes: "route call = Some e \<Longrightarrow> reading (ca_method call) \<longleftrightarrow> only_reads e"
  by (auto simp: routes_simps reading_def split: list.splits if_splits)

lemma reads_change_nothing:
  assumes "only_reads (rq_endpoint rq)" "handle_request pf oc rq d = ((resp, jobs), d')"
  shows "d' = d" "jobs = []"
proof -
  show "d' = d" using request_db [of pf oc rq d] assms by (cases "rq_endpoint rq") (auto simp: endpoint_effect_def)
  show "jobs = []"
    using assms by (cases "rq_endpoint rq") (auto simp: handle_request_def handle_endpoint_def no_jobs_def Let_def split: if_splits prod.splits)
qed

text \<open>
  C27: The methods are used as HTTP means them: a call by GET or HEAD, wherever it is routed and whatever comes of it,
  leaves the database and the queue as they are; a call that changes either is a POST or a PATCH to the one
  address of an endpoint, which the route and the address give to each other.
\<close>

theorem reading_methods_are_safe:
  assumes "serve pf oc no_such_route call rq d = ((resp, jobs), d')"
  shows "(d' = d \<and> jobs = []) \<or> (\<exists>e. route call = Some e \<and> route (call_of e) = Some e
    \<and> address e = (ca_method call, ca_segments call) \<and> ca_method call \<in> {POST, PATCH})"
proof (cases "route call")
  case None
  then show ?thesis using assms by (simp add: serve_def)
next
  case (Some e)
  then have run: "handle_request pf oc (rq\<lparr>rq_endpoint := e\<rparr>) d = ((resp, jobs), d')" using assms by (simp add: serve_def)
  show ?thesis
  proof (cases "only_reads e")
    case True
    then show ?thesis using reads_change_nothing [OF _ run] by simp
  next
    case False
    then have "\<not> reading (ca_method call)" "fst (address e) \<in> {POST, PATCH}"
      using reading_routes [OF Some] by (cases e; simp)+
    then show ?thesis using Some address_routed routed_by_address [OF Some] by (auto simp: reading_def)
  qed
qed

theorem reading_methods_are_safe_witness:
  "snd (serve demo_platform (demo_occasion True) (pf_too_many demo_platform)
      \<lparr>ca_method = GET, ca_segments = [''v1'', ''payments''], ca_query = [], ca_only_unresolved = None, ca_body = ''body''\<rparr>
      (demo_request Health) demo_shop) = demo_shop"
proof -
  let ?call = "\<lparr>ca_method = GET, ca_segments = [''v1'', ''payments''], ca_query = [], ca_only_unresolved = None, ca_body = ''body''\<rparr>"
  obtain resp jobs d' where run: "serve demo_platform (demo_occasion True) (pf_too_many demo_platform) ?call (demo_request Health) demo_shop
      = ((resp, jobs), d')" by (metis prod.collapse)
  then show ?thesis using reading_methods_are_safe [OF run] by simp
qed

end
