(* ===== verification/Spec2Isabelle.thy ===== *)
theory Spec2Isabelle
  imports Lifecycle Bank Acceptance Creation Seed_Demo World Defence Interleaving Routes
begin

text \<open>
  A model of ledger-ops-api, a NestJS service that takes mobile-money payments for merchants, follows
  them through a state machine, keeps a double-entry ledger in PostgreSQL, and reconciles with the
  operators.

  \<^bold>\<open>The program and its parts.\<close> A request passes two guards (API key, role) and reaches a
  controller; the controller calls a service; the service runs one SQL transaction, in which the
  triggers and constraints of the database check and complete every row; whatever fails is turned into
  a Problem Details answer by one filter. A cron job expires overdue payments, a queue of simulated
  operator callbacks confirms or fails them, a script loads demonstration data. The theories follow
  these parts, each one after those it calls.

  \<^item> \<open>Prelude\<close>: sums for errors (\<open>andThen\<close>, \<open>check_all\<close>, \<open>fold_result\<close>), tables as lists of rows
    (\<open>lookup_by\<close>, \<open>replace_by\<close>), decimal digits, \<open>BigInt\<close> division, the shared rewrite rules.
  \<^item> \<open>Schema\<close> (prisma/schema.prisma, the migrations): enums as datatypes, tables as records, \<open>db\<close> as
    the record of all tables; the error values of the program.
  \<^item> \<open>Database\<close> (the migrations, database/prisma.ts): every INSERT and UPDATE the program issues, with
    its ranges, BEFORE and AFTER triggers, CHECK, UNIQUE and FOREIGN KEY constraints; the balance check
    deferred to COMMIT; \<open>withActor\<close> as one SQL transaction, rolled back on error.
  \<^item> \<open>Merchants\<close>, \<open>Booking\<close>, \<open>Transition_Service\<close>, \<open>Payments\<close>, \<open>Json\<close>, \<open>Expiration\<close>, \<open>Auth\<close>,
    \<open>Reconciliation\<close>: the services of src/merchants, src/transactions, src/payments, src/expiration,
    src/auth and src/reconciliation, an operation each, by their names in the code.
  \<^item> \<open>Listing\<close>, \<open>Dates\<close>, \<open>Js_Number\<close>: transactions.service.ts \<open>list\<close> and cursor.util.ts, with base64url,
    UTF-8, ISO 8601 dates and \<open>Number\<close> as the language has them.
  \<^item> \<open>Stats\<close> (src/stats), \<open>Errors\<close> (common/filters, database/ledger-errors.ts), \<open>Api\<close> (the controllers of
    transactions, payments and merchants, the presenters, transaction-audit.service.ts), \<open>Runtime\<close>
    (src/config, src/provider-simulator, src/health), \<open>Seed_Demo\<close> (scripts/seed-demo.ts).
  \<^item> \<open>System\<close>: the initial database, \<open>service_step\<close> (any service call with any arguments and any
    surroundings) and \<open>reachable\<close>. \<open>Demo_Run\<close>: concrete runs, on which the examples rest.
  \<^item> \<open>Server\<close> (main.ts, app.module.ts, app.config.ts, database/prisma.service.ts, src/rate-limit): what the server
    starts for an environment, and one HTTP request from the rate limiter through guards, pipe and handler to the
    filter and the queue (\<open>handle_request\<close>); \<open>Front\<close> proves what holds of every request; \<open>Routes\<close> which method and
    path reach which handler, from the decorators of the controllers.
  \<^item> \<open>World\<close>: the running system, a step relation on the database, the queue of callbacks, the running jobs and
    the clock; requests, batches of the cron, the two halves of a job and other processes take turns.
  \<^item> \<open>Interleaving\<close>: creations, resolutions and guarded handlers taken apart into their queries, with other
    sessions in between.
  \<^item> \<open>Defence\<close> (the triggers of tables only appended to, the migrations that grant privileges): any program that
    connects with the role of the application, a list of any statements to a SQL transaction.

  \<^bold>\<open>The lemmas.\<close> \<open>Integrity\<close> gives each statement its effect (\<open>stmt_effect\<close>) and the interfaces: a
  table, an invariant of statements, a body of a SQL transaction are locales, interpreted on every
  table, invariant and service body. \<open>Invariants\<close> proves keys, rows, references and history kept by every
  statement, and how rows may evolve; \<open>Ledger\<close> the validity of entries from BEGIN to COMMIT;
  \<open>Booked_Lines\<close> and \<open>Accounting\<close> that the lines of the three bookings keep the ledger in agreement with
  the table of transactions; \<open>System\<close> puts them together for every step. On these rest the properties:
  here the invariants of reachable states and what later states keep; in \<open>Bank\<close> the refinement of a
  platform without a journal; in \<open>Lifecycle\<close> what a status change does and refuses; in \<open>Acceptance\<close> exactly
  which status changes go through (\<open>accepts\<close>), and that the callback of the operator settles; in \<open>Creation\<close> exactly
  which payments and refunds are created; in \<open>Requests\<close> idempotency; in \<open>Sweep\<close> that the
  expiration sweep ends, is complete and touches nothing else; in \<open>Access\<close> keys, roles and the resolution of exceptions; in \<open>Errors\<close> what a client is told; in \<open>Listing\<close>
  that pages make the list and never repeat; in \<open>Stats\<close> that the figures are counts; in \<open>Api\<close> the
  isolation of merchants, the ETag as a lock and the audit; in \<open>Runtime\<close> the bounds of a validated
  environment and of the simulated operator; in \<open>Seed_Demo\<close> the script that loads the data; in \<open>Front\<close> what a
  request may do by its key, its method and its failure; in \<open>World\<close> that the running system only reaches states
  of the services, that callbacks act once (a second delivery is harmless) and in time, that no acknowledged payment
  stays open, and how a change to the same status strands one that is not acknowledged; in
  \<open>Defence\<close> that the ledger stands whatever the application does, that the privileges granted are enough, and that
  the history is not protected; in \<open>Interleaving\<close> that a creation among others is as if made at one moment,
  and so is the check of a key before its handler, but for a key revoked in between.

  \<^bold>\<open>Interaction.\<close> Every service call is one step: PostgreSQL runs its SQL transaction atomically, row
  locks included, so an interleaving of requests is a sequence of steps. The steps of a sweep are its
  batches. The script \<open>Seed_Demo\<close> is a program over these steps with other sessions acting before every
  call (\<open>wo_others\<close>). In \<open>World\<close> a job of the simulated operator reads in one step and acts in a later one; the
  guards and the handler of a request are one step. What one step hides is taken
  apart in \<open>Interleaving\<close>: the guards before the handler, and the services that make several queries outside one SQL
  transaction.

  \<^bold>\<open>What the model takes as given.\<close> SHA-256, random bytes, generated uuids, both clocks, the text of
  dates, the rows other sessions hold locked, configuration, and what tolerant readers (base64url,
  dates, uuids, class-validator's URL check) make of unusual texts are arguments of the definitions. Strings are
  lists of code units below 256, accented letters by their codes; a message with a character outside is
  kept up to it. Amounts are integers within the range of BIGINT, checked at every statement; numeric
  configuration is rational. ORDER BY keeps the order of insertion between ties, CHECKs are tried in
  alphabetical order. Surrogate ids of postings, history and loads are left out; uuids in requests are
  taken as well-formed; the validation of a request body is a predicate (\<open>valid_create_payment\<close>,
  \<open>valid_list_query\<close>) because the framework runs it, and in \<open>Server\<close> a parameter of the platform, as are the
  exception of the throttler and which address is over its limit. The queue keeps a job until it is taken, hands
  it out once, not before it is due, and never loses it; BullMQ's second try of a stalled job is no step of \<open>World\<close>, which
  proves that it would change nothing.

  \<^bold>\<open>Bounds and fuel.\<close> \<open>JSON_parse\<close> has fuel twice the length of its text and two, proved enough for
  every text the program writes. The pages of a list are followed for as many rounds as there are
  transactions, proved enough. The settling loop of the script has 61 rounds, the 30 seconds of its
  time-out by its poll of 500 ms and one, proved enough when the clock does not go back. The loop of the
  sweep needs no fuel: the rows still PENDING are its measure.

  \<^bold>\<open>Not modelled.\<close> Swagger and the metadata of the decorators (documentation), the dependency injection of NestJS,
  the pool behind the Prisma client beyond its URL and size, the counting of the throttler, the parsing of a
  request by the framework, logging and console output, and the role that owns the tables (migrations and
  reset-demo-data.sql run with it, outside the program).
\<close>

section \<open>The invariants of every reachable state\<close>

text \<open>
  In every state the services can reach, the ledger is balanced: each journal entry passes the
  check of \<open>fn_assert_entry_valid\<close> and the sum of all debits is the sum of all credits.
\<close>

theorem reachable_ledger_balanced:
  assumes "inj uid" "reachable uid now d"
  shows "total_debit (postings d) = total_credit (postings d)
    \<and> (\<forall>e \<in> set (entries d). assert_entry_valid d (e_id e) = Inr ())"
  using reachable_system_ok [OF assms(2,1)] ledger_ok_balanced by (simp add: system_ok_def ledger_ok_def)

theorem reachable_ledger_balanced_witness:
  "reachable demo_uid 0 demo_refunded \<and> total_debit (postings demo_refunded) = 14000
    \<and> total_credit (postings demo_refunded) = 14000"
proof -
  have "total_debit (postings demo_refunded) = total_credit (postings demo_refunded)"
    using reachable_ledger_balanced [OF inj_demo_uid reach_demo_refunded] by blast
  moreover have "total_debit (postings demo_refunded) = 14000"
    by (simp add: demo_refunded_def demo_db_def total_debit_def is_debit_def posting_def)
  ultimately show ?thesis using reach_demo_refunded by simp
qed

text \<open>
  C6: The ledger and the transactions agree in every reachable state: the clearing account of an
  operator holds the amounts of its confirmed payments less what was given back, the payable account
  of a merchant those amounts less the commissions, the fees account the commissions.
\<close>

theorem reachable_accounts_explained:
  assumes "inj uid" "reachable uid now d"
  shows "account_balance (clearingCode p) d = sum_list (map (owed_by p) (transactions d))
    \<and> (\<forall>m \<in> set (merchants d). account_balance (merchantPayableAccountCode (m_code m)) d
         = - sum_list (map (owed_to (m_id m)) (transactions d)))
    \<and> account_balance FEES_CODE d = - sum_list (map commission_of (transactions d))"
  using reachable_system_ok [OF assms(2,1)] by (simp add: system_ok_def accounting_ok_def books_ok_def total_def)

theorem reachable_accounts_explained_witness:
  "account_balance (clearingCode WAVE) demo_refunded = 6000
   \<and> account_balance FEES_CODE demo_refunded = - 150"
proof -
  note eqs = reachable_accounts_explained [OF inj_demo_uid reach_demo_refunded]
  have "sum_list (map (owed_by WAVE) (transactions demo_refunded)) = 6000"
    "sum_list (map commission_of (transactions demo_refunded)) = 150"
    by (simp_all add: demo_refunded_def demo_defs owed_by_def outstanding_def booked_def commission_of_def
        computeCommission_def bigint_div_def)
  then show ?thesis using eqs by metis
qed

text \<open>
  C7: In every reachable state the refunded amount of a payment is the sum of its confirmed refunds,
  unless the payment was lost in a dispute (REVERSED): then it is the whole amount, and the confirmed
  refunds are within it. A payment is never refunded beyond its amount.
\<close>

theorem reachable_refunds_accounted:
  assumes "inj uid" "reachable uid now d" "t \<in> set (transactions d)" "t_type t = PAYMENT"
  shows "sum_list (map (refunded_by (t_id t)) (transactions d)) \<le> t_amount t
    \<and> (t_status t = REVERSED \<and> t_refunded_amount t = t_amount t
       \<or> t_status t \<noteq> REVERSED
         \<and> t_refunded_amount t = sum_list (map (refunded_by (t_id t)) (transactions d)))"
proof -
  have ok: "refunded_ok d" "rows_ok d"
    using reachable_system_ok [OF assms(2,1)] by (simp_all add: system_ok_def accounting_ok_def tables_ok_def)
  have "t_refunded_amount t \<le> t_amount t"
    using checks_of_row(6) ok(2) assms(3) unfolding rows_ok_def by blast
  then show ?thesis
    using ok(1) assms(3,4) unfolding refunded_ok_def total_def by (cases "t_status t = REVERSED") auto
qed

theorem reachable_refunds_accounted_witness:
  "\<exists>t \<in> set (transactions demo_refunded). t_refunded_amount t = 4000
     \<and> t_refunded_amount t = sum_list (map (refunded_by (t_id t)) (transactions demo_refunded))"
proof -
  let ?t = "demo_row ''t1'' ''TXN-20260922-010101'' ''k1'' 1000 PARTIALLY_REFUNDED 4000 4 6000"
  have t: "?t \<in> set (transactions demo_refunded)" "t_type ?t = PAYMENT" "t_status ?t \<noteq> REVERSED"
    "t_refunded_amount ?t = 4000"
    by (simp_all add: demo_refunded_def demo_db_def demo_row_def)
  show ?thesis
    using reachable_refunds_accounted [OF inj_demo_uid reach_demo_refunded t(1,2)] t(1,3,4) by blast
qed



text \<open>
  C20: In every reachable state the history of a transaction is a walk of the state machine, from its
  creation at INITIATED to its current status: nothing is missing, and no forbidden transition was
  ever made.
\<close>

theorem reachable_history_walks:
  assumes "inj uid" "reachable uid now d" "t \<in> set (transactions d)"
  shows "walks None (filter (\<lambda>h. h_transaction_id h = t_id t) (history d)) (Some (t_status t))"
  using reachable_system_ok [OF assms(2,1)] assms(3)
  by (simp add: system_ok_def tables_ok_def history_ok_def history_of_def)

theorem reachable_history_walks_witness:
  "walks None (history_of ''t1'' demo_reversed) (Some REVERSED)"
proof -
  let ?t = "demo_row ''t1'' ''TXN-20260922-010101'' ''k1'' 1000 REVERSED 10000 7 8000"
  have t: "?t \<in> set (transactions demo_reversed)" "t_id ?t = ''t1''" "t_status ?t = REVERSED"
    by (simp_all add: demo_reversed_def demo_db_def demo_row_def)
  show ?thesis
    using reachable_history_walks [OF inj_demo_uid reach_demo_reversed t(1)] t(2,3) by (simp add: history_of_def)
qed

section \<open>What no sequence of requests can undo\<close>

text \<open>
  Whatever requests follow, history, accounts, entries, postings and merchants only grow, and a
  transaction keeps its frozen columns (reference, type, amount, parties, expiry, creation), never
  has less refunded, only moves along the allowed transitions, and once FAILED, EXPIRED, REFUNDED or
  REVERSED keeps that status.
\<close>

theorem later_states_only_grow:
  assumes "inj uid" "reachable uid now d" "rtranclp service_step d d'"
  shows "extends (history d) (history d') \<and> extends (entries d) (entries d') \<and> extends (postings d) (postings d')
    \<and> extends (accounts d) (accounts d') \<and> extends (merchants d) (merchants d')
    \<and> (\<forall>t \<in> set (transactions d). \<exists>t' \<in> set (transactions d').
          frozen_columns_kept t t' \<and> t_refunded_amount t \<le> t_refunded_amount t'
        \<and> rtranclp allowed (t_status t) (t_status t')
        \<and> (t_status t \<in> {FAILED, EXPIRED, REFUNDED, REVERSED} \<longrightarrow> t_status t' = t_status t))"
proof -
  have ok: "system_ok d" using reachable_system_ok [OF assms(2,1)] .
  have "evolves d d'" using steps_evolve [OF assms(3) ok] by blast
  then show ?thesis
    using terminal_stays unfolding evolves_def row_evolves_def is_terminal_def by metis
qed

theorem later_states_only_grow_witness:
  "extends (history demo_expired) (history demo_late) \<and> length (history demo_late) = 12"
proof -
  have "service_step demo_expired demo_late" using step_transition run_late by (metis snd_conv)
  then have "extends (history demo_expired) (history demo_late)"
    using later_states_only_grow [OF inj_demo_uid reach_demo_expired r_into_rtranclp] by blast
  then show ?thesis by (simp add: demo_late_def demo_db_def)
qed

text \<open>
  The journal is sealed: the lines of an entry of a reachable state are the same in every later
  state, so no request adds a line to it or changes one.
\<close>

theorem later_states_keep_entries:
  assumes "inj uid" "reachable uid now d" "rtranclp service_step d d'" "e \<in> set (entries d)"
  shows "e \<in> set (entries d') \<and> lines_of (e_id e) d' = lines_of (e_id e) d"
proof -
  have ok: "system_ok d" using reachable_system_ok [OF assms(2,1)] .
  have "evolves d d'" using steps_evolve [OF assms(3) ok] by blast
  then show ?thesis
    using steps_keep_lines [OF assms(3) ok] assms(4) by (auto simp: evolves_def extends_iff)
qed

theorem later_states_keep_entries_witness:
  "lines_of ''e3000'' demo_refund_created = lines_of ''e3000'' demo_settled \<and> length (lines_of ''e3000'' demo_settled) = 3"
proof -
  have "service_step demo_settled demo_refund_created" using step_refund run_refund_created by (metis snd_conv)
  moreover have "demo_entry ''e3000'' ''Paiement TXN-20260922-010101'' ''t1'' 3 3000 \<in> set (entries demo_settled)"
    by (simp add: demo_settled_def demo_db_def)
  ultimately have "lines_of ''e3000'' demo_refund_created = lines_of ''e3000'' demo_settled"
    using later_states_keep_entries [OF inj_demo_uid reach_demo_settled r_into_rtranclp] by (force simp: demo_entry_def)
  then show ?thesis by (simp add: demo_settled_def demo_db_def lines_of_def posting_def)
qed

text \<open>
  C11: The version of a transaction identifies its state: if in a later state the row has the version
  it had, the row has not changed at all. This is what makes \<open>If-Match\<close> on the ETag a sound
  optimistic lock.
\<close>

theorem version_identifies_state:
  assumes "inj uid" "reachable uid now d" "rtranclp service_step d d'"
    "t \<in> set (transactions d)" "t' \<in> set (transactions d')" "t_reference t' = t_reference t"
  shows "t_version t \<le> t_version t' \<and> (t_version t' = t_version t \<longrightarrow> t' = t)"
proof -
  have ok: "system_ok d" using reachable_system_ok [OF assms(2,1)] .
  then have ok': "system_ok d'" using steps_evolve [OF assms(3)] by blast
  obtain s where s: "s \<in> set (transactions d')" "row_evolves t s" using row_later [OF assms(3) ok assms(4)] .
  have "t_reference s = t_reference t'" using s(2) assms(6) by (simp add: row_evolves_def frozen_columns_kept_def)
  then have "s = t'"
    using ok' s(1) assms(5) by (auto simp: system_ok_def tables_ok_def keys_ok_def distinct_map inj_on_def)
  then show ?thesis using s(2) by (simp add: row_evolves_def)
qed

theorem version_identifies_state_witness:
  "demo_row ''t1'' ''TXN-20260922-010101'' ''k1'' 1000 INITIATED 0 1 1000 \<in> set (transactions demo_created)
   \<and> demo_row ''t1'' ''TXN-20260922-010101'' ''k1'' 1000 PENDING 0 2 2000 \<in> set (transactions demo_pending)
   \<and> t_version (demo_row ''t1'' ''TXN-20260922-010101'' ''k1'' 1000 INITIATED 0 1 1000)
     \<le> t_version (demo_row ''t1'' ''TXN-20260922-010101'' ''k1'' 1000 PENDING 0 2 2000)"
proof -
  let ?t = "demo_row ''t1'' ''TXN-20260922-010101'' ''k1'' 1000 INITIATED 0 1 1000"
  let ?t' = "demo_row ''t1'' ''TXN-20260922-010101'' ''k1'' 1000 PENDING 0 2 2000"
  have t: "?t \<in> set (transactions demo_created)" "?t' \<in> set (transactions demo_pending)"
    "t_reference ?t' = t_reference ?t"
    by (simp_all add: demo_created_def demo_pending_def demo_db_def demo_row_def)
  have "service_step demo_created demo_pending" using step_transition run_pending by (metis snd_conv)
  then show ?thesis
    using version_identifies_state [OF inj_demo_uid reach_demo_created r_into_rtranclp t] t(1,2) by blast
qed

end
